(* ===== verification/Via_Prelude.thy ===== *)
theory Via_Prelude
  imports Main "HOL-Library.Word" "HOL-Library.Multiset"
begin

section \<open>Prelude: shared types, interfaces and lemmas\<close>

text \<open>
  What every component theory shares: the byte type, results with errors as the left
  summand (Go's second return value), the interface of an encoding with a partial decoder,
  and the generic lemmas on lists the component proofs rest on.

  Conventions of the development: a Go \<^verbatim>\<open>[]byte\<close> holding an address or an option is a
  list of 8-bit words, with the empty list standing for \<^verbatim>\<open>nil\<close>; a Go \<^verbatim>\<open>string\<close> (and a
  \<^verbatim>\<open>[]byte\<close> treated as text) is a \<^typ>\<open>string\<close>, whose characters are bytes, so that
  \<open>length\<close> is Go's \<^verbatim>\<open>len\<close>; an error result is \<open>Inl\<close>, a value \<open>Inr\<close>.
\<close>

type_synonym byte = "8 word"
type_synonym bytes = "8 word list"

definition bytes_of :: "string \<Rightarrow> bytes" where
  "bytes_of s = map of_char s"

definition string_of :: "bytes \<Rightarrow> string" where
  "string_of bs = map (\<lambda>b. char_of (unat b)) bs"

lemma unat_byte: "unat (b :: byte) < 256"
  using unsigned_less [of b] by simp

lemma char_byte_char: "char_of (unat (of_char c :: byte)) = c"
proof -
  have n: "unat (of_nat n :: byte) = n mod 256" for n by (simp add: unat_of_nat)
  have "(of_char c :: byte) = of_nat (of_char c)" by (simp only: of_nat_of_char)
  then have "unat (of_char c :: byte) = of_char c mod 256" by (simp only: n)
  then show ?thesis by (simp only: char_of_mod_256 char_of_char)
qed

lemma byte_char_byte: "of_char (char_of (unat b) :: char) = (b :: byte)"
proof -
  have "(of_char (char_of (unat b) :: char) :: byte) = of_nat (of_char (char_of (unat b) :: char))"
    by (simp only: of_nat_of_char)
  also have "\<dots> = of_nat (unat b mod 256)" by (simp only: of_char_of)
  also have "unat b mod 256 = unat b" using unat_byte [of b] by simp
  finally show ?thesis by simp
qed

lemma string_of_bytes_of [simp]: "string_of (bytes_of s) = s"
  by (simp add: string_of_def bytes_of_def comp_def char_byte_char)

lemma bytes_of_string_of [simp]: "bytes_of (string_of bs) = bs"
  by (simp add: string_of_def bytes_of_def comp_def byte_char_byte)

named_theorems wire \<open>equations that evaluate the byte level encodings\<close>

subsection \<open>Encodings\<close>

text \<open>
  The interface of every encoder in the program: on the values it is meant for, the
  decoder gives the value back. What clients need of it, injectivity and the
  composition of two encodings, is proved once here.
\<close>

locale codec =
  fixes enc :: "'a \<Rightarrow> 'b"
    and dec :: "'b \<Rightarrow> 'a option"
    and good :: "'a \<Rightarrow> bool"
  assumes dec_enc: "good x \<Longrightarrow> dec (enc x) = Some x"
begin

lemma enc_inject:
  assumes "good x" and "good y"
  shows "enc x = enc y \<longleftrightarrow> x = y"
  by (metis assms dec_enc option.inject)

lemma inj_on_enc: "inj_on enc {x. good x}"
  by (rule inj_onI) (simp add: enc_inject)

lemma dec_enc_bind:
  assumes "good x"
  shows "Option.bind (dec (enc x)) f = f x"
  using dec_enc [OF assms] by simp

end

subsection \<open>Lists\<close>

lemma map_filter_append: "List.map_filter f (xs @ ys) = List.map_filter f xs @ List.map_filter f ys"
  by (simp add: List.map_filter_def)

lemma mset_map_filter_cong:
  "mset xs = mset ys \<Longrightarrow> mset (List.map_filter f xs) = mset (List.map_filter f ys)"
  by (simp add: List.map_filter_def)

lemma set_map_filter: "set (List.map_filter f xs) = {y. \<exists>x \<in> set xs. f x = Some y}"
  by (force simp: List.map_filter_def)

lemma take_last_bound: "length (drop (length xs - n) xs) \<le> n"
  by simp

end
