(* ===== verification/Go_Strings.thy ===== *)
theory Go_Strings
  imports Via_Prelude
begin

section \<open>Go's strings, strconv and encoding packages\<close>

text \<open>
  The functions of Go's standard library over strings that the program calls, defined over
  lists of characters (bytes): \<^verbatim>\<open>strconv.Itoa\<close>, \<^verbatim>\<open>Atoi\<close> and \<^verbatim>\<open>ParseInt\<close>, the trimming,
  splitting and case functions of \<^verbatim>\<open>strings\<close>, \<^verbatim>\<open>hex\<close>, \<^verbatim>\<open>net.SplitHostPort\<close>. The decimal and
  hexadecimal encodings are shown to be encodings in the sense of the prelude.
\<close>

subsection \<open>Prefixes, suffixes and separators\<close>

fun strip_prefix :: "string \<Rightarrow> string \<Rightarrow> string option" where
  "strip_prefix [] s = Some s"
| "strip_prefix (p # ps) [] = None"
| "strip_prefix (p # ps) (c # cs) = (if p = c then strip_prefix ps cs else None)"

definition TrimPrefix :: "string \<Rightarrow> string \<Rightarrow> string" where
  "TrimPrefix s p = (case strip_prefix p s of Some r \<Rightarrow> r | None \<Rightarrow> s)"

definition TrimSuffix :: "string \<Rightarrow> string \<Rightarrow> string" where
  "TrimSuffix s p = (case strip_prefix (rev p) (rev s) of Some r \<Rightarrow> rev r | None \<Rightarrow> s)"

text \<open>\<^verbatim>\<open>strings.Split\<close> at a separator of one byte: the fields between separators, so one
  (empty) field for the empty string.\<close>

fun Split :: "string \<Rightarrow> char \<Rightarrow> string list" where
  "Split [] d = [[]]"
| "Split (c # cs) d =
     (if c = d then [] # Split cs d
      else (case Split cs d of [] \<Rightarrow> [[c]] | f # fs \<Rightarrow> (c # f) # fs))"

fun Join :: "string list \<Rightarrow> string \<Rightarrow> string" where
  "Join [] d = []"
| "Join [f] d = f"
| "Join (f # g # fs) d = f @ d @ Join (g # fs) d"

lemma strip_prefix_Some: "strip_prefix p s = Some r \<longleftrightarrow> s = p @ r"
  by (induction p s rule: strip_prefix.induct) auto

lemma Split_nonempty [simp]: "Split s d \<noteq> []"
  by (induction s) (auto split: list.splits)

lemma Join_Cons_head: "Join ((c # f) # fs) d = c # Join (f # fs) d"
  by (cases fs) auto

lemma Join_Nil_head: "fs \<noteq> [] \<Longrightarrow> Join ([] # fs) d = d @ Join fs d"
  by (cases fs) auto

lemma Join_Split: "Join (Split s d) [d] = s"
  by (induction s) (auto simp: Join_Cons_head Join_Nil_head split: list.splits)

subsection \<open>White space\<close>

text \<open>
  \<^verbatim>\<open>unicode.IsSpace\<close>, as the byte sequences that encode its code points: the six ASCII
  ones, U+0085, U+00A0, U+1680, U+2000 to U+200A, U+2028, U+2029, U+202F, U+205F, U+3000.
  No encoding is a proper prefix of another and none begins with a continuation byte, so
  decoding rune by rune and looking for these sequences agree.
\<close>

definition space_encodings :: "string list" where
  "space_encodings =
     [[CHR 0x09], [CHR 0x0A], [CHR 0x0B], [CHR 0x0C], [CHR 0x0D], [CHR 0x20],
      [CHR 0xC2, CHR 0x85], [CHR 0xC2, CHR 0xA0], [CHR 0xE1, CHR 0x9A, CHR 0x80]]
     @ map (\<lambda>c. [CHR 0xE2, CHR 0x80, c])
         [CHR 0x80, CHR 0x81, CHR 0x82, CHR 0x83, CHR 0x84, CHR 0x85, CHR 0x86, CHR 0x87,
          CHR 0x88, CHR 0x89, CHR 0x8A, CHR 0xA8, CHR 0xA9, CHR 0xAF]
     @ [[CHR 0xE2, CHR 0x81, CHR 0x9F], [CHR 0xE3, CHR 0x80, CHR 0x80]]"

fun strip_any :: "string list \<Rightarrow> string \<Rightarrow> string option" where
  "strip_any [] s = None"
| "strip_any (e # es) s =
     (case strip_prefix e s of Some r \<Rightarrow> if e = [] then None else Some r | None \<Rightarrow> strip_any es s)"

lemma strip_any_length: "strip_any es s = Some r \<Longrightarrow> length r < length s"
  by (induction es s rule: strip_any.induct)
    (auto split: option.splits if_splits simp: strip_prefix_Some)

function trim_left :: "string list \<Rightarrow> string \<Rightarrow> string" where
  "trim_left es s = (case strip_any es s of Some r \<Rightarrow> trim_left es r | None \<Rightarrow> s)"
  by pat_completeness auto
termination
  by (relation "measure (\<lambda>(es, s). length s)") (auto simp: strip_any_length)

declare trim_left.simps [simp del]

definition TrimSpace :: "string \<Rightarrow> string" where
  "TrimSpace s =
     rev (trim_left (map rev space_encodings) (rev (trim_left space_encodings s)))"

text \<open>A text that starts and ends with printable ASCII is left alone.\<close>

definition graphic :: "char \<Rightarrow> bool" where
  "graphic c \<longleftrightarrow> (32::nat) < of_char c \<and> of_char c < (128::nat)"

lemma space_encodings_ends:
  "list_all (\<lambda>e. e \<noteq> [] \<and> \<not> graphic (hd e) \<and> \<not> graphic (last e)) space_encodings"
  by (simp add: space_encodings_def graphic_def)

lemma strip_any_None:
  assumes "list_all (\<lambda>e. e \<noteq> [] \<and> hd e \<noteq> c) es"
  shows "strip_any es (c # cs) = None"
  using assms
proof (induction es)
  case (Cons e es)
  then obtain x xs where "e = x # xs" "x \<noteq> c" by (cases e) auto
  with Cons show ?case by simp
qed simp

lemma strip_any_graphic:
  assumes "graphic c"
  shows "strip_any space_encodings (c # cs) = None"
    and "strip_any (map rev space_encodings) (c # cs) = None"
  using assms space_encodings_ends
  by (auto intro!: strip_any_None simp: list_all_iff hd_rev)

lemma trim_left_stop: "strip_any es s = None \<Longrightarrow> trim_left es s = s"
  by (subst trim_left.simps) simp

lemma strip_any_Nil [simp]: "strip_any es [] = None"
proof (induction es)
  case (Cons e es)
  then show ?case by (cases e) auto
qed simp

lemma TrimSpace_id [simp]:
  assumes "s = [] \<or> graphic (hd s) \<and> graphic (last s)"
  shows "TrimSpace s = s"
proof (cases "s = []")
  case True
  then show ?thesis by (simp add: TrimSpace_def trim_left_stop)
next
  case False
  then have "strip_any space_encodings s = None"
    using assms strip_any_graphic(1) [of "hd s" "tl s"] by simp
  moreover have "strip_any (map rev space_encodings) (rev s) = None"
    using assms False strip_any_graphic(2) [of "last s" "tl (rev s)"]
    by (simp add: hd_rev [symmetric])
  ultimately show ?thesis by (simp add: TrimSpace_def trim_left_stop)
qed

text \<open>\<^verbatim>\<open>strings.Fields\<close> and then \<^verbatim>\<open>strings.Join\<close> with an empty separator, as the program
  always combines them, leaves the bytes that belong to no white space.\<close>

function fields_acc :: "string \<Rightarrow> string \<Rightarrow> string list" where
  "fields_acc w s =
     (case strip_any space_encodings s of
        Some r \<Rightarrow> (if w = [] then fields_acc [] r else w # fields_acc [] r)
      | None \<Rightarrow> (case s of
          [] \<Rightarrow> (if w = [] then [] else [w])
        | c # cs \<Rightarrow> fields_acc (w @ [c]) cs))"
  by pat_completeness auto
termination
  by (relation "measure (\<lambda>(w, s). length s)") (auto simp: strip_any_length)

declare fields_acc.simps [simp del]

definition Fields :: "string \<Rightarrow> string list" where
  "Fields s = fields_acc [] s"

lemma strip_any_single: "[c] \<in> set es \<Longrightarrow> [] \<notin> set es \<Longrightarrow> strip_any es (c # cs) \<noteq> None"
  by (induction es) (auto split: option.splits)

lemma fields_acc_no_space:
  assumes "[x] \<in> set space_encodings" and "x \<notin> set w"
  shows "list_all (\<lambda>f. x \<notin> set f) (fields_acc w s)"
  using assms(2)
proof (induction w s rule: fields_acc.induct)
  case (1 w s)
  have no_empty: "[] \<notin> set space_encodings" by (simp add: space_encodings_def)
  show ?case
  proof (cases "strip_any space_encodings s")
    case (Some r)
    then show ?thesis using 1 by (subst fields_acc.simps) simp
  next
    case None
    show ?thesis
    proof (cases s)
      case Nil
      then show ?thesis using 1 by (subst fields_acc.simps) simp
    next
      case (Cons c cs)
      then have "x \<noteq> c" using None strip_any_single [OF assms(1) no_empty, of cs] by auto
      then show ?thesis using 1 None Cons by (subst fields_acc.simps) simp
    qed
  qed
qed

lemma Join_empty: "Join fs [] = concat fs"
  by (induction fs "[] :: string" rule: Join.induct) simp_all

lemma Join_Fields_no_space: "[x] \<in> set space_encodings \<Longrightarrow> x \<notin> set (Join (Fields s) [])"
  using fields_acc_no_space [of x "[]" s] by (auto simp: Fields_def Join_empty list_all_iff)

subsection \<open>Decimal numbers\<close>

definition digit_char :: "nat \<Rightarrow> char" where
  "digit_char n = char_of (48 + n)"

definition digit_val :: "char \<Rightarrow> nat option" where
  "digit_val c = (let n = of_char c in if 48 \<le> n \<and> n \<le> 57 then Some (n - 48) else None)"

fun nat_digits :: "nat \<Rightarrow> string" where
  "nat_digits n =
     (if n < 10 then [digit_char n] else nat_digits (n div 10) @ [digit_char (n mod 10)])"

declare nat_digits.simps [simp del]

definition Itoa :: "int \<Rightarrow> string" where
  "Itoa i = (if i < 0 then CHR ''-'' # nat_digits (nat (- i)) else nat_digits (nat i))"

fun parse_digits :: "int \<Rightarrow> string \<Rightarrow> int option" where
  "parse_digits acc [] = Some acc"
| "parse_digits acc (c # cs) =
     (case digit_val c of None \<Rightarrow> None | Some d \<Rightarrow> parse_digits (acc * 10 + int d) cs)"

text \<open>\<^verbatim>\<open>strconv.ParseInt(s, 10, bits)\<close>: an optional sign, at least one digit, and a value
  of the given width; \<open>None\<close> is either of its errors (syntax or range).\<close>

definition ParseInt :: "nat \<Rightarrow> string \<Rightarrow> int option" where
  "ParseInt bits s =
     (let (neg, ds) =
        (case s of
           [] \<Rightarrow> (False, [])
         | c # cs \<Rightarrow> (if c = CHR ''+'' then (False, cs)
                      else if c = CHR ''-'' then (True, cs) else (False, s)))
      in if ds = [] then None
         else (case parse_digits 0 ds of
             None \<Rightarrow> None
           | Some n \<Rightarrow>
               if neg then (if n \<le> 2 ^ (bits - 1) then Some (- n) else None)
               else (if n < 2 ^ (bits - 1) then Some n else None)))"

definition Atoi :: "string \<Rightarrow> int option" where
  "Atoi s = ParseInt 64 s"

definition int_fits :: "nat \<Rightarrow> int \<Rightarrow> bool" where
  "int_fits bits i \<longleftrightarrow> - (2 ^ (bits - 1)) \<le> i \<and> i < 2 ^ (bits - 1)"

lemma of_char_digit_char: "n < 10 \<Longrightarrow> of_char (digit_char n) = 48 + n"
  by (simp add: digit_char_def)

lemma digit_val_digit_char [simp]: "n < 10 \<Longrightarrow> digit_val (digit_char n) = Some n"
  by (simp add: digit_val_def of_char_digit_char)

lemma digit_val_bound: "digit_val c = Some d \<Longrightarrow> d < 10"
  by (auto simp: digit_val_def Let_def split: if_splits)

lemma parse_digits_append:
  "parse_digits acc (xs @ ys) = Option.bind (parse_digits acc xs) (\<lambda>a. parse_digits a ys)"
  by (induction acc xs rule: parse_digits.induct) (auto split: option.splits)

lemma parse_digits_nonneg: "parse_digits acc s = Some n \<Longrightarrow> 0 \<le> acc \<Longrightarrow> 0 \<le> n"
  by (induction acc s rule: parse_digits.induct) (auto split: option.splits)

lemma parse_nat_digits: "parse_digits 0 (nat_digits n) = Some (int n)"
proof (induction n rule: nat_digits.induct)
  case (1 n)
  show ?case
  proof (cases "n < 10")
    case True
    then show ?thesis by (subst nat_digits.simps) simp
  next
    case False
    with "1" have "parse_digits 0 (nat_digits (n div 10)) = Some (int (n div 10))" by simp
    moreover have "int (n div 10) * 10 + int (n mod 10) = int n"
      by (simp add: zdiv_int zmod_int)
    ultimately show ?thesis using False
      by (subst nat_digits.simps) (simp add: parse_digits_append)
  qed
qed

lemma nat_digits_nonempty [simp]: "nat_digits n \<noteq> []"
  by (subst nat_digits.simps) simp

lemma nat_digits_all: "c \<in> set (nat_digits n) \<Longrightarrow> \<exists>d < 10. c = digit_char d"
proof (induction n rule: nat_digits.induct)
  case (1 n)
  show ?case
  proof (cases "n < 10")
    case True
    with "1.prems" show ?thesis by (subst (asm) nat_digits.simps) auto
  next
    case False
    with "1.prems" have "c \<in> set (nat_digits (n div 10)) \<or> c = digit_char (n mod 10)"
      by (subst (asm) nat_digits.simps) auto
    moreover have "n mod 10 < 10" by simp
    ultimately show ?thesis using "1.IH" False by blast
  qed
qed

lemma graphic_digit_char [simp]: "n < 10 \<Longrightarrow> graphic (digit_char n)"
  by (simp add: graphic_def of_char_digit_char)

lemma graphic_nat_digits: "c \<in> set (nat_digits n) \<Longrightarrow> graphic c"
  using nat_digits_all by fastforce

text \<open>A digit is none of the characters the formats use as separators.\<close>

lemma digit_char_neq:
  assumes "d < 10" and "of_char c < (48::nat) \<or> (57::nat) < of_char c"
  shows "digit_char d \<noteq> c"
  using assms of_char_digit_char [OF assms(1)] by auto

lemma nat_digits_no_sep:
  assumes "of_char c < (48::nat) \<or> (57::nat) < of_char c"
  shows "c \<notin> set (nat_digits n)"
  using nat_digits_all digit_char_neq [OF _ assms] by blast

lemma ParseInt_Itoa:
  assumes "int_fits bits i"
  shows "ParseInt bits (Itoa i) = Some i"
proof (cases "i < 0")
  case True
  with assms show ?thesis
    by (simp add: ParseInt_def Itoa_def parse_nat_digits int_fits_def)
next
  case False
  moreover obtain c cs where ds: "nat_digits (nat i) = c # cs"
    by (cases "nat_digits (nat i)") auto
  moreover have "c \<noteq> CHR ''+''" "c \<noteq> CHR ''-''"
    using nat_digits_no_sep [of "CHR ''+''" "nat i"] nat_digits_no_sep [of "CHR ''-''" "nat i"] ds
    by auto
  ultimately show ?thesis using assms parse_nat_digits [of "nat i"]
    by (simp add: ParseInt_def Itoa_def int_fits_def)
qed

interpretation dec64: codec Itoa Atoi "int_fits 64"
  by unfold_locales (simp add: Atoi_def ParseInt_Itoa)

interpretation dec32: codec Itoa "ParseInt 32" "int_fits 32"
  by unfold_locales (rule ParseInt_Itoa)

lemma ParseInt_fits:
  assumes "ParseInt bits s = Some i"
  shows "int_fits bits i"
proof -
  from assms obtain n ds where n: "parse_digits 0 ds = Some n"
    and i: "i = - n \<and> n \<le> 2 ^ (bits - 1) \<or> i = n \<and> n < 2 ^ (bits - 1)"
    by (auto simp: ParseInt_def Let_def simp del: parse_digits.simps
        split: list.splits if_splits option.splits)
  have "0 \<le> n" using parse_digits_nonneg [OF n] by simp
  moreover have "(0::int) < 2 ^ (bits - 1)" by simp
  ultimately show ?thesis using i unfolding int_fits_def by linarith
qed

lemma sint_of_int_fits: "int_fits LENGTH('a) i \<Longrightarrow> sint (of_int i :: 'a::len word) = i"
  by (simp add: int_fits_def sint_sbintrunc' signed_take_bit_int_eq_self)

subsection \<open>Hexadecimal\<close>

definition hex_char :: "nat \<Rightarrow> char" where
  "hex_char n = (if n < 10 then char_of (48 + n) else char_of (87 + n))"

definition hex_val :: "char \<Rightarrow> nat option" where
  "hex_val c =
     (let n = of_char c in
      if 48 \<le> n \<and> n \<le> 57 then Some (n - 48)
      else if 97 \<le> n \<and> n \<le> 102 then Some (n - 87)
      else if 65 \<le> n \<and> n \<le> 70 then Some (n - 55) else None)"

definition hex_byte :: "byte \<Rightarrow> string" where
  "hex_byte b = [hex_char (unat b div 16), hex_char (unat b mod 16)]"

definition hex_EncodeToString :: "bytes \<Rightarrow> string" where
  "hex_EncodeToString bs = concat (map hex_byte bs)"

fun hex_DecodeString :: "string \<Rightarrow> bytes option" where
  "hex_DecodeString [] = Some []"
| "hex_DecodeString [c] = None"
| "hex_DecodeString (c # d # cs) =
     (case (hex_val c, hex_val d, hex_DecodeString cs) of
        (Some h, Some l, Some bs) \<Rightarrow> Some (of_nat (16 * h + l) # bs)
      | _ \<Rightarrow> None)"

lemma hex_val_hex_char: "n < 16 \<Longrightarrow> hex_val (hex_char n) = Some n"
  by (auto simp: hex_val_def hex_char_def Let_def)

lemma hex_Decode_Encode: "hex_DecodeString (hex_EncodeToString bs) = Some bs"
proof (induction bs)
  case Nil
  then show ?case by (simp add: hex_EncodeToString_def)
next
  case (Cons b bs)
  have "unat b < 256" using unsigned_less [of b] by simp
  then have "hex_val (hex_char (unat b div 16)) = Some (unat b div 16)"
    and "hex_val (hex_char (unat b mod 16)) = Some (unat b mod 16)"
    by (simp_all add: hex_val_hex_char less_mult_imp_div_less)
  with Cons show ?case
    by (simp add: hex_EncodeToString_def hex_byte_def)
qed

interpretation hex: codec hex_EncodeToString hex_DecodeString "\<lambda>_. True"
  by unfold_locales (rule hex_Decode_Encode)

subsection \<open>Case, last separator, host and port\<close>

definition upper_char :: "char \<Rightarrow> char" where
  "upper_char c = (let n = of_char c :: nat in if 97 \<le> n \<and> n \<le> 122 then char_of (n - 32) else c)"

definition lower_char :: "char \<Rightarrow> char" where
  "lower_char c = (let n = of_char c :: nat in if 65 \<le> n \<and> n \<le> 90 then char_of (n + 32) else c)"

definition is_ascii :: "string \<Rightarrow> bool" where
  "is_ascii s \<longleftrightarrow> list_all (\<lambda>c. of_char c < (128::nat)) s"

text \<open>\<^verbatim>\<open>strings.ToUpper\<close> and \<^verbatim>\<open>ToLower\<close>: the ASCII rule, and for a string with other runes
  a table of the Unicode standard, which is the argument \<open>u\<close>.\<close>

definition ToUpper :: "(string \<Rightarrow> string) \<Rightarrow> string \<Rightarrow> string" where
  "ToUpper u s = (if is_ascii s then map upper_char s else u s)"

definition ToLower :: "(string \<Rightarrow> string) \<Rightarrow> string \<Rightarrow> string" where
  "ToLower u s = (if is_ascii s then map lower_char s else u s)"

text \<open>The parts around the first and around the last occurrence of a byte.\<close>

fun split_first :: "char \<Rightarrow> string \<Rightarrow> (string \<times> string) option" where
  "split_first d [] = None"
| "split_first d (c # cs) =
     (if c = d then Some ([], cs) else map_option (\<lambda>(a, b). (c # a, b)) (split_first d cs))"

definition split_last :: "char \<Rightarrow> string \<Rightarrow> (string \<times> string) option" where
  "split_last d s = map_option (\<lambda>(a, b). (rev b, rev a)) (split_first d (rev s))"

lemma split_first_Some: "split_first d s = Some (a, b) \<longleftrightarrow> s = a @ d # b \<and> d \<notin> set a"
proof (induction s arbitrary: a)
  case Nil
  then show ?case by simp
next
  case (Cons c cs)
  then show ?case by (cases a) auto
qed

lemma split_first_None: "split_first d s = None \<longleftrightarrow> d \<notin> set s"
  by (induction s) auto

lemma split_last_Some: "split_last d s = Some (a, b) \<longleftrightarrow> s = a @ d # b \<and> d \<notin> set b"
proof -
  have "split_last d s = Some (a, b) \<longleftrightarrow> split_first d (rev s) = Some (rev b, rev a)"
    by (auto simp: split_last_def)
  also have "\<dots> \<longleftrightarrow> rev s = rev b @ d # rev a \<and> d \<notin> set b"
    by (simp add: split_first_Some)
  also have "rev s = rev b @ d # rev a \<longleftrightarrow> s = a @ d # b"
    by (metis append.assoc append_Cons append_Nil rev.simps(2) rev_append rev_rev_ident)
  finally show ?thesis .
qed

lemma split_last_None: "split_last d s = None \<longleftrightarrow> d \<notin> set s"
  by (simp add: split_last_def split_first_None)

text \<open>\<^verbatim>\<open>net.SplitHostPort\<close>; \<open>None\<close> is any of its errors.\<close>

definition SplitHostPort :: "string \<Rightarrow> (string \<times> string) option" where
  "SplitHostPort s =
     (case split_last (CHR '':'') s of
        None \<Rightarrow> None
      | Some (h, p) \<Rightarrow>
          (case s of
             [] \<Rightarrow> None
           | c # r \<Rightarrow>
               if c = CHR ''['' then
                 (case split_first (CHR '']'') r of
                    None \<Rightarrow> None
                  | Some (host, after) \<Rightarrow>
                      if after = CHR '':'' # p \<and> CHR ''['' \<notin> set r \<and> CHR '']'' \<notin> set after
                      then Some (host, p) else None)
               else if CHR '':'' \<in> set h \<or> CHR ''['' \<in> set s \<or> CHR '']'' \<in> set s then None
               else Some (h, p)))"

lemma SplitHostPort_plain:
  assumes "h \<noteq> []" and "set h \<inter> {CHR '':'', CHR ''['', CHR '']''} = {}"
    and "set p \<inter> {CHR '':'', CHR ''['', CHR '']''} = {}"
  shows "SplitHostPort (h @ CHR '':'' # p) = Some (h, p)"
proof -
  obtain c r where h: "h = c # r" using assms(1) by (cases h) auto
  have "split_last (CHR '':'') (h @ CHR '':'' # p) = Some (h, p)"
    using assms(3) by (simp add: split_last_Some)
  then show ?thesis using assms(2,3) h by (auto simp: SplitHostPort_def)
qed

end
