(* ===== verification/Go_Net.thy ===== *)
theory Go_Net
  imports Go_Strings
begin

section \<open>Go's net and net/netip packages\<close>

text \<open>
  The address functions of Go's standard library the program calls. An address is the
  list of its bytes: four or sixteen of them, or none for a \<^verbatim>\<open>nil\<close> \<^verbatim>\<open>net.IP\<close>.
  \<open>ParseAddr\<close> is \<^verbatim>\<open>netip.ParseAddr\<close> and \<open>ParseIP\<close> is \<^verbatim>\<open>net.ParseIP\<close>, which
  gives the sixteen-byte form of an IPv4 address and no address with a zone.
\<close>

subsection \<open>Parsing\<close>

text \<open>
  The loop of \<^verbatim>\<open>netip.parseIPv4Fields\<close>: the fields already read, the value and the
  number of digits of the current one, the rest of the input. A dot is an error at the start,
  at the end, after another dot (no digits in either case) and after three fields.
\<close>

fun v4_loop :: "bytes \<Rightarrow> nat \<Rightarrow> nat \<Rightarrow> string \<Rightarrow> bytes option" where
  "v4_loop fs val digs [] = (if length fs < 3 then None else Some (fs @ [of_nat val]))"
| "v4_loop fs val digs (c # cs) =
     (case digit_val c of
        Some d \<Rightarrow>
          if digs = 1 \<and> val = 0 then None
          else if 255 < val * 10 + d then None
          else v4_loop fs (val * 10 + d) (Suc digs) cs
      | None \<Rightarrow>
          if c = CHR ''.'' then
            (if digs = 0 \<or> cs = [] then None
             else if length fs = 3 then None
             else v4_loop (fs @ [of_nat val]) 0 0 cs)
          else None)"

definition parse_v4 :: "string \<Rightarrow> bytes option" where
  "parse_v4 s = v4_loop [] 0 0 s"

text \<open>Reading the hexadecimal digits of one field: their number, the value, the rest; a
  fifth digit is an error.\<close>

fun scan_hex :: "nat \<Rightarrow> int \<Rightarrow> string \<Rightarrow> (nat \<times> int \<times> string) option" where
  "scan_hex off acc [] = Some (off, acc, [])"
| "scan_hex off acc (c # cs) =
     (case hex_val c of
        None \<Rightarrow> Some (off, acc, c # cs)
      | Some d \<Rightarrow> if 3 < off then None else scan_hex (Suc off) (16 * acc + int d) cs)"

text \<open>
  The loop of \<^verbatim>\<open>netip.parseIPv6\<close>; its first argument is the number of two-byte fields
  there is room for, \<^verbatim>\<open>(16 - i) / 2\<close>, \<open>bs\<close> the bytes read and \<open>el\<close> the position of the
  ellipsis.
\<close>

fun v6_loop :: "nat \<Rightarrow> bytes \<Rightarrow> nat option \<Rightarrow> string \<Rightarrow> (bytes \<times> nat option \<times> string) option" where
  "v6_loop 0 bs el s = Some (bs, el, s)"
| "v6_loop (Suc n) bs el s =
     (case scan_hex 0 0 s of
        None \<Rightarrow> None
      | Some (off, acc, rest) \<Rightarrow>
          if off = 0 then None
          else (case rest of
              [] \<Rightarrow> Some (bs @ [of_int (acc div 256), of_int (acc mod 256)], el, [])
            | c # r \<Rightarrow>
                if c = CHR ''.'' then
                  (if el = None \<and> length bs \<noteq> 12 then None
                   else if 16 < length bs + 4 then None
                   else (case parse_v4 s of None \<Rightarrow> None | Some q \<Rightarrow> Some (bs @ q, el, [])))
                else if c \<noteq> CHR '':'' then None
                else (case r of
                    [] \<Rightarrow> None
                  | c2 # r2 \<Rightarrow>
                      if c2 = CHR '':'' then
                        (if el \<noteq> None then None
                         else if r2 = []
                         then Some (bs @ [of_int (acc div 256), of_int (acc mod 256)],
                                    Some (length bs + 2), [])
                         else v6_loop n (bs @ [of_int (acc div 256), of_int (acc mod 256)])
                                (Some (length bs + 2)) r2)
                      else v6_loop n (bs @ [of_int (acc div 256), of_int (acc mod 256)]) el r)))"

definition v6_expand :: "bytes \<Rightarrow> nat option \<Rightarrow> bytes option" where
  "v6_expand bs el =
     (if length bs < 16 then
        (case el of
           None \<Rightarrow> None
         | Some e \<Rightarrow> Some (take e bs @ replicate (16 - length bs) 0 @ drop e bs))
      else if el \<noteq> None then None else Some bs)"

definition v6_body :: "nat option \<Rightarrow> string \<Rightarrow> bytes option" where
  "v6_body el s =
     (case v6_loop 8 [] el s of
        None \<Rightarrow> None
      | Some (bs, el', rest) \<Rightarrow> if rest \<noteq> [] then None else v6_expand bs el')"

definition parse_v6 :: "string \<Rightarrow> bytes option" where
  "parse_v6 s =
     (case s of
        c # d # r \<Rightarrow>
          if c = CHR '':'' \<and> d = CHR '':''
          then (if r = [] then Some (replicate 16 0) else v6_body (Some 0) r)
          else v6_body None s
      | _ \<Rightarrow> v6_body None s)"

datatype addr = Addr4 bytes | Addr6 bytes (zone: string)

fun addr_kind :: "string \<Rightarrow> char option" where
  "addr_kind [] = None"
| "addr_kind (c # cs) =
     (if c = CHR ''.'' \<or> c = CHR '':'' \<or> c = CHR ''%'' then Some c else addr_kind cs)"

definition ParseAddr :: "string \<Rightarrow> addr option" where
  "ParseAddr s =
     (case addr_kind s of
        None \<Rightarrow> None
      | Some k \<Rightarrow>
          if k = CHR ''.'' then map_option Addr4 (parse_v4 s)
          else if k = CHR '':'' then
            (case split_first (CHR ''%'') s of
               None \<Rightarrow> map_option (\<lambda>b. Addr6 b []) (parse_v6 s)
             | Some (a, z) \<Rightarrow> if z = [] then None else map_option (\<lambda>b. Addr6 b z) (parse_v6 a))
          else None)"

subsection \<open>net.IP\<close>

definition v4InV6Prefix :: bytes where
  "v4InV6Prefix = [0, 0, 0, 0, 0, 0, 0, 0, 0, 0, 0xff, 0xff]"

definition ParseIP :: "string \<Rightarrow> bytes" where
  "ParseIP s =
     (case ParseAddr s of
        Some (Addr4 b) \<Rightarrow> v4InV6Prefix @ b
      | Some (Addr6 b z) \<Rightarrow> if z = [] then b else []
      | None \<Rightarrow> [])"

definition To4 :: "bytes \<Rightarrow> bytes" where
  "To4 ip =
     (if length ip = 4 then ip
      else if length ip = 16 \<and> take 12 ip = v4InV6Prefix then drop 12 ip else [])"

definition IP_Equal :: "bytes \<Rightarrow> bytes \<Rightarrow> bool" where
  "IP_Equal ip x =
     (if length ip = length x then ip = x
      else if length ip = 4 \<and> length x = 16 then take 12 x = v4InV6Prefix \<and> ip = drop 12 x
      else if length ip = 16 \<and> length x = 4 then take 12 ip = v4InV6Prefix \<and> drop 12 ip = x
      else False)"

text \<open>\<^verbatim>\<open>IP.String\<close> of a four-byte address, the only kind the program prints.\<close>

definition dotted :: "bytes \<Rightarrow> string" where
  "dotted ip = Join (map (\<lambda>b. nat_digits (unat b)) ip) ''.''"

subsection \<open>Masks\<close>

unbundle bit_operations_syntax

fun CIDRMask_bytes :: "nat \<Rightarrow> nat \<Rightarrow> bytes" where
  "CIDRMask_bytes 0 n = []"
| "CIDRMask_bytes (Suc k) n =
     (if 8 \<le> n then 0xff # CIDRMask_bytes k (n - 8)
      else NOT (drop_bit n 0xff) # CIDRMask_bytes k 0)"

text \<open>\<^verbatim>\<open>net.CIDRMask(ones, 32)\<close>, \<^verbatim>\<open>nil\<close> when \<^verbatim>\<open>ones\<close> is not a length.\<close>

definition CIDRMask :: "int \<Rightarrow> bytes" where
  "CIDRMask ones = (if ones < 0 \<or> 32 < ones then [] else CIDRMask_bytes 4 (nat ones))"

definition IP_Mask :: "bytes \<Rightarrow> bytes \<Rightarrow> bytes" where
  "IP_Mask ip m = (if length ip = length m then map2 (AND) ip m else [])"

text \<open>\<^verbatim>\<open>simpleMaskLength\<close>: the leading one bits of a byte, shifted out one by one (eight
  steps empty it), and whether any bit is left.\<close>

fun leading_ones :: "nat \<Rightarrow> byte \<Rightarrow> nat \<times> byte" where
  "leading_ones 0 v = (0, v)"
| "leading_ones (Suc k) v =
     (if v AND 0x80 \<noteq> 0 then (case leading_ones k (push_bit 1 v) of (n, w) \<Rightarrow> (Suc n, w))
      else (0, v))"

fun simpleMaskLength :: "bytes \<Rightarrow> int" where
  "simpleMaskLength [] = 0"
| "simpleMaskLength (v # vs) =
     (if v = 0xff then
        (let r = simpleMaskLength vs in if r = -1 then -1 else 8 + r)
      else
        (case leading_ones 8 v of
           (n, w) \<Rightarrow> if w \<noteq> 0 then -1 else if list_all (\<lambda>b. b = 0) vs then int n else -1))"

definition Mask_Size :: "bytes \<Rightarrow> int \<times> int" where
  "Mask_Size m =
     (let ones = simpleMaskLength m
      in if ones = -1 then (0, 0) else (ones, int (length m) * 8))"

subsection \<open>Facts about parsing\<close>

lemma nat_digits_1: "n < 10 \<Longrightarrow> nat_digits n = [digit_char n]"
  by (subst nat_digits.simps) simp

lemma nat_digits_2:
  "10 \<le> n \<Longrightarrow> n < 100 \<Longrightarrow> nat_digits n = [digit_char (n div 10), digit_char (n mod 10)]"
  by (subst nat_digits.simps) (simp add: nat_digits_1)

lemma nat_digits_3:
  "100 \<le> n \<Longrightarrow> n < 1000 \<Longrightarrow>
     nat_digits n = [digit_char (n div 100), digit_char (n div 10 mod 10), digit_char (n mod 10)]"
  by (subst nat_digits.simps) (simp add: nat_digits_2 div_mult2_eq [symmetric])

lemma v4_loop_digits:
  assumes "n < 256"
  shows "\<exists>k. 0 < k \<and> v4_loop fs 0 0 (nat_digits n @ rest) = v4_loop fs n k rest"
proof -
  consider "n < 10" | "10 \<le> n" "n < 100" | "100 \<le> n" by linarith
  then show ?thesis
  proof cases
    case 1
    then show ?thesis by (intro exI [of _ 1]) (simp add: nat_digits_1)
  next
    case 2
    then have "10 * (n div 10) + n mod 10 = n" "n div 10 < 10" "n div 10 \<noteq> 0" by auto
    with 2 show ?thesis
      by (intro exI [of _ 2]) (simp add: nat_digits_2 mult.commute numeral_2_eq_2)
  next
    case 3
    have eq: "(n div 100 * 10 + n div 10 mod 10) = n div 10" "n div 10 * 10 + n mod 10 = n"
      by (simp_all add: div_mult2_eq [of n 10 10, simplified])
    have "n div 100 < 10" "n div 100 \<noteq> 0" "n div 10 \<le> 255" "n div 10 \<noteq> 0"
      using 3 assms by auto
    with 3 assms eq show ?thesis
      by (intro exI [of _ 3]) (simp add: nat_digits_3 numeral_3_eq_3)
  qed
qed

lemma v4_loop_field:
  assumes "n < 256" and "rest \<noteq> []" and "length fs < 3"
  shows "v4_loop fs 0 0 (nat_digits n @ CHR ''.'' # rest) = v4_loop (fs @ [of_nat n]) 0 0 rest"
proof -
  from v4_loop_digits [OF assms(1)] obtain k
    where "0 < k" "v4_loop fs 0 0 (nat_digits n @ CHR ''.'' # rest) = v4_loop fs n k (CHR ''.'' # rest)"
    by blast
  then show ?thesis using assms by (simp add: digit_val_def)
qed

lemma v4_loop_last:
  assumes "n < 256" and "length fs = 3"
  shows "v4_loop fs 0 0 (nat_digits n) = Some (fs @ [of_nat n])"
proof -
  from v4_loop_digits [OF assms(1), of fs "[]"] obtain k
    where "v4_loop fs 0 0 (nat_digits n) = v4_loop fs n k []" by auto
  then show ?thesis using assms by simp
qed

lemma parse_v4_dotted: "parse_v4 (dotted [a, b, c, d]) = Some [a, b, c, d]"
  by (simp add: parse_v4_def dotted_def v4_loop_field v4_loop_last unat_byte)

lemma addr_kind_digits: "addr_kind (nat_digits n @ rest) = addr_kind rest"
proof -
  have "set w \<inter> {CHR ''.'', CHR '':'', CHR ''%''} = {} \<Longrightarrow> addr_kind (w @ rest) = addr_kind rest" for w
    by (induction w) auto
  moreover have "set (nat_digits n) \<inter> {CHR ''.'', CHR '':'', CHR ''%''} = {}"
    using nat_digits_no_sep [of "CHR ''.''" n] nat_digits_no_sep [of "CHR '':''" n]
      nat_digits_no_sep [of "CHR ''%''" n] by auto
  ultimately show ?thesis by blast
qed

lemma ParseAddr_dotted: "ParseAddr (dotted [a, b, c, d]) = Some (Addr4 [a, b, c, d])"
  using parse_v4_dotted [of a b c d]
  by (simp add: ParseAddr_def dotted_def addr_kind_digits)

lemma ParseIP_dotted: "ParseIP (dotted [a, b, c, d]) = v4InV6Prefix @ [a, b, c, d]"
  by (simp add: ParseIP_def ParseAddr_dotted)

lemma length_4_cases: "length xs = 4 \<Longrightarrow> \<exists>a b c d. xs = [a, b, c, d]"
  by (auto simp: numeral_eq_Suc length_Suc_conv)

lemma TrimSpace_dotted:
  assumes "length ip = 4"
  shows "TrimSpace (dotted ip) = dotted ip"
proof -
  from length_4_cases [OF assms] obtain a b c d where "ip = [a, b, c, d]" by blast
  then have "hd (dotted ip) \<in> set (nat_digits (unat a))"
    and "last (dotted ip) \<in> set (nat_digits (unat d))"
    by (simp_all add: dotted_def)
  then show ?thesis using graphic_nat_digits by (intro TrimSpace_id) blast
qed

lemma not_number_dotted:
  assumes "length ip = 4"
  shows "Atoi (dotted ip) = None" and "TrimPrefix (dotted ip) ''/'' = dotted ip"
proof -
  from length_4_cases [OF assms] obtain a b c d where ip: "ip = [a, b, c, d]" by blast
  then have dot: "CHR ''.'' \<in> set (dotted ip)" by (simp add: dotted_def)
  obtain x xs where x: "dotted ip = x # xs" "x \<in> set (nat_digits (unat a))"
    using ip by (cases "nat_digits (unat a)") (auto simp: dotted_def)
  have bad: "CHR ''.'' \<in> set s \<Longrightarrow> parse_digits acc s = None" for s acc
    by (induction acc s rule: parse_digits.induct) (auto simp: digit_val_def split: option.splits)
  have "x \<noteq> CHR ''+''" "x \<noteq> CHR ''-''" "x \<noteq> CHR ''/''"
    using x(2) nat_digits_no_sep [of "CHR ''+''"] nat_digits_no_sep [of "CHR ''-''"]
      nat_digits_no_sep [of "CHR ''/''"] by auto
  then show "Atoi (dotted ip) = None" and "TrimPrefix (dotted ip) ''/'' = dotted ip"
    using x(1) bad [OF dot] by (simp_all add: Atoi_def ParseInt_def TrimPrefix_def)
qed

text \<open>The dotted form of an IPv4 address is an encoding of it.\<close>

interpretation dotted_quad: codec dotted
  "\<lambda>s. if To4 (ParseIP s) = [] then None else Some (To4 (ParseIP s))" "\<lambda>ip. length ip = 4"
  by unfold_locales
    (auto dest!: length_4_cases simp: ParseIP_dotted To4_def v4InV6Prefix_def)

lemma To4_ParseIP_dotted: "length ip = 4 \<Longrightarrow> To4 (ParseIP (dotted ip)) = ip"
  using dotted_quad.dec_enc [of ip] by (auto split: if_splits)

lemma v4_loop_length: "v4_loop fs val digs s = Some r \<Longrightarrow> length fs \<le> 3 \<Longrightarrow> length r = 4"
  by (induction fs val digs s rule: v4_loop.induct) (auto split: option.splits if_splits)

lemma parse_v4_length: "parse_v4 s = Some r \<Longrightarrow> length r = 4"
  by (auto simp: parse_v4_def dest: v4_loop_length)

lemma v6_expand_length:
  "v6_expand bs el = Some r \<Longrightarrow> length bs \<le> 16 \<Longrightarrow> length r = 16"
  by (auto simp: v6_expand_def split: if_splits option.splits)

lemma v6_loop_length:
  "v6_loop n bs el s = Some (r, el', rest) \<Longrightarrow> length bs + 2 * n \<le> 16 \<Longrightarrow> length r \<le> 16"
proof (induction n arbitrary: bs el s)
  case 0
  then show ?case by simp
next
  case (Suc n)
  from Suc.prems show ?case
    by (auto split: option.splits prod.splits if_splits list.splits
        dest!: Suc.IH dest: parse_v4_length)
qed

lemma v6_body_length: "v6_body el s = Some r \<Longrightarrow> length r = 16"
  by (auto simp: v6_body_def split: option.splits prod.splits if_splits
      dest!: v6_loop_length v6_expand_length)

lemma parse_v6_length: "parse_v6 s = Some r \<Longrightarrow> length r = 16"
  by (auto simp: parse_v6_def split: list.splits if_splits dest: v6_body_length)

lemma ParseIP_length: "ParseIP s = [] \<or> length (ParseIP s) = 16"
  by (auto simp: ParseIP_def ParseAddr_def v4InV6Prefix_def
      split: option.splits if_splits addr.splits dest: parse_v4_length parse_v6_length)

lemma To4_length: "To4 ip = [] \<or> length (To4 ip) = 4"
  by (auto simp: To4_def)

lemma To4_4 [simp]: "length ip = 4 \<Longrightarrow> To4 ip = ip"
  by (simp add: To4_def)

lemma IP_Equal_refl [simp]: "IP_Equal ip ip"
  by (simp add: IP_Equal_def)

text \<open>An address and its four-byte form are the same address.\<close>

lemma IP_Equal_To4: "To4 ip \<noteq> [] \<Longrightarrow> IP_Equal (To4 ip) ip"
  by (auto simp: To4_def IP_Equal_def split: if_splits)

subsection \<open>Addresses as 32-bit numbers\<close>

definition be32 :: "bytes \<Rightarrow> 32 word" where
  "be32 bs = foldl (\<lambda>w b. push_bit 8 w OR ucast b) 0 bs"

lemma be32_4: "be32 [a, b, c, d] =
    push_bit 24 (ucast a) OR push_bit 16 (ucast b) OR push_bit 8 (ucast c) OR ucast d"
  by (simp add: be32_def push_bit_or or.assoc)

lemma bit_be32:
  "bit (be32 [a, b, c, d]) n \<longleftrightarrow>
     (if n < 8 then bit d n else if n < 16 then bit c (n - 8)
      else if n < 24 then bit b (n - 16) else n < 32 \<and> bit a (n - 24))"
proof -
  have out: "\<not> bit (x :: byte) k" if "8 \<le> k" for x k
    using that bit_imp_le_length [of x k] by auto
  consider "n < 8" | "8 \<le> n" "n < 16" | "16 \<le> n" "n < 24" | "24 \<le> n" "n < 32" | "32 \<le> n"
    by linarith
  then show ?thesis
    by cases (auto simp: be32_4 bit_simps out)
qed

lemma be32_AND:
  assumes "length ip = 4" and "length m = 4"
  shows "be32 (map2 (AND) ip m) = be32 ip AND be32 m"
proof -
  obtain a b c d a' b' c' d' where "ip = [a, b, c, d]" and "m = [a', b', c', d']"
    using assms by (meson length_4_cases)
  then show ?thesis by (intro bit_word_eqI) (simp add: bit_be32 bit_and_iff)
qed

lemma be32_OR_NOT:
  assumes "length ip = 4" and "length m = 4"
  shows "be32 (map2 (\<lambda>x y. x OR NOT y) ip m) = be32 ip OR NOT (be32 m)"
proof -
  obtain a b c d a' b' c' d' where "ip = [a, b, c, d]" and "m = [a', b', c', d']"
    using assms by (meson length_4_cases)
  then show ?thesis by (intro bit_word_eqI) (auto simp: bit_be32 bit_or_iff bit_not_iff)
qed

lemma be32_inject:
  assumes "length x = 4" and "length y = 4"
  shows "be32 x = be32 y \<longleftrightarrow> x = y"
proof
  obtain a b c d a' b' c' d' where xy: "x = [a, b, c, d]" "y = [a', b', c', d']"
    using assms by (meson length_4_cases)
  assume "be32 x = be32 y"
  then have eq: "bit (be32 x) n = bit (be32 y) n" for n by simp
  have "a = a'"
  proof (rule bit_word_eqI)
    fix n assume "n < LENGTH(8)"
    then show "bit a n = bit a' n" using eq [of "n + 24"] by (simp add: xy bit_be32)
  qed
  moreover have "b = b'"
  proof (rule bit_word_eqI)
    fix n assume "n < LENGTH(8)"
    then show "bit b n = bit b' n" using eq [of "n + 16"] by (simp add: xy bit_be32)
  qed
  moreover have "c = c'"
  proof (rule bit_word_eqI)
    fix n assume "n < LENGTH(8)"
    then show "bit c n = bit c' n" using eq [of "n + 8"] by (simp add: xy bit_be32)
  qed
  moreover have "d = d'"
  proof (rule bit_word_eqI)
    fix n assume "n < LENGTH(8)"
    then show "bit d n = bit d' n" using eq [of n] by (simp add: xy bit_be32)
  qed
  ultimately show "x = y" by (simp add: xy)
qed simp

text \<open>The masks: all 33 of them by evaluation.\<close>

lemma CIDRMask_all:
  "list_all (\<lambda>n. length (CIDRMask n) = 4 \<and> Mask_Size (CIDRMask n) = (n, 32)
      \<and> be32 (CIDRMask n) = NOT (mask (32 - nat n))) [0..32]"
  by code_simp

lemma CIDRMask_facts:
  assumes "0 \<le> n" and "n \<le> 32"
  shows CIDRMask_length: "length (CIDRMask n) = 4"
    and Mask_Size_CIDRMask: "Mask_Size (CIDRMask n) = (n, 32)"
    and be32_CIDRMask: "be32 (CIDRMask n) = NOT (mask (32 - nat n))"
  using CIDRMask_all assms by (simp_all add: list_all_iff)

lemma simpleMaskLength_bound: "simpleMaskLength m \<le> 8 * int (length m)"
proof -
  have "fst (leading_ones k v) \<le> k" for k v
    by (induction k v rule: leading_ones.induct) (auto split: prod.splits)
  then have "leading_ones 8 v = (n, w) \<Longrightarrow> n \<le> 8" for v n w
    by (metis fst_conv)
  then show ?thesis
    by (induction m) (fastforce simp: Let_def split: prod.splits)+
qed

lemma simpleMaskLength_lower: "-1 \<le> simpleMaskLength m"
  by (induction m) (auto simp: Let_def split: prod.splits)

end
