(* ===== verification/Go_Time.thy ===== *)
theory Go_Time
  imports Via_Prelude
begin

section \<open>Clock readings and durations\<close>

text \<open>
  A \<^verbatim>\<open>time.Time\<close> is the number of nanoseconds since Go's zero time (the first of January of
  year 1), unbounded, so that \<^verbatim>\<open>IsZero\<close> is equality with 0. The readings the program compares
  all come from \<^verbatim>\<open>time.Now\<close>, whose monotonic part Go compares: later readings are not
  smaller, which the theorems state as hypotheses where they need it. A \<^verbatim>\<open>time.Duration\<close> is
  an int64, and \<^verbatim>\<open>Sub\<close> saturates at its ends.
\<close>

definition Second :: int where "Second = 1000000000"

definition Minute :: int where "Minute = 60 * Second"

definition Hour :: int where "Hour = 60 * Minute"

definition IsZero :: "int \<Rightarrow> bool" where
  "IsZero t \<longleftrightarrow> t = 0"

definition time_Sub :: "int \<Rightarrow> int \<Rightarrow> int" where
  "time_Sub t u = max (- (2 ^ 63)) (min (2 ^ 63 - 1) (t - u))"

lemma time_Sub_greater: "- (2 ^ 63) \<le> w \<Longrightarrow> time_Sub t u > w \<Longrightarrow> t - u > w"
  by (auto simp: time_Sub_def)

lemma time_Sub_le: "t - u \<le> w \<Longrightarrow> 0 \<le> w \<Longrightarrow> time_Sub t u \<le> w"
  by (auto simp: time_Sub_def)

lemma time_Sub_exact: "0 \<le> w \<Longrightarrow> w < 2 ^ 63 - 1 \<Longrightarrow> time_Sub t u > w \<longleftrightarrow> t - u > w"
  by (auto simp: time_Sub_def)

subsection \<open>Timed runs\<close>

text \<open>An operation with the two readings of the clock it makes at most, and a sequence of them
  in which the clock does not run backwards from a given time on.\<close>

type_synonym 'op timed = "'op \<times> int \<times> int"

fun clocked :: "int \<Rightarrow> 'op timed list \<Rightarrow> bool" where
  "clocked c [] \<longleftrightarrow> True"
| "clocked c ((op, t1, t2) # es) \<longleftrightarrow> c \<le> t1 \<and> t1 \<le> t2 \<and> clocked t2 es"

fun end_time :: "int \<Rightarrow> 'op timed list \<Rightarrow> int" where
  "end_time c [] = c"
| "end_time c ((op, t1, t2) # es) = end_time t2 es"

lemma clocked_append: "clocked c (es @ fs) \<longleftrightarrow> clocked c es \<and> clocked (end_time c es) fs"
  by (induction c es rule: clocked.induct) simp_all

lemma clocked_end: "clocked c es \<Longrightarrow> c \<le> end_time c es"
  by (induction c es rule: clocked.induct) auto

subsection \<open>State kept per key\<close>

text \<open>
  The interface of a component whose state is a table, each operation of which concerns one
  key: what a key shows is changed by its own operations only, and these depend on nothing
  else. Operations on other keys, in any number and order, then make no difference.
\<close>

locale keyed_state =
  fixes step :: "'st \<Rightarrow> 'op \<Rightarrow> 'st"
    and key_of :: "'op \<Rightarrow> 'k"
    and view :: "'st \<Rightarrow> 'k \<Rightarrow> 'v"
  assumes step_other: "key_of op \<noteq> k \<Longrightarrow> view (step s op) k = view s k"
    and step_own: "key_of op = k \<Longrightarrow> view s k = view s' k \<Longrightarrow> view (step s op) k = view (step s' op) k"
begin

lemma view_cong:
  "view s k = view s' k \<Longrightarrow> view (foldl step s ops) k = view (foldl step s' ops) k"
proof (induction ops arbitrary: s s')
  case (Cons op ops)
  have "view (step s op) k = view (step s' op) k"
  proof (cases "key_of op = k")
    case True
    then show ?thesis using Cons.prems by (rule step_own)
  next
    case False
    then show ?thesis using Cons.prems by (simp add: step_other)
  qed
  from Cons.IH [OF this] show ?case by (simp only: foldl_Cons)
qed simp

lemma noninterference:
  "view (foldl step s ops) k = view (foldl step s (filter (\<lambda>op. key_of op = k) ops)) k"
proof (induction ops arbitrary: s)
  case (Cons op ops)
  show ?case
  proof (cases "key_of op = k")
    case False
    then have "view (foldl step (step s op) ops) k = view (foldl step s ops) k"
      by (intro view_cong step_other)
    then show ?thesis using Cons.IH False by simp
  qed (simp add: Cons.IH)
qed simp

lemma untouched: "k \<notin> key_of ` set ops \<Longrightarrow> view (foldl step s ops) k = view s k"
  by (induction ops arbitrary: s) (auto simp: step_other)

end

end
