(* ===== verification/Go_Regexp.thy ===== *)
theory Go_Regexp
  imports Go_Strings
begin

section \<open>Go's regexp package, for matches within a line\<close>

text \<open>
  A compiled expression is what it matches at the start of a text: the matched part and the
  rest. \<^verbatim>\<open>Find\<close> returns the leftmost match and \<^verbatim>\<open>ReplaceAllLiteral\<close> replaces the leftmost
  match and goes on behind it. Expressions that match the empty text do not occur.
\<close>

type_synonym matcher = "string \<Rightarrow> (string \<times> string) option"

fun regexp_Find :: "matcher \<Rightarrow> string \<Rightarrow> string option" where
  "regexp_Find m [] = None"
| "regexp_Find m (c # cs) =
     (case m (c # cs) of Some (a, b) \<Rightarrow> Some a | None \<Rightarrow> regexp_Find m cs)"

fun ReplaceAllLiteral :: "matcher \<Rightarrow> string \<Rightarrow> string \<Rightarrow> string" where
  "ReplaceAllLiteral m [] repl = []"
| "ReplaceAllLiteral m (c # cs) repl =
     (case m (c # cs) of
        Some (a, b) \<Rightarrow> repl @ ReplaceAllLiteral m (drop (length a - 1) cs) repl
      | None \<Rightarrow> c # ReplaceAllLiteral m cs repl)"

text \<open>The two kinds of expressions in use: a literal text, and a literal text followed by
  \<^verbatim>\<open>.*\<close>, which stops before a line feed.\<close>

definition newline :: char where
  "newline = CHR 0x0A"

definition literal :: "string \<Rightarrow> matcher" where
  "literal p s = map_option (\<lambda>r. (p, r)) (strip_prefix p s)"

definition literal_line :: "string \<Rightarrow> matcher" where
  "literal_line p s =
     map_option (\<lambda>r. (p @ takeWhile (\<lambda>c. c \<noteq> newline) r, dropWhile (\<lambda>c. c \<noteq> newline) r)) (strip_prefix p s)"

lemma Find_None_Replace: "regexp_Find m s = None \<Longrightarrow> ReplaceAllLiteral m s repl = s"
  by (induction s) (auto split: option.splits)

subsection \<open>Lines\<close>

lemma Split_no_sep: "f \<in> set (Split s d) \<Longrightarrow> d \<notin> set f"
  by (induction s arbitrary: f) (auto split: if_splits list.splits)

lemma Split_Join:
  "fs \<noteq> [] \<Longrightarrow> \<forall>f \<in> set fs. d \<notin> set f \<Longrightarrow> Split (Join fs [d]) d = fs"
proof (induction fs "[d]" rule: Join.induct)
  case (2 f)
  have "d \<notin> set f \<Longrightarrow> Split f d = [f]" for f by (induction f) auto
  with 2 show ?case by simp
next
  case (3 f g fs)
  have "d \<notin> set f \<Longrightarrow> Split (f @ d # s) d = f # Split s d" for f s by (induction f) auto
  with 3 show ?case by simp
qed simp

text \<open>
  The interface of an expression that never matches across a line feed: what it finds in a
  line does not depend on what follows the line. Searching and replacing then work line by
  line.
\<close>

locale line_matcher =
  fixes m :: matcher
  assumes m_splits: "m s = Some (a, b) \<Longrightarrow> s = a @ b \<and> a \<noteq> []"
    and m_line: "newline \<notin> set l \<Longrightarrow>
      m (l @ newline # rest) = map_option (\<lambda>(a, b). (a, b @ newline # rest)) (m l)"
begin

lemma m_Nil [simp]: "m [] = None"
  using m_splits [of "[]"] by (cases "m []") auto

lemma m_newline [simp]: "m (newline # rest) = None"
  using m_line [of "[]"] by simp

lemma Find_line:
  "newline \<notin> set l \<Longrightarrow> regexp_Find m (l @ newline # rest) =
    (case regexp_Find m l of Some x \<Rightarrow> Some x | None \<Rightarrow> regexp_Find m rest)"
proof (induction l)
  case (Cons c l)
  then show ?case using m_line [of "c # l" rest] by (cases "m (c # l)") auto
qed simp

lemma Replace_line:
  "newline \<notin> set l \<Longrightarrow> ReplaceAllLiteral m (l @ newline # rest) repl =
    ReplaceAllLiteral m l repl @ newline # ReplaceAllLiteral m rest repl"
proof (induction l rule: length_induct)
  case (1 l)
  show ?case
  proof (cases l)
    case (Cons c cs)
    show ?thesis
    proof (cases "m (c # cs)")
      case None
      then show ?thesis using 1 m_line [of "c # cs" rest] Cons by simp
    next
      case (Some ab)
      obtain a b where ab: "ab = (a, b)" by fastforce
      with Some m_splits have "c # cs = a @ b" "a \<noteq> []" by auto
      then have cs: "cs = tl a @ b" by (cases a) auto
      then have "newline \<notin> set b" "length b < length l" using 1(2) Cons by auto
      with 1(1) have "ReplaceAllLiteral m (b @ newline # rest) repl =
          ReplaceAllLiteral m b repl @ newline # ReplaceAllLiteral m rest repl" by blast
      then show ?thesis using Some ab m_line [of "c # cs" rest] 1(2) Cons by (simp add: cs)
    qed
  qed simp
qed

lemma Replace_Join:
  "\<forall>l \<in> set ls. newline \<notin> set l \<Longrightarrow>
    ReplaceAllLiteral m (Join ls [newline]) repl = Join (map (\<lambda>l. ReplaceAllLiteral m l repl) ls) [newline]"
  by (induction ls "[newline]" rule: Join.induct) (simp_all add: Replace_line)

lemma Find_Join:
  "\<forall>l \<in> set ls. newline \<notin> set l \<Longrightarrow>
    regexp_Find m (Join ls [newline]) = (case List.map_filter (regexp_Find m) ls of [] \<Rightarrow> None | x # _ \<Rightarrow> Some x)"
  by (induction ls "[newline]" rule: Join.induct)
    (simp_all add: Find_line List.map_filter_simps split: option.splits)

end

lemma literal_line_matcher:
  assumes "p \<noteq> []" and "newline \<notin> set p"
  shows "line_matcher (literal p)"
proof unfold_locales
  fix s a b assume "literal p s = Some (a, b)"
  then show "s = a @ b \<and> a \<noteq> []" using assms by (auto simp: literal_def strip_prefix_Some)
next
  fix l rest assume "newline \<notin> set l"
  have "strip_prefix p (l @ newline # rest) = map_option (\<lambda>b. b @ newline # rest) (strip_prefix p l)"
    using assms(2) by (induction p l rule: strip_prefix.induct) auto
  then show "literal p (l @ newline # rest) = map_option (\<lambda>(a, b). (a, b @ newline # rest)) (literal p l)"
    by (simp add: literal_def option.map_comp comp_def)
qed

lemma literal_line_line_matcher:
  assumes "p \<noteq> []" and "newline \<notin> set p"
  shows "line_matcher (literal_line p)"
proof unfold_locales
  fix s a b assume "literal_line p s = Some (a, b)"
  then show "s = a @ b \<and> a \<noteq> []" using assms by (auto simp: literal_line_def strip_prefix_Some)
next
  fix l rest assume l: "newline \<notin> set l"
  have s: "strip_prefix p (l @ newline # rest) = map_option (\<lambda>b. b @ newline # rest) (strip_prefix p l)"
    using assms(2) by (induction p l rule: strip_prefix.induct) auto
  show "literal_line p (l @ newline # rest) = map_option (\<lambda>(a, b). (a, b @ newline # rest)) (literal_line p l)"
  proof (cases "strip_prefix p l")
    case None
    then show ?thesis by (simp add: literal_line_def s)
  next
    case (Some r)
    then have "newline \<notin> set r" using l by (auto simp: strip_prefix_Some)
    then have all: "x \<in> set r \<Longrightarrow> x \<noteq> newline" for x by auto
    have r: "takeWhile (\<lambda>c. c \<noteq> newline) r = r" "dropWhile (\<lambda>c. c \<noteq> newline) r = []"
      using all by (simp_all add: takeWhile_eq_all_conv dropWhile_eq_Nil_conv)
    have rest: "takeWhile (\<lambda>c. c \<noteq> newline) (r @ newline # rest) = r"
      "dropWhile (\<lambda>c. c \<noteq> newline) (r @ newline # rest) = newline # rest"
      using all by (simp_all add: takeWhile_append2 dropWhile_append2)
    show ?thesis
      by (simp only: literal_line_def s Some option.map prod.case r rest append_Nil)
  qed
qed

text \<open>Deleting one character is a filter.\<close>

lemma Replace_char: "ReplaceAllLiteral (literal [d]) s [] = filter (\<lambda>c. c \<noteq> d) s"
  by (induction s) (auto simp: literal_def)

text \<open>What an expression of the second kind finds in a line reaches to its end.\<close>

lemma Find_literal_line:
  assumes "newline \<notin> set l" and "regexp_Find (literal_line p) l = Some x" and "p \<noteq> []"
  shows "ReplaceAllLiteral (literal_line p) l (x @ s) = l @ s"
    and "regexp_Find (literal_line p) (l @ s) \<noteq> None"
proof -
  have "ReplaceAllLiteral (literal_line p) l (x @ s) = l @ s \<and> regexp_Find (literal_line p) (l @ s) \<noteq> None"
    using assms
  proof (induction l)
    case (Cons c cs)
    show ?case
    proof (cases "strip_prefix p (c # cs)")
      case (Some r)
      then have r: "c # cs = p @ r" by (simp add: strip_prefix_Some)
      then have "newline \<notin> set r" using Cons.prems(1) by (metis Un_iff set_append)
      then have t: "takeWhile (\<lambda>c. c \<noteq> newline) r = r" by (auto simp: takeWhile_eq_all_conv)
      then have "literal_line p (c # cs) = Some (c # cs, [])"
        using r Some \<open>newline \<notin> set r\<close> by (auto simp: literal_line_def dropWhile_eq_Nil_conv)
      moreover have "strip_prefix p (c # cs @ s) = Some (r @ s)"
        using r by (simp add: strip_prefix_Some)
      ultimately show ?thesis
        using Cons.prems(2) by (auto simp: literal_line_def)
    next
      case None
      then have n: "literal_line p (c # cs) = None" by (simp add: literal_line_def)
      then show ?thesis using Cons by (auto split: option.splits)
    qed
  qed simp
  then show "ReplaceAllLiteral (literal_line p) l (x @ s) = l @ s"
    and "regexp_Find (literal_line p) (l @ s) \<noteq> None" by auto
qed

end
