(* ===== verification/Go_Crypto.thy ===== *)
theory Go_Crypto
  imports Go_Strings
begin

section \<open>Go's crypto/aes and the GCM mode of crypto/cipher\<close>

text \<open>
  The block cipher of FIPS 197, encryption only, and the authenticated mode of NIST SP
  800-38D with the 12 byte nonce and 16 byte tag Go uses, over empty additional data. A
  message is far below the 64 GiB from which \<^verbatim>\<open>Seal\<close> refuses it.
\<close>

unbundle bit_operations_syntax

subsection \<open>The block cipher\<close>

definition sbox :: bytes where
  "sbox =
    [99, 124, 119, 123, 242, 107, 111, 197, 48, 1, 103, 43, 254, 215, 171, 118,
     202, 130, 201, 125, 250, 89, 71, 240, 173, 212, 162, 175, 156, 164, 114, 192,
     183, 253, 147, 38, 54, 63, 247, 204, 52, 165, 229, 241, 113, 216, 49, 21,
     4, 199, 35, 195, 24, 150, 5, 154, 7, 18, 128, 226, 235, 39, 178, 117,
     9, 131, 44, 26, 27, 110, 90, 160, 82, 59, 214, 179, 41, 227, 47, 132,
     83, 209, 0, 237, 32, 252, 177, 91, 106, 203, 190, 57, 74, 76, 88, 207,
     208, 239, 170, 251, 67, 77, 51, 133, 69, 249, 2, 127, 80, 60, 159, 168,
     81, 163, 64, 143, 146, 157, 56, 245, 188, 182, 218, 33, 16, 255, 243, 210,
     205, 12, 19, 236, 95, 151, 68, 23, 196, 167, 126, 61, 100, 93, 25, 115,
     96, 129, 79, 220, 34, 42, 144, 136, 70, 238, 184, 20, 222, 94, 11, 219,
     224, 50, 58, 10, 73, 6, 36, 92, 194, 211, 172, 98, 145, 149, 228, 121,
     231, 200, 55, 109, 141, 213, 78, 169, 108, 86, 244, 234, 101, 122, 174, 8,
     186, 120, 37, 46, 28, 166, 180, 198, 232, 221, 116, 31, 75, 189, 139, 138,
     112, 62, 181, 102, 72, 3, 246, 14, 97, 53, 87, 185, 134, 193, 29, 158,
     225, 248, 152, 17, 105, 217, 142, 148, 155, 30, 135, 233, 206, 85, 40, 223,
     140, 161, 137, 13, 191, 230, 66, 104, 65, 153, 45, 15, 176, 84, 187, 22]"

definition SubByte :: "byte \<Rightarrow> byte" where
  "SubByte b = sbox ! unat b"

definition xtime :: "byte \<Rightarrow> byte" where
  "xtime b = (if bit b 7 then push_bit 1 b XOR 0x1b else push_bit 1 b)"

definition xor_bytes :: "bytes \<Rightarrow> bytes \<Rightarrow> bytes" where
  "xor_bytes a b = map2 (XOR) a b"

fun chunks :: "nat \<Rightarrow> 'a list \<Rightarrow> 'a list list" where
  "chunks n [] = []"
| "chunks n (x # xs) = take n (x # xs) # chunks n (drop (n - 1) xs)"

text \<open>The words of the key schedule, and from them the keys of the rounds.\<close>

definition expand_word :: "nat \<Rightarrow> bytes list \<Rightarrow> nat \<Rightarrow> bytes list" where
  "expand_word nk ws i =
     (let t = ws ! (i - 1);
          t = (if i mod nk = 0
               then xor_bytes (map SubByte (rotate1 t)) [(xtime ^^ (i div nk - 1)) 1, 0, 0, 0]
               else if 6 < nk \<and> i mod nk = 4 then map SubByte t else t)
      in ws @ [xor_bytes (ws ! (i - nk)) t])"

definition key_schedule :: "bytes \<Rightarrow> bytes list" where
  "key_schedule key =
     (let nk = length key div 4
      in map concat (chunks 4 (foldl (expand_word nk) (chunks 4 key) [nk ..< 4 * (nk + 7)])))"

definition ShiftRows :: "bytes \<Rightarrow> bytes" where
  "ShiftRows s = map (\<lambda>i. s ! ((i + 4 * (i mod 4)) mod 16)) [0..<16]"

fun MixColumns :: "bytes \<Rightarrow> bytes" where
  "MixColumns (a # b # c # d # s) =
     (let t = a XOR b XOR c XOR d
      in [a XOR t XOR xtime (a XOR b), b XOR t XOR xtime (b XOR c),
          c XOR t XOR xtime (c XOR d), d XOR t XOR xtime (d XOR a)] @ MixColumns s)"
| "MixColumns _ = []"

fun aes_rounds :: "bytes list \<Rightarrow> bytes \<Rightarrow> bytes" where
  "aes_rounds [] s = s"
| "aes_rounds [k] s = xor_bytes (ShiftRows (map SubByte s)) k"
| "aes_rounds (k # ks) s = aes_rounds ks (xor_bytes (MixColumns (ShiftRows (map SubByte s))) k)"

definition aes_Encrypt :: "bytes \<Rightarrow> bytes \<Rightarrow> bytes" where
  "aes_Encrypt key block =
     (case key_schedule key of [] \<Rightarrow> block | k # ks \<Rightarrow> aes_rounds ks (xor_bytes block k))"

subsection \<open>Galois/counter mode\<close>

definition be128 :: "bytes \<Rightarrow> 128 word" where
  "be128 bs = foldl (\<lambda>a b. push_bit 8 a OR ucast b) 0 bs"

definition put128 :: "128 word \<Rightarrow> bytes" where
  "put128 w = map (\<lambda>i. ucast (drop_bit (120 - 8 * i) w)) [0..<16]"

text \<open>The product in the field of the mode, whose first bit is the most significant one.\<close>

definition gf_mult :: "128 word \<Rightarrow> 128 word \<Rightarrow> 128 word" where
  "gf_mult x y =
     fst (foldl (\<lambda>(z, v) i.
            (if bit y (127 - i) then z XOR v else z,
             if bit v 0 then drop_bit 1 v XOR push_bit 120 0xe1 else drop_bit 1 v))
          (0, x) [0..<128])"

definition ghash :: "128 word \<Rightarrow> bytes \<Rightarrow> 128 word" where
  "ghash h bs = foldl (\<lambda>y b. gf_mult (y XOR be128 (take 16 (b @ replicate 16 0))) h) 0 (chunks 16 bs)"

definition gcm_counter :: "bytes \<Rightarrow> nat \<Rightarrow> bytes" where
  "gcm_counter nonce i =
     nonce @ map (\<lambda>k. ucast (drop_bit (24 - 8 * k) (of_nat i :: 32 word))) [0..<4]"

definition key_stream :: "bytes \<Rightarrow> bytes \<Rightarrow> nat \<Rightarrow> bytes" where
  "key_stream key nonce n =
     take n (concat (map (\<lambda>i. aes_Encrypt key (gcm_counter nonce (i + 2))) [0..<(n + 15) div 16]))"

definition gcm_tag :: "bytes \<Rightarrow> bytes \<Rightarrow> bytes \<Rightarrow> bytes" where
  "gcm_tag key nonce ciphertext =
     (let h = be128 (aes_Encrypt key (replicate 16 0));
          s = gf_mult (ghash h ciphertext XOR of_nat (8 * length ciphertext)) h
      in put128 (s XOR be128 (aes_Encrypt key (gcm_counter nonce 1))))"

text \<open>\<^verbatim>\<open>Seal\<close> appends the ciphertext and the tag to what is there already; \<^verbatim>\<open>Open\<close> checks the tag.\<close>

definition NonceSize :: nat where "NonceSize = 12"

definition Overhead :: nat where "Overhead = 16"

definition gcm_Seal :: "bytes \<Rightarrow> bytes \<Rightarrow> bytes \<Rightarrow> bytes \<Rightarrow> bytes" where
  "gcm_Seal key dst nonce plaintext =
     (let c = xor_bytes plaintext (key_stream key nonce (length plaintext))
      in dst @ c @ gcm_tag key nonce c)"

definition gcm_Open :: "bytes \<Rightarrow> bytes \<Rightarrow> bytes \<Rightarrow> bytes option" where
  "gcm_Open key nonce ciphertext =
     (if length ciphertext < Overhead then None
      else
        (let c = take (length ciphertext - Overhead) ciphertext;
             tag = drop (length ciphertext - Overhead) ciphertext
         in if gcm_tag key nonce c = tag then Some (xor_bytes c (key_stream key nonce (length c)))
            else None))"

subsection \<open>Lengths\<close>

lemma xor_bytes_length: "length (xor_bytes a b) = min (length a) (length b)"
  by (simp add: xor_bytes_def)

lemma xor_bytes_twice: "length a \<le> length b \<Longrightarrow> xor_bytes (xor_bytes a b) b = a"
proof (induction a arbitrary: b)
  case (Cons x a)
  then show ?case by (cases b) (simp_all add: xor_bytes_def xor.assoc)
qed (simp add: xor_bytes_def)

lemma chunks_step: "0 < n \<Longrightarrow> xs \<noteq> [] \<Longrightarrow> chunks n xs = take n xs # chunks n (drop n xs)"
  by (cases xs; cases n) simp_all

lemma chunks_exact:
  assumes "0 < n" and "length xs = n * m"
  shows "length (chunks n xs) = m \<and> (\<forall>c \<in> set (chunks n xs). length c = n \<and> set c \<subseteq> set xs)"
  using assms(2)
proof (induction m arbitrary: xs)
  case (Suc m)
  then have "xs \<noteq> []" using assms(1) by auto
  note step = chunks_step [OF assms(1) this]
  have "length (drop n xs) = n * m" using Suc.prems by simp
  from Suc.IH [OF this] have "length (chunks n (drop n xs)) = m"
    "\<forall>c \<in> set (chunks n (drop n xs)). length c = n \<and> set c \<subseteq> set xs"
    using set_drop_subset [of n xs] by blast+
  moreover have "length (take n xs) = n" "set (take n xs) \<subseteq> set xs"
    using Suc.prems set_take_subset by simp_all
  ultimately show ?case by (simp only: step list.set length_Cons ball_simps)
qed simp

lemma expand_word_length:
  assumes "\<forall>w \<in> set ws. length w = 4" and "length ws = i" and "0 < nk" and "nk \<le> i"
  shows "length (expand_word nk ws i) = Suc i \<and> (\<forall>w \<in> set (expand_word nk ws i). length w = 4)"
proof -
  have "length (ws ! (i - 1)) = 4" "length (ws ! (i - nk)) = 4" using assms by simp_all
  then show ?thesis using assms by (auto simp: expand_word_def xor_bytes_length Let_def)
qed

lemma expand_words_length:
  assumes "\<forall>w \<in> set ws. length w = 4" and "length ws = nk" and "0 < nk" and "nk \<le> m"
  shows "length (foldl (expand_word nk) ws [nk..<m]) = m
    \<and> (\<forall>w \<in> set (foldl (expand_word nk) ws [nk..<m]). length w = 4)"
  using assms(4)
proof (induction m rule: nat_induct_at_least)
  case base
  then show ?case using assms by simp
next
  case (Suc m)
  then show ?case
    using expand_word_length [of "foldl (expand_word nk) ws [nk..<m]" m nk] assms(3) by simp
qed

definition aes_key :: "bytes \<Rightarrow> bool" where
  "aes_key key \<longleftrightarrow> length key \<in> {16, 24, 32}"

lemma key_schedule_length:
  assumes "aes_key key"
  shows "key_schedule key \<noteq> [] \<and> (\<forall>k \<in> set (key_schedule key). length k = 16)"
proof -
  define nk where "nk = length key div 4"
  have nk: "0 < nk" "length key = 4 * nk" using assms by (auto simp: aes_key_def nk_def)
  let ?ws = "foldl (expand_word nk) (chunks 4 key) [nk ..< 4 * (nk + 7)]"
  have ws: "length ?ws = 4 * (nk + 7)" "\<forall>w \<in> set ?ws. length w = 4"
    using expand_words_length [of "chunks 4 key" nk "4 * (nk + 7)"] chunks_exact [of 4 key nk] nk by simp_all
  have c: "length (chunks 4 ?ws) = nk + 7" "\<forall>c \<in> set (chunks 4 ?ws). length c = 4 \<and> set c \<subseteq> set ?ws"
    using chunks_exact [of 4 ?ws "nk + 7"] ws(1) by simp_all
  have "length (concat c) = 16" if "length c = 4" "\<forall>w \<in> set c. length w = 4" for c :: "bytes list"
    using that by (auto simp: numeral_eq_Suc length_Suc_conv)
  then show ?thesis
    using c ws(2) by (auto simp: key_schedule_def nk_def [symmetric] Let_def)
qed

lemma MixColumns_length: "length s = 4 * n \<Longrightarrow> length (MixColumns s) = 4 * n"
proof (induction s arbitrary: n rule: MixColumns.induct)
  case (1 a b c d s)
  then show ?case by (cases n) (simp_all add: Let_def)
qed simp_all

lemma aes_rounds_length:
  "\<forall>k \<in> set ks. length k = 16 \<Longrightarrow> length s = 16 \<Longrightarrow> length (aes_rounds ks s) = 16"
proof (induction ks s rule: aes_rounds.induct)
  case (3 k k' ks s)
  have "length (MixColumns (ShiftRows (map SubByte s))) = 16"
    using MixColumns_length [of _ 4] by (simp add: ShiftRows_def)
  with 3 show ?case by (simp add: xor_bytes_length)
qed (simp_all add: xor_bytes_length ShiftRows_def)

lemma aes_Encrypt_length: "aes_key key \<Longrightarrow> length block = 16 \<Longrightarrow> length (aes_Encrypt key block) = 16"
  using key_schedule_length [of key]
  by (auto simp: aes_Encrypt_def xor_bytes_length intro!: aes_rounds_length split: list.splits)

lemma key_stream_length:
  assumes "aes_key key" and "length nonce = NonceSize"
  shows "length (key_stream key nonce n) = n"
proof -
  have "length (aes_Encrypt key (gcm_counter nonce i)) = 16" for i
    using assms by (intro aes_Encrypt_length) (simp_all add: gcm_counter_def NonceSize_def)
  then have "length (concat (map (\<lambda>i. aes_Encrypt key (gcm_counter nonce (i + 2))) [0..<k])) = 16 * k" for k
    by (induction k) simp_all
  moreover have "n \<le> 16 * ((n + 15) div 16)" by linarith
  ultimately show ?thesis by (simp add: key_stream_def)
qed

lemma gcm_tag_length: "length (gcm_tag key nonce c) = Overhead"
  by (simp add: gcm_tag_def put128_def Overhead_def Let_def)

subsection \<open>Opening what was sealed, and nothing else\<close>

lemma gcm_Open_Seal:
  assumes "aes_key key" and "length nonce = NonceSize"
  shows "gcm_Open key nonce (gcm_Seal key [] nonce p) = Some p"
  using key_stream_length [OF assms] gcm_tag_length [of key nonce]
  by (simp add: gcm_Open_def gcm_Seal_def xor_bytes_length xor_bytes_twice Let_def)

lemma gcm_Open_Some:
  assumes "aes_key key" and "length nonce = NonceSize" and "gcm_Open key nonce e = Some p"
  shows "e = gcm_Seal key [] nonce p"
proof -
  let ?c = "take (length e - Overhead) e"
  have "p = xor_bytes ?c (key_stream key nonce (length ?c))"
    "drop (length e - Overhead) e = gcm_tag key nonce ?c"
    using assms(3) by (auto simp: gcm_Open_def Let_def split: if_splits)
  moreover have "xor_bytes p (key_stream key nonce (length p)) = ?c"
    using calculation(1) key_stream_length [OF assms(1,2)] by (simp add: xor_bytes_length xor_bytes_twice)
  ultimately show ?thesis
    by (simp add: gcm_Seal_def Let_def) (metis append_take_drop_id)
qed

end
