(* ===== verification/Netutil.thy ===== *)
theory Netutil
  imports Go_Net
begin

section \<open>IPv4 arithmetic: internal/netutil\<close>

text \<open>
  \<^verbatim>\<open>NetworkAddress\<close>, \<^verbatim>\<open>NetmaskToCIDR\<close> and \<^verbatim>\<open>BroadcastAddress\<close> of
  internal/netutil/netutil.go, branch by branch, with one error constructor per error
  message. They are shown to agree on every spelling of a netmask and to compute, on
  addresses read as 32-bit numbers, the usual masks: the network clears the host bits, the
  broadcast address sets them.
\<close>

datatype net_err =
    InvalidGateway
  | InvalidMaskLength
  | InvalidNetmaskFormat
  | InvalidIPv4Netmask
  | InvalidCIDRLength int
  | InvalidNetmask string
  | NotIPv4Netmask string
  | UnexpectedMaskSize int

definition NetworkAddress :: "string \<Rightarrow> string \<Rightarrow> net_err + string" where
  "NetworkAddress gateway netmask =
     (let ip = To4 (ParseIP (TrimSpace gateway)) in
      if ip = [] then Inl InvalidGateway
      else
        (let m = TrimPrefix (TrimSpace netmask) ''/'' in
         case Atoi m of
           Some bits \<Rightarrow>
             if bits < 0 \<or> 32 < bits then Inl InvalidMaskLength
             else Inr (dotted (IP_Mask ip (CIDRMask bits)))
         | None \<Rightarrow>
             (let pm = ParseIP m in
              if pm = [] then Inl InvalidNetmaskFormat
              else
                (let pm4 = To4 pm in
                 if pm4 = [] then Inl InvalidIPv4Netmask
                 else Inr (dotted (IP_Mask ip pm4))))))"

definition NetmaskToCIDR :: "string \<Rightarrow> net_err + int" where
  "NetmaskToCIDR maskStr =
     (let m = TrimPrefix (TrimSpace maskStr) ''/'' in
      case Atoi m of
        Some bits \<Rightarrow>
          if bits < 0 \<or> 32 < bits then Inl (InvalidCIDRLength bits) else Inr bits
      | None \<Rightarrow>
          (let ip = ParseIP m in
           if ip = [] then Inl (InvalidNetmask maskStr)
           else
             (let ip4 = To4 ip in
              if ip4 = [] then Inl (NotIPv4Netmask maskStr)
              else
                (case Mask_Size ip4 of
                   (ones, bits) \<Rightarrow>
                     if bits \<noteq> 32 then Inl (UnexpectedMaskSize bits) else Inr ones))))"

definition BroadcastAddress :: "string \<Rightarrow> string \<Rightarrow> net_err + string" where
  "BroadcastAddress gateway netmask =
     (let ip = To4 (ParseIP (TrimSpace gateway)) in
      if ip = [] then Inl InvalidGateway
      else
        (let m = TrimPrefix (TrimSpace netmask) ''/'' in
         case (case Atoi m of
                 Some bits \<Rightarrow>
                   if bits < 0 \<or> 32 < bits then Inl InvalidMaskLength else Inr (CIDRMask bits)
               | None \<Rightarrow>
                   (let pm = ParseIP m in
                    if pm = [] then Inl InvalidNetmaskFormat
                    else
                      (let pm4 = To4 pm in
                       if pm4 = [] then Inl InvalidIPv4Netmask else Inr pm4))) of
           Inl e \<Rightarrow> Inl e
         | Inr msk \<Rightarrow>
             (let network = IP_Mask ip msk
              in Inr (dotted (map (\<lambda>i. network ! i OR NOT (msk ! i)) [0..<4])))))"

subsection \<open>Masks that have a length\<close>

lemma leading_ones_bytes:
  "list_all (\<lambda>i. let v = of_nat i :: byte; (k, w) = leading_ones 8 v
      in w = 0 \<longrightarrow> v \<noteq> 0xff \<longrightarrow> k < 8 \<and> v = NOT (drop_bit k 0xff)) [0..<256]"
  by code_simp

lemma leading_ones_exact:
  assumes "leading_ones 8 v = (k, 0)" and "v \<noteq> 0xff"
  shows "k < 8 \<and> v = NOT (drop_bit k 0xff)"
proof -
  have "unat v \<in> set [0..<256]" using unat_byte [of v] by simp
  with leading_ones_bytes have "let u = of_nat (unat v) :: byte; (k, w) = leading_ones 8 u
      in w = 0 \<longrightarrow> u \<noteq> 0xff \<longrightarrow> k < 8 \<and> u = NOT (drop_bit k 0xff)"
    unfolding list_all_iff by blast
  then show ?thesis using assms by (simp add: Let_def)
qed

lemma CIDRMask_bytes_zeros: "list_all (\<lambda>b. b = 0) vs \<Longrightarrow> CIDRMask_bytes (length vs) 0 = vs"
proof (induction vs)
  case (Cons v vs)
  have "NOT (drop_bit 0 0xff) = (0 :: byte)" by simp
  with Cons show ?case by simp
qed simp

lemma simpleMaskLength_exact:
  "simpleMaskLength m \<noteq> -1 \<Longrightarrow> CIDRMask_bytes (length m) (nat (simpleMaskLength m)) = m"
proof (induction m)
  case (Cons v vs)
  show ?case
  proof (cases "v = 0xff")
    case True
    with Cons have "simpleMaskLength vs \<noteq> -1" by (auto simp: Let_def)
    moreover have "0 \<le> simpleMaskLength vs"
      using simpleMaskLength_lower [of vs] calculation by linarith
    ultimately show ?thesis using True Cons.IH by (simp add: Let_def nat_add_distrib)
  next
    case False
    obtain k w where kw: "leading_ones 8 v = (k, w)" by force
    with Cons.prems False have "w = 0" "list_all (\<lambda>b. b = 0) vs" by (auto split: if_splits)
    with kw False show ?thesis
      using leading_ones_exact [of v k] by (simp add: CIDRMask_bytes_zeros)
  qed
qed simp

lemma Mask_Size_exact:
  assumes "length m = 4" and "Mask_Size m = (n, 32)"
  shows "0 \<le> n \<and> n \<le> 32 \<and> m = CIDRMask n"
proof -
  from assms have n: "simpleMaskLength m \<noteq> -1" "n = simpleMaskLength m"
    by (auto simp: Mask_Size_def Let_def split: if_splits)
  then show ?thesis
    using simpleMaskLength_exact [of m] simpleMaskLength_lower [of m] simpleMaskLength_bound [of m]
      assms(1)
    by (auto simp: CIDRMask_def)
qed

subsection \<open>One reading of a netmask\<close>

text \<open>What the three functions make of the netmask argument: when it has a length, all of
  them use the mask of that length.\<close>

lemma NetmaskToCIDR_range: "NetmaskToCIDR s = Inr n \<Longrightarrow> 0 \<le> n \<and> n \<le> 32"
  using To4_length Mask_Size_exact
  by (fastforce simp: NetmaskToCIDR_def Let_def split: option.splits if_splits prod.splits)

lemma NetmaskToCIDR_mask:
  assumes "NetmaskToCIDR s = Inr n"
  shows "Atoi (TrimPrefix (TrimSpace s) ''/'') = Some n \<or>
    (Atoi (TrimPrefix (TrimSpace s) ''/'') = None \<and>
     ParseIP (TrimPrefix (TrimSpace s) ''/'') \<noteq> [] \<and>
     To4 (ParseIP (TrimPrefix (TrimSpace s) ''/'')) = CIDRMask n)"
proof (cases "Atoi (TrimPrefix (TrimSpace s) ''/'')")
  case (Some b)
  then show ?thesis using assms by (auto simp: NetmaskToCIDR_def split: if_splits)
next
  case None
  let ?q = "ParseIP (TrimPrefix (TrimSpace s) ''/'')"
  from None assms have "?q \<noteq> []" "To4 ?q \<noteq> []" "Mask_Size (To4 ?q) = (n, 32)"
    by (auto simp: NetmaskToCIDR_def Let_def split: if_splits prod.splits)
  moreover have "length (To4 ?q) = 4" using To4_length [of ?q] calculation by auto
  ultimately show ?thesis using None Mask_Size_exact by blast
qed

lemma NetworkAddress_CIDR:
  assumes "NetmaskToCIDR s = Inr n" and "ip = To4 (ParseIP (TrimSpace gw))" and "ip \<noteq> []"
  shows "NetworkAddress gw s = Inr (dotted (IP_Mask ip (CIDRMask n)))"
  using NetmaskToCIDR_mask [OF assms(1)] NetmaskToCIDR_range [OF assms(1)] assms(2,3)
    CIDRMask_length [of n]
  by (auto simp: NetworkAddress_def Let_def)

lemma BroadcastAddress_CIDR:
  assumes "NetmaskToCIDR s = Inr n" and "ip = To4 (ParseIP (TrimSpace gw))" and "ip \<noteq> []"
  shows "BroadcastAddress gw s =
    Inr (dotted (map (\<lambda>i. IP_Mask ip (CIDRMask n) ! i OR NOT (CIDRMask n ! i)) [0..<4]))"
  using NetmaskToCIDR_mask [OF assms(1)] NetmaskToCIDR_range [OF assms(1)] assms(2,3)
    CIDRMask_length [of n]
  by (auto simp: BroadcastAddress_def Let_def)

lemma map2_nth4: "length ip = 4 \<Longrightarrow> length m = 4 \<Longrightarrow> map (\<lambda>i. f (ip ! i) (m ! i)) [0..<4] = map2 f ip m"
  by (auto dest!: length_4_cases simp: upt_conv_Cons)

lemma be32_network:
  assumes "length ip = 4" and "0 \<le> n" and "n \<le> 32"
  shows "length (IP_Mask ip (CIDRMask n)) = 4"
    and "be32 (IP_Mask ip (CIDRMask n)) = be32 ip AND NOT (mask (32 - nat n))"
  using assms by (simp_all add: IP_Mask_def be32_AND CIDRMask_facts)

lemma be32_broadcast:
  assumes "length ip = 4" and "0 \<le> n" and "n \<le> 32"
  defines "bc \<equiv> map (\<lambda>i. IP_Mask ip (CIDRMask n) ! i OR NOT (CIDRMask n ! i)) [0..<4]"
  shows "length bc = 4" and "be32 bc = be32 ip OR mask (32 - nat n)"
proof -
  show "length bc = 4" by (simp add: bc_def)
  have "bc = map2 (\<lambda>x y. x OR NOT y) (IP_Mask ip (CIDRMask n)) (CIDRMask n)"
    using assms be32_network(1) [OF assms(1-3)] CIDRMask_length [OF assms(2,3)]
    by (simp only: bc_def map2_nth4 [where f = "\<lambda>x y. x OR NOT y"])
  then have "be32 bc = (be32 ip AND NOT (mask (32 - nat n))) OR mask (32 - nat n)"
    using assms be32_network [OF assms(1-3)] be32_CIDRMask CIDRMask_length
    by (simp add: be32_OR_NOT)
  then show "be32 bc = be32 ip OR mask (32 - nat n)"
    by (simp add: bit_eq_iff bit_simps) blast
qed

lemma NetmaskToCIDR_spellings:
  assumes "0 \<le> n" and "n \<le> 32"
  shows "NetmaskToCIDR (Itoa n) = Inr n
    \<and> NetmaskToCIDR (''/'' @ Itoa n) = Inr n
    \<and> NetmaskToCIDR (dotted (CIDRMask n)) = Inr n"
proof -
  have id: "Itoa n = nat_digits (nat n)" using assms by (simp add: Itoa_def)
  obtain x xs where x: "nat_digits (nat n) = x # xs" by (cases "nat_digits (nat n)") auto
  have g: "graphic c" if "c \<in> set (Itoa n)" for c
    using that graphic_nat_digits id by simp
  have "TrimSpace (Itoa n) = Itoa n" "TrimSpace (''/'' @ Itoa n) = ''/'' @ Itoa n"
    using g by (simp_all add: id graphic_def)
  moreover have "x \<noteq> CHR ''/''" using x nat_digits_no_sep [of "CHR ''/''" "nat n"] by auto
  then have "TrimPrefix (Itoa n) ''/'' = Itoa n" "TrimPrefix (''/'' @ Itoa n) ''/'' = Itoa n"
    using x by (simp_all add: TrimPrefix_def id)
  moreover have "Atoi (Itoa n) = Some n" using assms by (intro dec64.dec_enc) (simp add: int_fits_def)
  ultimately show ?thesis
    using assms CIDRMask_facts [OF assms] To4_ParseIP_dotted [of "CIDRMask n"]
    by (auto simp: NetmaskToCIDR_def TrimSpace_dotted not_number_dotted Let_def To4_def)
qed

subsection \<open>Properties\<close>

text \<open>the three spellings of a prefix length, the number, the number after a slash and the
  dotted mask, are read as that length by \<^verbatim>\<open>NetmaskToCIDR\<close>, for every length from 0 to 32.\<close>

theorem netmask_spellings:
  assumes "0 \<le> n" and "n \<le> 32"
  shows "NetmaskToCIDR (Itoa n) = Inr n
    \<and> NetmaskToCIDR (''/'' @ Itoa n) = Inr n
    \<and> NetmaskToCIDR (dotted (CIDRMask n)) = Inr n"
  using NetmaskToCIDR_spellings [OF assms] by blast

theorem netmask_spellings_witness:
  "NetmaskToCIDR (Itoa 24) = Inr 24
    \<and> NetmaskToCIDR (''/'' @ Itoa 24) = Inr 24
    \<and> NetmaskToCIDR (dotted (CIDRMask 24)) = Inr 24"
  using netmask_spellings [of 24] by simp

text \<open>C27: whenever the netmask has a length and the gateway is an IPv4 address, the network
  and the broadcast address are computed, they are the gateway with its host bits cleared
  and set, and the gateway lies between them.\<close>

theorem network_broadcast_spec:
  assumes "NetmaskToCIDR s = Inr n" and "To4 (ParseIP (TrimSpace gw)) = ip" and "ip \<noteq> []"
  shows "\<exists>net bc. NetworkAddress gw s = Inr (dotted net) \<and> BroadcastAddress gw s = Inr (dotted bc)
    \<and> length net = 4 \<and> length bc = 4
    \<and> be32 net = be32 ip AND NOT (mask (32 - nat n))
    \<and> be32 bc = be32 ip OR mask (32 - nat n)
    \<and> be32 net \<le> be32 ip \<and> be32 ip \<le> be32 bc"
proof -
  have len: "length ip = 4" using assms(2,3) To4_length by blast
  note r = NetmaskToCIDR_range [OF assms(1)]
  let ?net = "IP_Mask ip (CIDRMask n)"
  let ?bc = "map (\<lambda>i. ?net ! i OR NOT (CIDRMask n ! i)) [0..<4]"
  have "be32 ?net \<le> be32 ip"
    using be32_network(2) [of ip n] len r by (simp add: word_and_le2)
  moreover have "be32 ip \<le> be32 ?bc"
    using be32_broadcast(2) [of ip n] len r by (simp add: le_word_or2)
  moreover have "NetworkAddress gw s = Inr (dotted ?net)" "BroadcastAddress gw s = Inr (dotted ?bc)"
    using NetworkAddress_CIDR [OF assms(1)] BroadcastAddress_CIDR [OF assms(1)] assms(2,3) by simp_all
  ultimately show ?thesis
    using be32_network [of ip n] be32_broadcast [of ip n] len r
    by (intro exI [of _ ?net] exI [of _ ?bc]) simp
qed

theorem network_broadcast_spec_witness:
  "\<exists>net bc. NetworkAddress ''192.168.1.1'' ''255.255.254.0'' = Inr (dotted net)
    \<and> BroadcastAddress ''192.168.1.1'' ''255.255.254.0'' = Inr (dotted bc)
    \<and> length net = 4 \<and> length bc = 4
    \<and> be32 net = be32 [192, 168, 1, 1] AND NOT (mask 9)
    \<and> be32 bc = be32 [192, 168, 1, 1] OR mask 9
    \<and> be32 net \<le> be32 [192, 168, 1, 1] \<and> be32 [192, 168, 1, 1] \<le> be32 bc"
proof -
  have m: "NetmaskToCIDR ''255.255.254.0'' = Inr 23" by code_simp
  have g: "To4 (ParseIP (TrimSpace ''192.168.1.1'')) = [192, 168, 1, 1]" by code_simp
  from network_broadcast_spec [OF m g] show ?thesis by simp
qed

text \<open>the network and the broadcast address fail together and with the same error, and a
  netmask that has a length is never the reason.\<close>

theorem network_broadcast_errors:
  "(NetworkAddress gw s = Inl e \<longleftrightarrow> BroadcastAddress gw s = Inl e)
    \<and> (NetworkAddress gw s = Inl e \<and> NetmaskToCIDR s = Inr n \<longrightarrow> e = InvalidGateway)"
proof
  show "NetworkAddress gw s = Inl e \<longleftrightarrow> BroadcastAddress gw s = Inl e"
    by (auto simp: NetworkAddress_def BroadcastAddress_def Let_def split: option.splits)
  show "NetworkAddress gw s = Inl e \<and> NetmaskToCIDR s = Inr n \<longrightarrow> e = InvalidGateway"
  proof (cases "To4 (ParseIP (TrimSpace gw)) = []")
    case True
    then show ?thesis by (auto simp: NetworkAddress_def)
  next
    case False
    then show ?thesis using NetworkAddress_CIDR [of s n] by auto
  qed
qed

theorem network_broadcast_errors_witness:
  "NetworkAddress ''fe80::1'' ''/24'' = Inl InvalidGateway
    \<and> BroadcastAddress ''fe80::1'' ''/24'' = Inl InvalidGateway"
proof -
  have "NetworkAddress ''fe80::1'' ''/24'' = Inl InvalidGateway" by code_simp
  with network_broadcast_errors [of "''fe80::1''" "''/24''"] show ?thesis by blast
qed

end
