(* ===== verification/Model_Types.thy ===== *)
theory Model_Types
  imports Go_Strings
begin

section \<open>The stored records: internal/model\<close>

text \<open>
  The rows go-via keeps in its database: hosts, groups, images, users, and the nullable
  group reference of a host. Go embeds the form a client may write in the stored struct; the
  records here are flat and carry a prefix in place of the struct's name. The timestamps
  and the DHCP bookkeeping columns that no code of the program reads or writes
  (\<^verbatim>\<open>CreatedAt\<close>, \<^verbatim>\<open>FirstSeen\<close> and the like) are left out.
\<close>

subsection \<open>The nullable group reference\<close>

record NullInt32 =
  Int32 :: "32 word"
  Valid :: bool

definition MarshalJSON :: "NullInt32 \<Rightarrow> string" where
  "MarshalJSON r = (if Valid r then Itoa (sint (Int32 r)) else ''null'')"

datatype num_error = NumError string

text \<open>\<^verbatim>\<open>UnmarshalJSON\<close> writes into its receiver: the result is the error, if any, and the
  receiver afterwards.\<close>

definition UnmarshalJSON :: "NullInt32 \<Rightarrow> string \<Rightarrow> num_error option \<times> NullInt32" where
  "UnmarshalJSON ns txt =
     (let ns = ns\<lparr>Valid := True\<rparr> in
      if txt = ''null'' then (None, ns\<lparr>Valid := False\<rparr>)
      else
        (case ParseInt 32 txt of
           None \<Rightarrow> (Some (NumError txt), ns\<lparr>Valid := False\<rparr>)
         | Some i \<Rightarrow> (None, ns\<lparr>Int32 := of_int i\<rparr>)))"

subsection \<open>Rows\<close>

record group =
  g_ID :: int
  g_Name :: string
  g_DNS :: string
  g_NTP :: string
  g_Netmask :: string
  g_Gateway :: string
  g_Device :: string
  g_ImageID :: int
  g_Ks :: string
  g_Syslog :: string
  g_Vlan :: string
  g_CallbackURL :: string
  g_BootDisk :: string
  g_Options :: string
  g_BootMethod :: string
  g_Password :: string

definition zero_group :: group where
  "zero_group =
     \<lparr>g_ID = 0, g_Name = [], g_DNS = [], g_NTP = [], g_Netmask = [], g_Gateway = [],
      g_Device = [], g_ImageID = 0, g_Ks = [], g_Syslog = [], g_Vlan = [], g_CallbackURL = [],
      g_BootDisk = [], g_Options = [], g_BootMethod = [], g_Password = []\<rparr>"

record host =
  h_ID :: int
  h_Group :: group
  h_IP :: string
  h_Mac :: string
  h_Hostname :: string
  h_Domain :: string
  h_Reimage :: bool
  h_GroupID :: NullInt32
  h_Progress :: int
  h_Progresstext :: string
  h_Ks :: string

definition zero_host :: host where
  "zero_host =
     \<lparr>h_ID = 0, h_Group = zero_group, h_IP = [], h_Mac = [], h_Hostname = [], h_Domain = [],
      h_Reimage = False, h_GroupID = \<lparr>Int32 = 0, Valid = False\<rparr>, h_Progress = 0,
      h_Progresstext = [], h_Ks = []\<rparr>"

record image =
  i_ID :: int
  i_ISOImage :: string
  i_Path :: string
  i_Size :: int
  i_Hash :: string
  i_Description :: string

definition zero_image :: image where
  "zero_image = \<lparr>i_ID = 0, i_ISOImage = [], i_Path = [], i_Size = 0, i_Hash = [], i_Description = []\<rparr>"

record user =
  u_ID :: int
  u_Username :: string
  u_Email :: string
  u_Comment :: string
  u_Password :: string
  u_MustChangePassword :: bool

definition zero_user :: user where
  "zero_user =
     \<lparr>u_ID = 0, u_Username = [], u_Email = [], u_Comment = [], u_Password = [],
      u_MustChangePassword = False\<rparr>"

record device_class_form =
  dc_Name :: string
  dc_VendorClass :: string

record device_class = device_class_form +
  dc_ID :: int

text \<open>What a query of the database returns besides rows.\<close>

datatype db_error = ErrRecordNotFound | DBError string

subsection \<open>Facts\<close>

lemma sint_fits: "int_fits 32 (sint (w :: 32 word))"
  using sint_range_size [of w] by (simp add: int_fits_def word_size)

interpretation group_ref: codec MarshalJSON
  "\<lambda>t. case UnmarshalJSON \<lparr>Int32 = 0, Valid = False\<rparr> t of (None, r) \<Rightarrow> Some r | _ \<Rightarrow> None"
  "\<lambda>r. Valid r \<or> Int32 r = 0"
proof unfold_locales
  fix r :: NullInt32
  assume "Valid r \<or> Int32 r = 0"
  moreover have "Itoa i \<noteq> ''null''" for i
    using nat_digits_no_sep [of "CHR ''n''" "nat i"]
    by (cases "nat_digits (nat i)") (auto simp: Itoa_def)
  ultimately show "(case UnmarshalJSON \<lparr>Int32 = 0, Valid = False\<rparr> (MarshalJSON r) of
      (None, r) \<Rightarrow> Some r | _ \<Rightarrow> None) = Some r"
    by (auto simp: MarshalJSON_def UnmarshalJSON_def ParseInt_Itoa sint_fits)
qed

lemma MarshalJSON_not_null: "Valid r \<Longrightarrow> MarshalJSON r \<noteq> ''null''"
  using nat_digits_no_sep [of "CHR ''n''" "nat (sint (Int32 r))"]
  by (cases "nat_digits (nat (sint (Int32 r)))") (auto simp: MarshalJSON_def Itoa_def)

subsection \<open>Properties\<close>

text \<open>reading back what was written restores the reference over any previous value: whether
  it is set, and its number when it is.\<close>

theorem null_int_roundtrip:
  "\<exists>r'. UnmarshalJSON old (MarshalJSON r) = (None, r') \<and> Valid r' = Valid r
     \<and> Int32 r' = (if Valid r then Int32 r else Int32 old)"
  using MarshalJSON_not_null [of r]
  by (auto simp: UnmarshalJSON_def MarshalJSON_def ParseInt_Itoa sint_fits)

text \<open>a text that is neither \<^verbatim>\<open>null\<close> nor a number of 32 bits is an error, and an error
  never leaves the reference marked as set.\<close>

theorem null_int_error:
  "case UnmarshalJSON ns txt of
     (None, r) \<Rightarrow> (txt = ''null'' \<and> \<not> Valid r)
       \<or> (Valid r \<and> ParseInt 32 txt = Some (sint (Int32 r)))
   | (Some e, r) \<Rightarrow> txt \<noteq> ''null'' \<and> ParseInt 32 txt = None \<and> \<not> Valid r \<and> Int32 r = Int32 ns"
  by (auto simp: UnmarshalJSON_def Let_def ParseInt_fits sint_of_int_fits split: option.splits)

end
