(* ===== verification/Dhcp_Option.thy ===== *)
theory Dhcp_Option
  imports Netutil
begin

section \<open>Stored DHCP options: internal/model/option.go\<close>

text \<open>
  An option an operator has configured, its precedence (\<^verbatim>\<open>Level\<close>) and its encoding for the
  wire (\<^verbatim>\<open>ToDHCPOption\<close> and the \<^verbatim>\<open>New...Option\<close> constructors). The option codes are the
  numbers RFC 2132 and its successors assign, which the constants of the packet library
  carry. An encoded option is the pair of its code and its bytes that the library's
  \<^verbatim>\<open>NewDHCPOption\<close> is called with; how the library lays it out on the wire is not modelled.
\<close>

datatype dhcp_option = NewDHCPOption (opt_Type: byte) (opt_Data: bytes)

record option_row =
  o_ID :: int
  o_HostID :: int
  o_DeviceClassID :: int
  o_OpCode :: byte
  o_Data :: string
  o_Priority :: int

definition Level :: "option_row \<Rightarrow> int" where
  "Level o1 =
     (if o_DeviceClassID o1 > 0 then (if o_HostID o1 > 0 then 5 else 3)
      else if o_HostID o1 > 0 then 2 else 0)"

datatype opt_error =
    NotAnIP string
  | NotIPv4 string
  | BadNumber string
  | Unsupported byte

definition parseIPv4 :: "string \<Rightarrow> opt_error + bytes" where
  "parseIPv4 s =
     (let ip = ParseIP s in
      if ip = [] then Inl (NotAnIP s)
      else (let v4 = To4 ip in if v4 = [] then Inl (NotIPv4 s) else Inr v4))"

subsection \<open>Big endian fields\<close>

definition put16 :: "16 word \<Rightarrow> bytes" where
  "put16 v = [ucast (drop_bit 8 v), ucast v]"

definition put32 :: "32 word \<Rightarrow> bytes" where
  "put32 v = [ucast (drop_bit 24 v), ucast (drop_bit 16 v), ucast (drop_bit 8 v), ucast v]"

definition be16 :: "bytes \<Rightarrow> 16 word" where
  "be16 bs = foldl (\<lambda>w b. push_bit 8 w OR ucast b) 0 bs"

definition NewUint16Option :: "byte \<Rightarrow> int \<Rightarrow> dhcp_option" where
  "NewUint16Option t v = (let vi = of_int v :: 16 word in NewDHCPOption t (put16 vi))"

definition NewInt32Option :: "byte \<Rightarrow> int \<Rightarrow> dhcp_option" where
  "NewInt32Option t v = (let vi = of_int v :: 32 word in NewDHCPOption t (put32 vi))"

definition NewUint32Option :: "byte \<Rightarrow> int \<Rightarrow> dhcp_option" where
  "NewUint32Option t v = (let vi = of_int v :: 32 word in NewDHCPOption t (put32 vi))"

definition NewStringOption :: "byte \<Rightarrow> string \<Rightarrow> dhcp_option" where
  "NewStringOption t v = NewDHCPOption t (bytes_of v)"

definition NewIPOption :: "byte \<Rightarrow> bytes \<Rightarrow> dhcp_option" where
  "NewIPOption t v = NewDHCPOption t v"

subsection \<open>Encoding by code\<close>

text \<open>The cases of the \<^verbatim>\<open>switch\<close>, in its order: texts, one address, a list of addresses,
  16-bit numbers, a list of 16-bit numbers, the signed time offset, 32-bit numbers.\<close>

definition string_codes :: "byte list" where
  "string_codes = [12, 14, 15, 17, 18, 40, 47, 48, 49, 56, 119, 120, 66, 67]"

definition ip_codes :: "byte list" where
  "ip_codes = [1, 28, 32]"

definition ip_list_codes :: "byte list" where
  "ip_list_codes = [3, 4, 5, 6, 7, 8, 9, 10, 11, 16, 41, 42, 44, 45]"

definition uint16_codes :: "byte list" where
  "uint16_codes = [13, 22, 26, 57]"

definition uint16_list_codes :: "byte list" where
  "uint16_list_codes = [25]"

definition int32_codes :: "byte list" where
  "int32_codes = [2]"

definition uint32_codes :: "byte list" where
  "uint32_codes = [58, 59, 51, 24, 35, 38]"

lemmas option_codes =
  string_codes_def ip_codes_def ip_list_codes_def uint16_codes_def uint16_list_codes_def
  int32_codes_def uint32_codes_def

definition ToDHCPOption :: "option_row \<Rightarrow> opt_error + (dhcp_option \<times> bool)" where
  "ToDHCPOption o1 =
     (let code = o_OpCode o1 in
      if code \<in> set string_codes then Inr (NewStringOption code (o_Data o1), False)
      else if code \<in> set ip_codes then
        (case parseIPv4 (o_Data o1) of Inl e \<Rightarrow> Inl e | Inr ip \<Rightarrow> Inr (NewIPOption code ip, False))
      else if code \<in> set ip_list_codes then
        (case parseIPv4 (o_Data o1) of Inl e \<Rightarrow> Inl e | Inr ip \<Rightarrow> Inr (NewIPOption code ip, True))
      else if code \<in> set uint16_codes then
        (case Atoi (o_Data o1) of
           None \<Rightarrow> Inl (BadNumber (o_Data o1))
         | Some i \<Rightarrow> Inr (NewUint16Option code i, False))
      else if code \<in> set uint16_list_codes then
        (case Atoi (o_Data o1) of
           None \<Rightarrow> Inl (BadNumber (o_Data o1))
         | Some i \<Rightarrow> Inr (NewUint16Option code i, True))
      else if code \<in> set int32_codes then
        (case Atoi (o_Data o1) of
           None \<Rightarrow> Inl (BadNumber (o_Data o1))
         | Some i \<Rightarrow> Inr (NewInt32Option code i, False))
      else if code \<in> set uint32_codes then
        (case Atoi (o_Data o1) of
           None \<Rightarrow> Inl (BadNumber (o_Data o1))
         | Some i \<Rightarrow> Inr (NewUint32Option code i, False))
      else Inl (Unsupported code))"

subsection \<open>Facts\<close>

lemma be32_put32 [wire]: "be32 (put32 v) = v"
proof (rule bit_word_eqI)
  fix n
  assume "n < LENGTH(32)"
  then show "bit (be32 (put32 v)) n = bit v n"
    by (auto simp: put32_def bit_be32 bit_simps)
qed

lemma be16_put16 [wire]: "be16 (put16 v) = v"
proof (rule bit_word_eqI)
  fix n
  assume n: "n < LENGTH(16)"
  then show "bit (be16 (put16 v)) n = bit v n"
    by (cases "n < 8") (auto simp: put16_def be16_def bit_simps)
qed

lemma put_length [wire]: "length (put16 v) = 2" "length (put32 w) = 4"
  by (simp_all add: put16_def put32_def)

interpretation u16: codec "\<lambda>i. put16 (of_int i)" "\<lambda>bs. Some (uint (be16 bs))" "\<lambda>i. 0 \<le> i \<and> i < 2 ^ 16"
  by unfold_locales (simp add: wire uint_word_of_int)

interpretation u32: codec "\<lambda>i. put32 (of_int i)" "\<lambda>bs. Some (uint (be32 bs))" "\<lambda>i. 0 \<le> i \<and> i < 2 ^ 32"
  by unfold_locales (simp add: wire uint_word_of_int)

interpretation i32: codec "\<lambda>i. put32 (of_int i)" "\<lambda>bs. Some (sint (be32 bs))" "int_fits 32"
  by unfold_locales (simp add: wire sint_of_int_fits)

lemma parseIPv4_Inr: "parseIPv4 s = Inr ip \<Longrightarrow> length ip = 4 \<and> ip = To4 (ParseIP s)"
  using To4_length [of "ParseIP s"] by (auto simp: parseIPv4_def Let_def split: if_splits)

lemma parseIPv4_dotted: "length ip = 4 \<Longrightarrow> parseIPv4 (dotted ip) = Inr ip"
  using To4_ParseIP_dotted [of ip]
  by (cases "ParseIP (dotted ip) = []") (auto simp: parseIPv4_def Let_def To4_def [of "[]"])

text \<open>The width of the data each group of codes stands for; \<open>None\<close> for a text.\<close>

definition code_width :: "byte \<Rightarrow> nat option" where
  "code_width c =
     (if c \<in> set string_codes then None
      else if c \<in> set (uint16_codes @ uint16_list_codes) then Some 2 else Some 4)"

lemma option_codes_disjoint:
  "distinct (string_codes @ ip_codes @ ip_list_codes @ uint16_codes @ uint16_list_codes
     @ int32_codes @ uint32_codes)"
  by (simp add: option_codes)

lemma ToDHCPOption_number:
  assumes "Atoi (o_Data o1) = Some i"
  shows "o_OpCode o1 \<in> set (uint16_codes @ uint16_list_codes) \<Longrightarrow>
      ToDHCPOption o1 = Inr (NewUint16Option (o_OpCode o1) i, o_OpCode o1 \<in> set uint16_list_codes)"
    and "o_OpCode o1 \<in> set int32_codes \<Longrightarrow>
      ToDHCPOption o1 = Inr (NewInt32Option (o_OpCode o1) i, False)"
    and "o_OpCode o1 \<in> set uint32_codes \<Longrightarrow>
      ToDHCPOption o1 = Inr (NewUint32Option (o_OpCode o1) i, False)"
  using option_codes_disjoint assms unfolding ToDHCPOption_def Let_def
  by (auto simp del: set_simps)

lemma ToDHCPOption_address:
  assumes "o_OpCode o1 \<in> set (ip_codes @ ip_list_codes)"
  shows "ToDHCPOption o1 =
    (case parseIPv4 (o_Data o1) of
       Inl e \<Rightarrow> Inl e
     | Inr ip \<Rightarrow> Inr (NewIPOption (o_OpCode o1) ip, o_OpCode o1 \<in> set ip_list_codes))"
  using option_codes_disjoint assms unfolding ToDHCPOption_def Let_def
  by (auto split: sum.splits)

subsection \<open>Properties\<close>

text \<open>an option that encodes keeps its code, is marked for merging exactly when its code
  takes a list, and carries as many bytes as the code prescribes: the text itself, four for
  an address or a 32-bit number, two for a 16-bit one.\<close>

theorem option_wellformed:
  assumes "ToDHCPOption o1 = Inr (d, merge)"
  shows "opt_Type d = o_OpCode o1
    \<and> (merge \<longleftrightarrow> o_OpCode o1 \<in> set (ip_list_codes @ uint16_list_codes))
    \<and> length (opt_Data d) =
        (case code_width (o_OpCode o1) of None \<Rightarrow> length (o_Data o1) | Some k \<Rightarrow> k)"
  using assms option_codes_disjoint
  by (auto simp: ToDHCPOption_def Let_def code_width_def NewStringOption_def NewIPOption_def
      NewUint16Option_def NewInt32Option_def NewUint32Option_def bytes_of_def wire
      split: if_splits sum.splits option.splits dest: parseIPv4_Inr)

theorem option_wellformed_witness:
  "\<exists>d. opt_Type d = 3 \<and> (True \<longleftrightarrow> (3::byte) \<in> set (ip_list_codes @ uint16_list_codes))
    \<and> length (opt_Data d) = 4"
proof -
  let ?o = "\<lparr>o_ID = 1, o_HostID = 0, o_DeviceClassID = 0, o_OpCode = 3,
    o_Data = ''10.0.0.1'', o_Priority = 1\<rparr>"
  have "ToDHCPOption ?o = Inr (NewDHCPOption 3 [10, 0, 0, 1], True)" by code_simp
  from option_wellformed [OF this] show ?thesis
    by (intro exI [of _ "NewDHCPOption 3 [10, 0, 0, 1]"]) (simp add: code_width_def option_codes)
qed

text \<open>a decimal number is encoded as that number modulo the width of its code, so as the
  number itself when it fits; the time offset is two's complement and keeps its sign.\<close>

theorem option_numbers:
  assumes "int_fits 64 i" and "o_Data o1 = Itoa i"
  shows "(o_OpCode o1 \<in> set (uint16_codes @ uint16_list_codes) \<longrightarrow>
      (\<exists>d m. ToDHCPOption o1 = Inr (d, m) \<and> uint (be16 (opt_Data d)) = i mod 2 ^ 16))
    \<and> (o_OpCode o1 \<in> set uint32_codes \<longrightarrow>
      (\<exists>d. ToDHCPOption o1 = Inr (d, False) \<and> uint (be32 (opt_Data d)) = i mod 2 ^ 32))
    \<and> (o_OpCode o1 \<in> set int32_codes \<and> int_fits 32 i \<longrightarrow>
      (\<exists>d. ToDHCPOption o1 = Inr (d, False) \<and> sint (be32 (opt_Data d)) = i))"
proof -
  have "Atoi (o_Data o1) = Some i" using assms by (simp add: dec64.dec_enc)
  from ToDHCPOption_number [OF this] show ?thesis
    by (simp add: NewUint16Option_def NewInt32Option_def NewUint32Option_def wire
        uint_word_of_int sint_of_int_fits)
qed

theorem option_numbers_witness:
  "\<exists>d. ToDHCPOption \<lparr>o_ID = 1, o_HostID = 0, o_DeviceClassID = 0, o_OpCode = 2,
      o_Data = Itoa (- 18000), o_Priority = 1\<rparr> = Inr (d, False) \<and> sint (be32 (opt_Data d)) = - 18000"
proof -
  have "int_fits 64 (- 18000)" by (simp add: int_fits_def)
  from option_numbers [OF this, of "\<lparr>o_ID = 1, o_HostID = 0, o_DeviceClassID = 0, o_OpCode = 2,
      o_Data = Itoa (- 18000), o_Priority = 1\<rparr>"]
  show ?thesis by (simp add: int32_codes_def int_fits_def)
qed

text \<open>an address option carries the four bytes of a dotted address in order; a text that
  is no IPv4 address is an error, never an option of another length.\<close>

theorem option_addresses:
  assumes "o_OpCode o1 \<in> set (ip_codes @ ip_list_codes)"
  shows "(length ip = 4 \<and> o_Data o1 = dotted ip \<longrightarrow>
      (\<exists>m. ToDHCPOption o1 = Inr (NewDHCPOption (o_OpCode o1) ip, m)))
    \<and> (To4 (ParseIP (o_Data o1)) = [] \<longrightarrow> (\<exists>e. ToDHCPOption o1 = Inl e))"
  using ToDHCPOption_address [OF assms] parseIPv4_dotted [of ip] parseIPv4_Inr [of "o_Data o1"]
  by (auto simp: NewIPOption_def split: sum.splits)

theorem option_addresses_witness:
  "(\<exists>m. ToDHCPOption \<lparr>o_ID = 1, o_HostID = 0, o_DeviceClassID = 0, o_OpCode = 1,
      o_Data = dotted [255, 255, 254, 0], o_Priority = 1\<rparr>
      = Inr (NewDHCPOption 1 [255, 255, 254, 0], m))
   \<and> (\<exists>e. ToDHCPOption \<lparr>o_ID = 1, o_HostID = 0, o_DeviceClassID = 0, o_OpCode = 1,
      o_Data = ''not-an-ip'', o_Priority = 1\<rparr> = Inl e)"
proof -
  have c: "(1::byte) \<in> set (ip_codes @ ip_list_codes)" by (simp add: ip_codes_def)
  have "To4 (ParseIP ''not-an-ip'') = []" by code_simp
  with c option_addresses [of "\<lparr>o_ID = 1, o_HostID = 0, o_DeviceClassID = 0, o_OpCode = 1,
      o_Data = dotted [255, 255, 254, 0], o_Priority = 1\<rparr>" "[255, 255, 254, 0]"]
    option_addresses [of "\<lparr>o_ID = 1, o_HostID = 0, o_DeviceClassID = 0, o_OpCode = 1,
      o_Data = ''not-an-ip'', o_Priority = 1\<rparr>" "[]"]
  show ?thesis by simp
qed

end
