(* ===== verification/Go_Prefix.thy ===== *)
theory Go_Prefix
  imports Go_Net
begin

section \<open>Go's hardware addresses and address prefixes\<close>

text \<open>
  \<^verbatim>\<open>net.ParseMAC\<close> and \<^verbatim>\<open>HardwareAddr.String\<close>, and \<^verbatim>\<open>netip.ParsePrefix\<close> with
  \<^verbatim>\<open>Prefix.Contains\<close>. A hardware address is the list of its bytes; a prefix is an address and
  its number of bits.
\<close>

subsection \<open>Hardware addresses\<close>

text \<open>\<^verbatim>\<open>HardwareAddr.String\<close>.\<close>

definition HW_String :: "bytes \<Rightarrow> string" where
  "HW_String a = Join (map hex_byte a) '':''"

text \<open>\<^verbatim>\<open>xtoi2\<close>: two hexadecimal digits, and after them the end of the text or the separator.\<close>

definition xtoi2 :: "string \<Rightarrow> char option \<Rightarrow> byte option" where
  "xtoi2 s e =
     (case s of
        a # b # r \<Rightarrow>
          if r \<noteq> [] \<and> Some (hd r) \<noteq> e then None
          else
            (case (hex_val a, hex_val b) of
               (Some x, Some y) \<Rightarrow> Some (of_nat (16 * x + y))
             | _ \<Rightarrow> None)
      | _ \<Rightarrow> None)"

fun mac_bytes :: "nat \<Rightarrow> char \<Rightarrow> string \<Rightarrow> bytes option" where
  "mac_bytes 0 e s = Some []"
| "mac_bytes (Suc n) e s =
     (case xtoi2 s (Some e) of
        None \<Rightarrow> None
      | Some b \<Rightarrow> map_option ((#) b) (mac_bytes n e (drop 3 s)))"

fun mac_pairs :: "nat \<Rightarrow> char \<Rightarrow> string \<Rightarrow> bytes option" where
  "mac_pairs 0 e s = Some []"
| "mac_pairs (Suc n) e s =
     (case xtoi2 (take 2 s) None of
        None \<Rightarrow> None
      | Some a \<Rightarrow>
          (case xtoi2 (drop 2 s) (Some e) of
             None \<Rightarrow> None
           | Some b \<Rightarrow> map_option (\<lambda>r. a # b # r) (mac_pairs n e (drop 5 s))))"

definition mac_length :: "nat \<Rightarrow> bool" where
  "mac_length n \<longleftrightarrow> n = 6 \<or> n = 8 \<or> n = 20"

definition ParseMAC :: "string \<Rightarrow> bytes option" where
  "ParseMAC s =
     (if length s < 14 then None
      else if s ! 2 = CHR '':'' \<or> s ! 2 = CHR ''-'' then
        (if (length s + 1) mod 3 \<noteq> 0 \<or> \<not> mac_length ((length s + 1) div 3) then None
         else mac_bytes ((length s + 1) div 3) (s ! 2) s)
      else if s ! 4 = CHR ''.'' then
        (if (length s + 1) mod 5 \<noteq> 0 \<or> \<not> mac_length (2 * (length s + 1) div 5) then None
         else mac_pairs (2 * (length s + 1) div 5 div 2) (s ! 4) s)
      else None)"

subsection \<open>Prefixes\<close>

definition ParsePrefix :: "string \<Rightarrow> (addr \<times> int) option" where
  "ParsePrefix s =
     (case split_last (CHR ''/'') s of
        None \<Rightarrow> None
      | Some (a, b) \<Rightarrow>
          (case ParseAddr a of
             None \<Rightarrow> None
           | Some ip \<Rightarrow>
               if (case ip of Addr4 _ \<Rightarrow> False | Addr6 _ z \<Rightarrow> z \<noteq> []) then None
               else if 1 < length b \<and> (of_char (hd b) < (49 :: nat) \<or> (57 :: nat) < of_char (hd b)) then None
               else
                 (case Atoi b of
                    None \<Rightarrow> None
                  | Some bits \<Rightarrow>
                      if bits < 0 \<or> (case ip of Addr4 _ \<Rightarrow> 32 | Addr6 _ _ \<Rightarrow> 128) < bits then None
                      else Some (ip, bits))))"

fun Prefix_Contains :: "addr \<times> int \<Rightarrow> addr \<Rightarrow> bool" where
  "Prefix_Contains (Addr4 p, bits) (Addr4 a) \<longleftrightarrow> drop_bit (32 - nat bits) (be32 a XOR be32 p) = 0"
| "Prefix_Contains (Addr6 p _, bits) (Addr6 a z) \<longleftrightarrow>
     z = [] \<and> list_all (\<lambda>b. b = 0) (map2 (AND) (map2 (XOR) a p) (CIDRMask_bytes 16 (nat bits)))"
| "Prefix_Contains _ _ \<longleftrightarrow> False"

subsection \<open>Facts\<close>

lemma hex_val_char: "hex_val (hex_char (unat (b :: byte) div 16)) = Some (unat b div 16)"
  "hex_val (hex_char (unat b mod 16)) = Some (unat b mod 16)"
  using unat_byte [of b] by (simp_all add: hex_val_hex_char)

lemma xtoi2_hex_byte:
  assumes "r = [] \<or> Some (hd r) = e"
  shows "xtoi2 (hex_byte b @ r) e = Some b"
proof -
  have "16 * (unat b div 16) + unat b mod 16 = unat b" by simp
  then have "of_nat (16 * (unat b div 16) + unat b mod 16) = (of_nat (unat b) :: byte)" by (rule arg_cong)
  also have "\<dots> = b" by simp
  finally have "of_nat (16 * (unat b div 16) + unat b mod 16) = b" .
  then show ?thesis using assms by (simp add: xtoi2_def hex_byte_def hex_val_char)
qed

lemma length_hex_byte [simp]: "length (hex_byte b) = 2"
  by (simp add: hex_byte_def)

lemma length_joined: "bs \<noteq> [] \<Longrightarrow> length (Join (map hex_byte bs) [e]) + 1 = 3 * length bs"
proof (induction bs)
  case (Cons b bs)
  then show ?case by (cases bs) auto
qed simp

lemma mac_bytes_joined: "bs \<noteq> [] \<Longrightarrow> mac_bytes (length bs) e (Join (map hex_byte bs) [e]) = Some bs"
proof (induction bs)
  case (Cons b bs)
  show ?case
  proof (cases bs)
    case Nil
    then show ?thesis using xtoi2_hex_byte [of "[]"] by simp
  next
    case (Cons c cs)
    have "drop 3 (hex_byte b @ e # r) = r" for r by (simp add: hex_byte_def)
    then show ?thesis
      using Cons Cons.IH xtoi2_hex_byte [of "e # Join (map hex_byte bs) [e]" "Some e" b]
      by simp
  qed
qed simp

lemma nth_joined: "bs = a # b # r \<Longrightarrow> Join (map hex_byte bs) [e] ! 2 = e"
  by (simp add: hex_byte_def)

text \<open>A hardware address is read from its bytes joined by colons or by dashes.\<close>

lemma ParseMAC_joined:
  assumes "mac_length (length bs)" and "e = CHR '':'' \<or> e = CHR ''-''"
  shows "ParseMAC (Join (map hex_byte bs) [e]) = Some bs"
proof -
  obtain a b r where bs: "bs = a # b # r"
    using assms(1) by (auto simp: mac_length_def numeral_eq_Suc length_Suc_conv)
  then have e: "Join (map hex_byte bs) [e] ! 2 = e" by (rule nth_joined)
  have l: "length (Join (map hex_byte bs) [e]) + 1 = 3 * length bs" using bs length_joined by blast
  then have "\<not> length (Join (map hex_byte bs) [e]) < 14" using assms(1) by (auto simp: mac_length_def)
  then show ?thesis
    unfolding ParseMAC_def e l using assms mac_bytes_joined [of bs e] bs by simp
qed

interpretation hardware_address: codec HW_String ParseMAC "\<lambda>bs. mac_length (length bs)"
  by unfold_locales (simp add: HW_String_def ParseMAC_joined)

subsection \<open>The prefix of a network\<close>

lemma prefix_lengths:
  "list_all (\<lambda>n. let b = Itoa n in CHR ''/'' \<notin> set b \<and> Atoi b = Some n
     \<and> \<not> (1 < length b \<and> (of_char (hd b) < (49 :: nat) \<or> (57 :: nat) < of_char (hd b)))) [0..32]"
  by code_simp

lemma ParsePrefix_dotted:
  assumes "length ip = 4" and "0 \<le> n" and "n \<le> 32"
  shows "ParsePrefix (dotted ip @ ''/'' @ Itoa n) = Some (Addr4 ip, n)"
proof -
  obtain a b c d where ip: "ip = [a, b, c, d]" using length_4_cases [OF assms(1)] by blast
  have p: "CHR ''/'' \<notin> set (Itoa n)" "Atoi (Itoa n) = Some n"
    "\<not> (1 < length (Itoa n) \<and> (of_char (hd (Itoa n)) < (49 :: nat) \<or> (57 :: nat) < of_char (hd (Itoa n))))"
    using prefix_lengths assms(2,3) by (auto simp: list_all_iff Let_def)
  have "split_last (CHR ''/'') (dotted ip @ ''/'' @ Itoa n) = Some (dotted ip, Itoa n)"
    using p(1) by (simp add: split_last_Some)
  then show ?thesis using p(2,3) assms(2,3) by (simp add: ParsePrefix_def ip ParseAddr_dotted)
qed

lemma Contains_v4:
  "Prefix_Contains (Addr4 p, n) (Addr4 a)
     \<longleftrightarrow> be32 a AND NOT (mask (32 - nat n)) = be32 p AND NOT (mask (32 - nat n))"
proof -
  have "drop_bit k (x XOR y) = 0 \<longleftrightarrow> x AND NOT (mask k) = y AND NOT (mask k)" for k and x y :: "32 word"
  proof
    assume "drop_bit k (x XOR y) = 0"
    then have "bit (drop_bit k (x XOR y)) j = bit (0 :: 32 word) j" for j by (rule arg_cong)
    then have z: "\<not> bit (x XOR y) (k + j)" for j unfolding bit_drop_bit_eq by simp
    show "x AND NOT (mask k) = y AND NOT (mask k)"
    proof (rule bit_word_eqI)
      fix i :: nat
      show "bit (x AND NOT (mask k)) i = bit (y AND NOT (mask k)) i"
        using z [of "i - k"] by (cases "i < k") (auto simp: bit_simps)
    qed
  next
    assume eq: "x AND NOT (mask k) = y AND NOT (mask k)"
    show "drop_bit k (x XOR y) = 0"
    proof (rule bit_word_eqI)
      fix i :: nat assume "i < LENGTH(32)"
      have "bit (x AND NOT (mask k)) (k + i) = bit (y AND NOT (mask k)) (k + i)" using eq by simp
      then show "bit (drop_bit k (x XOR y)) i = bit (0 :: 32 word) i"
        using bit_imp_le_length [of x "k + i"] bit_imp_le_length [of y "k + i"]
        by (auto simp: bit_simps)
    qed
  qed
  then show ?thesis by simp
qed

lemma ParseAddr_length: "ParseAddr s = Some (Addr4 a) \<Longrightarrow> length a = 4"
  by (auto simp: ParseAddr_def split: option.splits if_splits prod.splits dest: parse_v4_length)

text \<open>The text of a hardware address is in lower case already.\<close>

lemma HW_String_lower:
  shows "ToLower u (HW_String a) = HW_String a" and map_lower_HW_String: "map lower_char (HW_String a) = HW_String a"
proof -
  have hex: "of_char (hex_char n) < (128 :: nat) \<and> lower_char (hex_char n) = hex_char n" if "n < 16" for n
    using that by (auto simp: hex_char_def lower_char_def Let_def)
  have "of_char c < (128 :: nat) \<and> lower_char c = c" if "c \<in> set (hex_byte b)" for c b
    using that unat_byte [of b] by (auto simp: hex_byte_def intro!: hex [THEN conjunct1] hex [THEN conjunct2])
  moreover have "of_char (CHR '':'') < (128 :: nat) \<and> lower_char (CHR '':'') = CHR '':''"
    by (simp add: lower_char_def)
  moreover have "set (Join fs d) \<subseteq> set d \<union> (\<Union>f \<in> set fs. set f)" for fs d
    by (induction fs d rule: Join.induct) auto
  ultimately have "of_char c < (128 :: nat) \<and> lower_char c = c" if "c \<in> set (HW_String a)" for c
    using that unfolding HW_String_def by fastforce
  then show "ToLower u (HW_String a) = HW_String a" "map lower_char (HW_String a) = HW_String a"
    by (simp_all add: ToLower_def is_ascii_def list_all_iff map_idI)
qed

lemma mac_bytes_length: "mac_bytes n e s = Some bs \<Longrightarrow> length bs = n"
  by (induction n e s arbitrary: bs rule: mac_bytes.induct) (auto split: option.splits)

lemma mac_pairs_length: "mac_pairs n e s = Some bs \<Longrightarrow> length bs = 2 * n"
  by (induction n e s arbitrary: bs rule: mac_pairs.induct) (auto split: option.splits)

lemma ParseMAC_length: "ParseMAC s = Some bs \<Longrightarrow> mac_length (length bs)"
  by (auto simp: ParseMAC_def mac_length_def split: if_splits dest: mac_bytes_length mac_pairs_length)

end
