(* ===== verification/Dhcp.thy ===== *)
theory Dhcp
  imports Dhcp_Option Model_Types Go_Prefix "HOL-Library.Multiset"
begin

section \<open>The DHCP server: internal/dhcp\<close>

text \<open>
  The packet handlers of internal/dhcp/dhcpd.go, from a decoded frame to the layers of the
  reply. The database is reached through the two queries the code makes, and Go's
  unspecified order of iteration over a map is a function of its keys; both are fields of
  an environment record. A slice expression or an index out of range is the result
  \<open>Panic\<close>. Logging is left out, and so is the vendor class lookup of \<^verbatim>\<open>AddOptions\<close>, whose
  result nothing reads. The packet library's serialisation is not modelled: a reply is the
  value handed to it.
\<close>

subsection \<open>Packets\<close>

text \<open>The fields of the packet library's layers that the code reads or sets.\<close>

record dhcpv4 =
  Operation :: byte
  HardwareType :: byte
  Xid :: "32 word"
  Flags :: "16 word"
  ClientIP :: bytes
  YourClientIP :: bytes
  NextServerIP :: bytes
  RelayAgentIP :: bytes
  ClientHWAddr :: bytes
  Options :: "dhcp_option list"

text \<open>Message types, operations and option codes, as RFC 2131 and 2132 number them.\<close>

abbreviation (input) Unspecified :: byte where "Unspecified \<equiv> 0"
abbreviation (input) Discover :: byte where "Discover \<equiv> 1"
abbreviation (input) Offer :: byte where "Offer \<equiv> 2"
abbreviation (input) Request :: byte where "Request \<equiv> 3"
abbreviation (input) Decline :: byte where "Decline \<equiv> 4"
abbreviation (input) Ack :: byte where "Ack \<equiv> 5"
abbreviation (input) Nak :: byte where "Nak \<equiv> 6"
abbreviation (input) Release :: byte where "Release \<equiv> 7"
abbreviation (input) Inform :: byte where "Inform \<equiv> 8"

abbreviation (input) OptSubnetMask :: byte where "OptSubnetMask \<equiv> 1"
abbreviation (input) OptRouter :: byte where "OptRouter \<equiv> 3"
abbreviation (input) OptHostname :: byte where "OptHostname \<equiv> 12"
abbreviation (input) OptBroadcastAddr :: byte where "OptBroadcastAddr \<equiv> 28"
abbreviation (input) OptRequestIP :: byte where "OptRequestIP \<equiv> 50"
abbreviation (input) OptLeaseTime :: byte where "OptLeaseTime \<equiv> 51"
abbreviation (input) OptMessageType :: byte where "OptMessageType \<equiv> 53"
abbreviation (input) OptServerID :: byte where "OptServerID \<equiv> 54"
abbreviation (input) OptParamsRequest :: byte where "OptParamsRequest \<equiv> 55"
abbreviation (input) OptT1 :: byte where "OptT1 \<equiv> 58"
abbreviation (input) OptT2 :: byte where "OptT2 \<equiv> 59"
abbreviation (input) OptClientID :: byte where "OptClientID \<equiv> 61"
abbreviation (input) OptBootfile :: byte where "OptBootfile \<equiv> 67"
abbreviation (input) OptAgentInfo :: byte where "OptAgentInfo \<equiv> 82"
abbreviation (input) OptClasslessStaticRoute :: byte where "OptClasslessStaticRoute \<equiv> 121"

datatype dhcp_error =
    IgnoredType byte
  | AddressConflict
  | UnknownType
  | UnknownMac
  | NotFlagged string
  | DatabaseError db_error
  | InvalidHostIP int string
  | Panic

record dhcp_env =
  find_by_mac :: "string \<Rightarrow> db_error + host"
  load_host :: "int \<Rightarrow> db_error + host"
  unicode_lower :: "string \<Rightarrow> string"
  map_order :: "byte list \<Rightarrow> byte list"

definition findHostByMAC :: "dhcp_env \<Rightarrow> string \<Rightarrow> dhcp_error + host option" where
  "findHostByMAC env mac =
     (case find_by_mac env (ToLower (unicode_lower env) mac) of
        Inl ErrRecordNotFound \<Rightarrow> Inr None
      | Inl e \<Rightarrow> Inl (DatabaseError e)
      | Inr h \<Rightarrow> if h_Reimage h then Inr (Some h) else Inl (NotFlagged (h_Hostname h)))"

subsection \<open>Options of a reply\<close>

definition groupCIDR :: "group \<Rightarrow> net_err + int" where
  "groupCIDR g = NetmaskToCIDR (g_Netmask g)"

definition groupGateway :: "group \<Rightarrow> opt_error + bytes" where
  "groupGateway g =
     (let ip = ParseIP (TrimSpace (g_Gateway g)) in
      if ip = [] then Inl (NotAnIP (g_Gateway g))
      else (let v4 = To4 ip in if v4 = [] then Inl (NotIPv4 (g_Gateway g)) else Inr v4))"

text \<open>The grouping of configured options by code.\<close>

definition add_by_opcode :: "(byte \<rightharpoonup> option_row list) \<Rightarrow> option_row \<Rightarrow> (byte \<rightharpoonup> option_row list)" where
  "add_by_opcode m v =
     (let old = (case m (o_OpCode v) of None \<Rightarrow> [] | Some vs \<Rightarrow> vs) in
      if old = [] \<or> Level v \<ge> Level (hd old) then m(o_OpCode v \<mapsto> old @ [v])
      else m(o_OpCode v \<mapsto> old))"

definition byOpCode :: "option_row list \<Rightarrow> (byte \<rightharpoonup> option_row list)" where
  "byOpCode options = foldl add_by_opcode Map.empty options"

definition encode_options :: "option_row list \<Rightarrow> dhcp_option list" where
  "encode_options vs =
     List.map_filter (\<lambda>v. case ToDHCPOption v of Inl e \<Rightarrow> None | Inr (d, merge) \<Rightarrow> Some d) vs"

definition defaultOptions :: "byte list" where
  "defaultOptions = [OptT1, OptT2, OptLeaseTime, OptServerID, OptBootfile]"

text \<open>The keys of \<^verbatim>\<open>requestedOptions\<close>: what the client listed, and the defaults.\<close>

definition requestedOptions :: "dhcpv4 \<Rightarrow> byte list" where
  "requestedOptions req =
     remdups (concat (map opt_Data (filter (\<lambda>v. opt_Type v = OptParamsRequest) (Options req)))
              @ defaultOptions)"

definition bootfile :: "string \<Rightarrow> bytes \<Rightarrow> string" where
  "bootfile bootmethod ip =
     (if bootmethod = ''pxe'' then ''mboot.efi''
      else if bootmethod = ''https-dhcp'' then ''https://'' @ dotted (To4 ip) @ ''/esx/mboot.efi''
      else if bootmethod = ''http-dhcp'' then ''http://'' @ dotted (To4 ip) @ ''/esx/mboot.efi''
      else [])"

definition leaseTime :: int where
  "leaseTime = 3600"

text \<open>One case of the \<^verbatim>\<open>switch\<close> that makes up a missing option. The renewal and rebinding
  times are the floating point products with 0.5 and 0.875, both exact.\<close>

definition missing_option :: "group \<Rightarrow> bytes \<Rightarrow> byte \<Rightarrow> dhcp_option option" where
  "missing_option g ip code =
     (if code = OptBootfile then
        (let b = bootfile (g_BootMethod g) ip
         in if b = [] then None else Some (NewDHCPOption code (bytes_of b)))
      else if code = OptSubnetMask then
        (case groupCIDR g of
           Inl e \<Rightarrow> None
         | Inr cidrMask \<Rightarrow> Some (NewDHCPOption code (CIDRMask cidrMask)))
      else if code = OptClasslessStaticRoute then
        (case groupCIDR g of
           Inl e \<Rightarrow> None
         | Inr cidrMask \<Rightarrow>
             (case groupGateway g of
                Inl e \<Rightarrow> None
              | Inr gw \<Rightarrow>
                  (let dstLen = (cidrMask + 7) div 8
                   in Some (NewDHCPOption code ([of_int cidrMask] @ take (nat dstLen) gw @ gw)))))
      else if code = OptRouter then
        (case groupGateway g of Inl e \<Rightarrow> None | Inr gw \<Rightarrow> Some (NewDHCPOption code gw))
      else if code = OptBroadcastAddr then
        (case groupCIDR g of
           Inl e \<Rightarrow> None
         | Inr cidrMask \<Rightarrow>
             (case BroadcastAddress (g_Gateway g) (Itoa cidrMask) of
                Inl e \<Rightarrow> None
              | Inr bcastStr \<Rightarrow>
                  (let bcastIP = To4 (ParseIP bcastStr)
                   in if bcastIP = [] then None else Some (NewDHCPOption code bcastIP))))
      else if code = OptT1 then Some (NewUint32Option OptT1 (leaseTime div 2))
      else if code = OptT2 then Some (NewUint32Option OptT2 (leaseTime * 7 div 8))
      else if code = OptLeaseTime then Some (NewUint32Option OptLeaseTime leaseTime)
      else if code = OptServerID then Some (NewDHCPOption code ip)
      else None)"

text \<open>The body of the loop over the requested codes: the options appended so far and the
  configured options not yet sent.\<close>

definition add_requested ::
    "group \<Rightarrow> bytes \<Rightarrow> dhcp_option list \<times> (byte \<rightharpoonup> option_row list) \<Rightarrow> byte
     \<Rightarrow> dhcp_option list \<times> (byte \<rightharpoonup> option_row list)" where
  "add_requested g ip st opCode =
     (case st of (acc, m) \<Rightarrow>
        (case m opCode of
           Some options \<Rightarrow> (acc @ encode_options options, m(opCode := None))
         | None \<Rightarrow>
             (case missing_option g ip opCode of
                None \<Rightarrow> (acc, m)
              | Some d \<Rightarrow> (acc @ [d], m))))"

definition AddOptions_with ::
    "option_row list \<Rightarrow> dhcp_env \<Rightarrow> dhcpv4 \<Rightarrow> dhcpv4 \<Rightarrow> host \<Rightarrow> bytes \<Rightarrow> dhcp_error + dhcpv4" where
  "AddOptions_with options env req resp lease ip =
     (let h = (case load_host env (h_ID lease) of Inl e \<Rightarrow> zero_host | Inr h \<Rightarrow> h);
          (acc, rest) = foldl (add_requested (h_Group h) ip) (Options resp, byOpCode options)
                          (map_order env (requestedOptions req));
          left = map_order env (filter (\<lambda>c. rest c \<noteq> None) (remdups (map o_OpCode options)))
      in Inr (resp\<lparr>Options := acc @ concat (map (\<lambda>c. encode_options (the (rest c))) left)\<rparr>))"

text \<open>The list of configured options is declared and never filled.\<close>

definition AddOptions :: "dhcp_env \<Rightarrow> dhcpv4 \<Rightarrow> dhcpv4 \<Rightarrow> host \<Rightarrow> bytes \<Rightarrow> dhcp_error + dhcpv4" where
  "AddOptions env req resp lease ip = AddOptions_with [] env req resp lease ip"

subsection \<open>Discover and request\<close>

definition reply_to :: "dhcpv4 \<Rightarrow> bytes \<Rightarrow> dhcpv4" where
  "reply_to req ip =
     \<lparr>Operation = 2, HardwareType = 1, Xid = Xid req, Flags = 0, ClientIP = [],
      YourClientIP = [], NextServerIP = To4 ip, RelayAgentIP = RelayAgentIP req,
      ClientHWAddr = ClientHWAddr req, Options = []\<rparr>"

definition processDiscover :: "dhcp_env \<Rightarrow> dhcpv4 \<Rightarrow> bytes \<Rightarrow> bytes \<Rightarrow> dhcp_error + dhcpv4" where
  "processDiscover env req sourceNet ip =
     (case findHostByMAC env (HW_String (ClientHWAddr req)) of
        Inl e \<Rightarrow> Inl e
      | Inr None \<Rightarrow> Inl UnknownMac
      | Inr (Some host) \<Rightarrow>
          (let resp = (reply_to req ip)\<lparr>YourClientIP := ParseIP (h_IP host)\<rparr>;
               resp = resp\<lparr>Options := Options resp @ [NewDHCPOption OptMessageType [Offer]]\<rparr>
           in AddOptions env req resp host ip))"

definition requestedIP :: "dhcpv4 \<Rightarrow> bytes" where
  "requestedIP req =
     foldl (\<lambda>ip v. if opt_Type v = OptRequestIP then opt_Data v else ip) (ClientIP req) (Options req)"

definition processRequest :: "dhcp_env \<Rightarrow> dhcpv4 \<Rightarrow> bytes \<Rightarrow> bytes \<Rightarrow> dhcp_error + dhcpv4" where
  "processRequest env req sourceNet ip =
     (let resp = reply_to req ip in
      case findHostByMAC env (HW_String (ClientHWAddr req)) of
        Inl e \<Rightarrow> Inl e
      | Inr None \<Rightarrow> Inl UnknownMac
      | Inr (Some host) \<Rightarrow>
          (let reserved = ParseIP (h_IP host) in
           if reserved = [] then Inl (InvalidHostIP (h_ID host) (h_IP host))
           else if \<not> IP_Equal (requestedIP req) reserved then
             Inr (resp\<lparr>Options := Options resp @ [NewDHCPOption OptMessageType [Nak]]\<rparr>)
           else
             (let resp = resp\<lparr>YourClientIP := reserved\<rparr>;
                  resp = resp\<lparr>Options := Options resp @ [NewDHCPOption OptMessageType [Ack]]\<rparr>
              in AddOptions env req resp host ip)))"

definition processPacket :: "dhcp_env \<Rightarrow> byte \<Rightarrow> dhcpv4 \<Rightarrow> bytes \<Rightarrow> bytes \<Rightarrow> dhcp_error + dhcpv4" where
  "processPacket env t req sourceNet ip =
     (if t = Discover then processDiscover env req sourceNet ip
      else if t = Request then processRequest env req sourceNet ip
      else if t = Release then Inl UnknownType
      else if t = Inform then Inl (IgnoredType t)
      else if t = Decline then Inl AddressConflict
      else if t = Unspecified then Inl (IgnoredType t)
      else if t = Offer then Inl (IgnoredType t)
      else if t = Ack then Inl (IgnoredType t)
      else if t = Nak then Inl (IgnoredType t)
      else Inl UnknownType)"

subsection \<open>From a frame to the reply\<close>

text \<open>\<^verbatim>\<open>findMsgType\<close> reads the first byte of the last message type option; an option without
  data makes the index expression panic.\<close>

definition msg_type_step :: "dhcp_error + byte \<Rightarrow> dhcp_option \<Rightarrow> dhcp_error + byte" where
  "msg_type_step r v =
     (case r of
        Inl e \<Rightarrow> Inl e
      | Inr t \<Rightarrow>
          if opt_Type v = OptMessageType
          then (case opt_Data v of [] \<Rightarrow> Inl Panic | b # _ \<Rightarrow> Inr b)
          else Inr t)"

definition findMsgType :: "dhcpv4 \<Rightarrow> dhcp_error + byte" where
  "findMsgType p = foldl msg_type_step (Inr Unspecified) (Options p)"

record headers =
  eth_SrcMAC :: bytes
  eth_DstMAC :: bytes
  eth_Type :: "16 word"
  ip_SrcIP :: bytes
  ip_DstIP :: bytes
  ip_Version :: byte
  ip_TOS :: byte
  ip_TTL :: byte
  ip_Protocol :: byte
  ip_DontFragment :: bool
  udp_SrcPort :: "16 word"
  udp_DstPort :: "16 word"

definition IPv4zero :: bytes where
  "IPv4zero = v4InV6Prefix @ [0, 0, 0, 0]"

definition buildHeaders :: "bytes \<Rightarrow> bytes \<Rightarrow> bytes \<Rightarrow> bytes \<Rightarrow> headers" where
  "buildHeaders mac ip srcMAC srcIP =
     (let hd = \<lparr>eth_SrcMAC = mac, eth_DstMAC = srcMAC, eth_Type = 0x0800,
                ip_SrcIP = ip, ip_DstIP = srcIP, ip_Version = 4, ip_TOS = 0x10, ip_TTL = 128,
                ip_Protocol = 17, ip_DontFragment = True,
                udp_SrcPort = 67, udp_DstPort = 67\<rparr>
      in if IP_Equal srcIP IPv4zero
         then hd\<lparr>ip_DstIP := v4InV6Prefix @ [255, 255, 255, 255], udp_DstPort := 68\<rparr>
         else hd)"

text \<open>\<^verbatim>\<open>IPNet.Contains\<close> for an IPv4 network, whose mask may be written in sixteen bytes.\<close>

definition net_contains :: "bytes \<times> bytes \<Rightarrow> bytes \<Rightarrow> bool" where
  "net_contains n ip =
     (let nn = To4 (fst n);
          m = (if length (snd n) = 16 then drop 12 (snd n) else snd n);
          x = To4 ip
      in length nn = 4 \<and> length m = 4 \<and> length x = 4 \<and> IP_Mask nn m = IP_Mask x m)"

datatype source = Broadcast | Unicast | Relayed

definition frame_source :: "bytes \<Rightarrow> (bytes \<times> bytes) option \<Rightarrow> bytes \<Rightarrow> dhcpv4 \<Rightarrow> bytes \<times> source" where
  "frame_source ip ipNet srcIP req =
     (let (sourceNet, source) =
        (case ipNet of
           None \<Rightarrow> (ip, Broadcast)
         | Some n \<Rightarrow>
             if \<not> net_contains n srcIP \<and> \<not> IP_Equal srcIP IPv4zero then (srcIP, Unicast)
             else (ip, Broadcast))
      in if RelayAgentIP req \<noteq> [] \<and> \<not> IP_Equal (RelayAgentIP req) [0, 0, 0, 0]
         then (RelayAgentIP req, Relayed) else (sourceNet, source))"

definition copied_option :: "dhcp_option \<Rightarrow> bool" where
  "copied_option v \<longleftrightarrow>
     opt_Type v = OptClientID \<or> opt_Type v = OptHostname \<or> opt_Type v = OptAgentInfo"

text \<open>The body of the read loop for a frame with all four layers: it crashes the process, logs
  an error, or hands the layers of a reply to the serialiser.\<close>

datatype outcome = Crashed | Dropped source dhcp_error | Reply headers dhcpv4

definition serve_frame ::
    "dhcp_env \<Rightarrow> bytes \<Rightarrow> bytes \<Rightarrow> (bytes \<times> bytes) option \<Rightarrow> bytes \<Rightarrow> bytes \<Rightarrow> dhcpv4 \<Rightarrow> outcome" where
  "serve_frame env mac ip ipNet srcMAC srcIP req =
     (case findMsgType req of
        Inl e \<Rightarrow> Crashed
      | Inr t \<Rightarrow>
          (let (sourceNet, source) = frame_source ip ipNet srcIP req in
           case processPacket env t req sourceNet ip of
             Inl e \<Rightarrow> Dropped source e
           | Inr resp \<Rightarrow>
               Reply (buildHeaders mac ip srcMAC srcIP)
                 (resp\<lparr>Flags := Flags req,
                       Options := Options resp @ filter copied_option (Options req)\<rparr>)))"

subsection \<open>The address of an interface\<close>

datatype if_addr = IPAddr bytes | IPNet bytes bytes | OtherAddr

text \<open>\<^verbatim>\<open>FindIPv4Addr\<close>: the first IPv4 address of the interface, with its network when the
  address carries one; \<open>None\<close> when there is no such address. Its argument is what
  \<^verbatim>\<open>Addrs\<close> returns.\<close>

fun FindIPv4Addr :: "if_addr list \<Rightarrow> (bytes \<times> (bytes \<times> bytes) option) option" where
  "FindIPv4Addr [] = None"
| "FindIPv4Addr (IPAddr ip # as) =
     (if To4 ip \<noteq> [] then Some (To4 ip, None) else FindIPv4Addr as)"
| "FindIPv4Addr (IPNet ip m # as) =
     (if To4 ip \<noteq> [] then Some (To4 ip, Some (ip, m)) else FindIPv4Addr as)"
| "FindIPv4Addr (OtherAddr # as) = FindIPv4Addr as"

subsection \<open>Facts\<close>

named_theorems dhcp_defs \<open>the definitions of the packet handlers\<close>

declare findHostByMAC_def [dhcp_defs] processDiscover_def [dhcp_defs]
  processRequest_def [dhcp_defs] reply_to_def [dhcp_defs] Let_def [dhcp_defs]

lemma findHostByMAC_Some:
  "findHostByMAC env mac = Inr (Some h) \<longleftrightarrow>
     find_by_mac env (ToLower (unicode_lower env) mac) = Inr h \<and> h_Reimage h"
  by (auto simp: findHostByMAC_def split: sum.splits db_error.splits)

text \<open>With no configured options the loop appends the made-up ones, in the order of the
  iteration.\<close>

lemma foldl_add_requested:
  "foldl (add_requested g ip) (acc, Map.empty) codes
     = (acc @ List.map_filter (missing_option g ip) codes, Map.empty)"
proof (induction codes arbitrary: acc)
  case Nil
  then show ?case by (simp add: List.map_filter_def)
next
  case (Cons c cs)
  then show ?case
    by (cases "missing_option g ip c") (simp_all add: add_requested_def List.map_filter_simps)
qed

definition lease_group :: "dhcp_env \<Rightarrow> host \<Rightarrow> group" where
  "lease_group env lease =
     (case load_host env (h_ID lease) of Inl e \<Rightarrow> zero_group | Inr h \<Rightarrow> h_Group h)"

lemma AddOptions_eq:
  "AddOptions env req resp lease ip =
     Inr (resp\<lparr>Options := Options resp @
       List.map_filter (missing_option (lease_group env lease) ip)
         (map_order env (requestedOptions req))
       @ concat (map (\<lambda>c. encode_options (the None)) (map_order env []))\<rparr>)"
  by (simp add: AddOptions_def AddOptions_with_def byOpCode_def foldl_add_requested
      lease_group_def zero_host_def Let_def split: sum.splits)

lemma missing_option_type: "missing_option g ip c = Some d \<Longrightarrow> opt_Type d = c"
  by (auto simp: missing_option_def Let_def NewUint32Option_def split: if_splits sum.splits)

text \<open>The law of Go's iteration over a map: every key once, in some order.\<close>

definition iterates :: "dhcp_env \<Rightarrow> bool" where
  "iterates env \<longleftrightarrow> (\<forall>ks. mset (map_order env ks) = mset ks)"

definition added_options :: "dhcp_env \<Rightarrow> dhcpv4 \<Rightarrow> host \<Rightarrow> bytes \<Rightarrow> dhcp_option list" where
  "added_options env req lease ip =
     List.map_filter (missing_option (lease_group env lease) ip) (map_order env (requestedOptions req))"

lemma iterates_set: "iterates env \<Longrightarrow> set (map_order env ks) = set ks"
  by (metis iterates_def mset_eq_setD)

lemma iterates_Nil: "iterates env \<Longrightarrow> map_order env [] = []"
  by (metis iterates_def mset_zero_iff_right)

lemma AddOptions_added:
  assumes "iterates env"
  shows "AddOptions env req resp lease ip
    = Inr (resp\<lparr>Options := Options resp @ added_options env req lease ip\<rparr>)"
  using iterates_Nil [OF assms] by (simp add: AddOptions_eq added_options_def)

lemma set_added_options:
  assumes "iterates env"
  shows "set (added_options env req lease ip)
    = {d. \<exists>c \<in> set (requestedOptions req). missing_option (lease_group env lease) ip c = Some d}"
  by (simp add: added_options_def set_map_filter iterates_set [OF assms])

lemma distinct_map_filter_type:
  assumes "distinct cs" and "\<And>c d. f c = Some d \<Longrightarrow> t d = c"
  shows "distinct (map t (List.map_filter f cs))"
  using assms(1)
proof (induction cs)
  case Nil
  then show ?case by (simp add: List.map_filter_def)
next
  case (Cons c cs)
  then show ?case
    using assms(2) by (auto simp: List.map_filter_simps set_map_filter split: option.splits)
qed

lemma distinct_added_options:
  assumes "iterates env"
  shows "distinct (map opt_Type (added_options env req lease ip))"
proof -
  have "mset (map_order env (requestedOptions req)) = mset (requestedOptions req)"
    using assms by (simp add: iterates_def)
  then have "distinct (map_order env (requestedOptions req))"
    by (metis distinct_remdups mset_eq_imp_distinct_iff requestedOptions_def)
  then show ?thesis
    unfolding added_options_def by (rule distinct_map_filter_type) (rule missing_option_type)
qed

lemma added_option_iff:
  assumes "iterates env"
  shows "d \<in> set (added_options env req lease ip) \<longleftrightarrow>
    opt_Type d \<in> set (requestedOptions req) \<and>
    missing_option (lease_group env lease) ip (opt_Type d) = Some d"
  using missing_option_type by (auto simp: set_added_options [OF assms])

lemma default_requested: "set defaultOptions \<subseteq> set (requestedOptions req)"
  by (auto simp: requestedOptions_def)

lemma findMsgType_eq:
  "findMsgType p = Inl Panic \<longleftrightarrow> (\<exists>v \<in> set (Options p). opt_Type v = OptMessageType \<and> opt_Data v = [])"
  "findMsgType p = Inl e \<longleftrightarrow> e = Panic \<and> findMsgType p = Inl Panic"
proof -
  have step: "msg_type_step (Inl e) v = Inl e"
    "msg_type_step (Inr t) v =
      (if opt_Type v = OptMessageType
       then if opt_Data v = [] then Inl Panic else Inr (hd (opt_Data v)) else Inr t)" for e t v
    by (simp_all add: msg_type_step_def split: list.splits)
  have stay: "foldl msg_type_step (Inl e) vs = Inl e" for e vs
    by (induction vs) (simp_all add: step)
  have panic: "foldl msg_type_step (Inr t) vs = Inl e \<longleftrightarrow>
      e = Panic \<and> (\<exists>v \<in> set vs. opt_Type v = OptMessageType \<and> opt_Data v = [])" for t vs e
    by (induction vs arbitrary: t) (auto simp: step stay)
  show "findMsgType p = Inl Panic \<longleftrightarrow>
      (\<exists>v \<in> set (Options p). opt_Type v = OptMessageType \<and> opt_Data v = [])"
    "findMsgType p = Inl e \<longleftrightarrow> e = Panic \<and> findMsgType p = Inl Panic"
    by (simp_all add: findMsgType_def panic)
qed

lemma HW_String_ascii: "is_ascii (HW_String a)"
proof -
  have "of_char (hex_char n) < (128::nat)" if "n < 16" for n
    using that by (auto simp: hex_char_def)
  moreover have "unat (b :: byte) div 16 < 16" for b
    using unat_byte [of b] by (simp add: less_mult_imp_div_less)
  ultimately have "is_ascii (hex_byte b)" for b :: byte
    by (simp add: is_ascii_def hex_byte_def)
  moreover have "is_ascii (Join fs d)" if "list_all is_ascii fs" "is_ascii d" for fs d
    using that by (induction fs d rule: Join.induct) (auto simp: is_ascii_def)
  moreover have "is_ascii '':''" by (simp add: is_ascii_def)
  ultimately show ?thesis by (simp add: HW_String_def list_all_iff)
qed

end
