(* ===== verification/Dhcp_Properties.thy ===== *)
theory Dhcp_Properties
  imports Dhcp
begin

section \<open>What the DHCP server guarantees\<close>

text \<open>
  The properties of the packet handlers: who is answered, which address is confirmed, what
  the options of a reply are for every order in which Go may iterate over its maps, where a
  reply goes, and the packet that crashes the server. The example packets below are the
  concrete inputs of the witnesses.
\<close>

subsection \<open>Example packets\<close>

definition example_group :: group where
  "example_group = zero_group\<lparr>g_Netmask := ''/24'', g_Gateway := ''10.0.0.1'', g_BootMethod := ''pxe''\<rparr>"

definition example_host :: host where
  "example_host = zero_host\<lparr>h_ID := 7, h_Group := example_group, h_IP := ''10.0.0.9'',
     h_Mac := ''00:0c:29:00:00:01'', h_Reimage := True\<rparr>"

definition example_env :: dhcp_env where
  "example_env = \<lparr>find_by_mac = (\<lambda>m. if m = ''00:0c:29:00:00:01'' then Inr example_host
       else Inl ErrRecordNotFound),
     load_host = (\<lambda>i. if i = 7 then Inr example_host else Inl ErrRecordNotFound),
     unicode_lower = (\<lambda>s. s), map_order = rev\<rparr>"

definition example_discover :: dhcpv4 where
  "example_discover = \<lparr>Operation = 1, HardwareType = 1, Xid = 99, Flags = 0x8000, ClientIP = [],
     YourClientIP = [], NextServerIP = [], RelayAgentIP = [],
     ClientHWAddr = [0, 0x0c, 0x29, 0, 0, 1],
     Options = [NewDHCPOption OptMessageType [Discover], NewDHCPOption OptParamsRequest [1, 3]]\<rparr>"

definition example_request :: dhcpv4 where
  "example_request = example_discover\<lparr>Options :=
     [NewDHCPOption OptMessageType [Request], NewDHCPOption OptRequestIP [10, 0, 0, 9]]\<rparr>"

lemmas example_defs = example_group_def example_host_def example_env_def example_discover_def
  example_request_def zero_group_def zero_host_def

lemma example_iterates: "iterates example_env"
  by (simp add: iterates_def example_env_def)

lemma example_mac: "HW_String [0, 0x0c, 0x29, 0, 0, 1] = ''00:0c:29:00:00:01''"
  by code_simp

lemma example_find:
  "findHostByMAC example_env (HW_String (ClientHWAddr example_discover)) = Inr (Some example_host)"
  using HW_String_ascii [of "[0, 0x0c, 0x29, 0, 0, 1]"]
  by (simp add: findHostByMAC_Some example_defs example_mac ToLower_def lower_char_def)

lemma example_ip: "ParseIP (h_IP example_host) = v4InV6Prefix @ [10, 0, 0, 9]"
proof -
  have "ParseIP ''10.0.0.9'' = v4InV6Prefix @ [10, 0, 0, 9]" by code_simp
  then show ?thesis by (simp add: example_host_def)
qed

lemma example_request_simps:
  "ClientHWAddr example_request = ClientHWAddr example_discover"
  "requestedIP example_request = [10, 0, 0, 9]"
  by (simp_all add: example_request_def requestedIP_def)

lemma example_offer:
  "\<exists>resp. processDiscover example_env example_discover [] [10, 0, 0, 2] = Inr resp
     \<and> YourClientIP resp = v4InV6Prefix @ [10, 0, 0, 9]"
  using example_find example_ip
  by (simp add: processDiscover_def AddOptions_added [OF example_iterates] Let_def)

lemma example_ack:
  "\<exists>resp. processRequest example_env example_request [] [10, 0, 0, 2] = Inr resp"
  using example_find example_ip
  by (simp add: processRequest_def AddOptions_added [OF example_iterates] example_request_simps
      Let_def IP_Equal_def v4InV6Prefix_def)

subsection \<open>Who is answered\<close>

text \<open>C23: only a discover or a request is answered, and only for a hardware address on record
  whose host is flagged for re-imaging; the reply carries the transaction, the hardware
  address and the relay of the packet it answers.\<close>

theorem dhcp_answers_flagged_hosts:
  assumes "processPacket env t req sourceNet ip = Inr resp"
  shows "(t = Discover \<or> t = Request)
    \<and> (\<exists>h. find_by_mac env (ToLower (unicode_lower env) (HW_String (ClientHWAddr req))) = Inr h
          \<and> h_Reimage h)
    \<and> Operation resp = 2 \<and> Xid resp = Xid req \<and> ClientHWAddr resp = ClientHWAddr req
    \<and> RelayAgentIP resp = RelayAgentIP req \<and> NextServerIP resp = To4 ip"
proof -
  have t: "t = Discover \<or> t = Request"
    using assms by (simp add: processPacket_def split: if_splits)
  have "\<exists>h. findHostByMAC env (HW_String (ClientHWAddr req)) = Inr (Some h)"
    using assms t by (auto simp: processPacket_def dhcp_defs split: sum.splits option.splits if_splits)
  moreover have "Operation resp = 2 \<and> Xid resp = Xid req \<and> ClientHWAddr resp = ClientHWAddr req
    \<and> RelayAgentIP resp = RelayAgentIP req \<and> NextServerIP resp = To4 ip"
    using assms t
    by (auto simp: processPacket_def processDiscover_def processRequest_def reply_to_def Let_def
        AddOptions_eq split: sum.splits option.splits if_splits)
  ultimately show ?thesis using t by (auto simp: findHostByMAC_Some)
qed

theorem dhcp_answers_flagged_hosts_witness:
  "\<exists>resp :: dhcpv4. Xid resp = 99 \<and> ClientHWAddr resp = [0, 0x0c, 0x29, 0, 0, 1] \<and> NextServerIP resp = [10, 0, 0, 2]
    \<and> (\<exists>h. find_by_mac example_env (ToLower (unicode_lower example_env)
          (HW_String (ClientHWAddr example_discover))) = Inr h \<and> h_Reimage h)"
proof -
  from example_offer obtain resp
    where "processPacket example_env Discover example_discover [] [10, 0, 0, 2] = Inr resp"
    by (auto simp: processPacket_def)
  from dhcp_answers_flagged_hosts [OF this] show ?thesis
    by (intro exI [of _ resp]) (simp add: example_discover_def)
qed

text \<open>C2: a request is confirmed only for the address reserved for the host, and then for
  exactly that address; every other request gets a bare refusal that offers no address.\<close>

theorem dhcp_reservation:
  assumes "processRequest env req sourceNet ip = Inr resp"
  shows "\<exists>h. findHostByMAC env (HW_String (ClientHWAddr req)) = Inr (Some h)
    \<and> ParseIP (h_IP h) \<noteq> []
    \<and> (if IP_Equal (requestedIP req) (ParseIP (h_IP h))
       then YourClientIP resp = ParseIP (h_IP h)
            \<and> hd (Options resp) = NewDHCPOption OptMessageType [Ack]
       else YourClientIP resp = [] \<and> Options resp = [NewDHCPOption OptMessageType [Nak]])"
proof -
  from assms obtain h where h: "findHostByMAC env (HW_String (ClientHWAddr req)) = Inr (Some h)"
    by (auto simp: processRequest_def Let_def split: sum.splits option.splits)
  with assms have "ParseIP (h_IP h) \<noteq> []"
    by (auto simp: processRequest_def Let_def)
  with h assms show ?thesis
    by (cases "IP_Equal (requestedIP req) (ParseIP (h_IP h))")
      (auto simp: processRequest_def Let_def reply_to_def AddOptions_eq)
qed

theorem dhcp_reservation_witness:
  "\<exists>(resp :: dhcpv4) (h :: host). ParseIP (h_IP h) = v4InV6Prefix @ [10, 0, 0, 9] \<and> YourClientIP resp = ParseIP (h_IP h)
    \<and> hd (Options resp) = NewDHCPOption OptMessageType [Ack]"
proof -
  from example_ack obtain resp
    where "processRequest example_env example_request [] [10, 0, 0, 2] = Inr resp" by blast
  from dhcp_reservation [OF this] show ?thesis
    using example_find example_ip
    by (intro exI [of _ resp] exI [of _ example_host])
      (simp add: example_request_simps IP_Equal_def v4InV6Prefix_def)
qed

text \<open>C24: the exchange completes: when the client of an offer asks for the offered address, in
  the four or the sixteen byte form, it is confirmed with that address.\<close>

theorem dhcp_offer_then_ack:
  assumes "processDiscover env req sourceNet ip = Inr offer" and "YourClientIP offer \<noteq> []"
    and "ClientHWAddr req' = ClientHWAddr req"
    and "requestedIP req' = YourClientIP offer
      \<or> requestedIP req' = To4 (YourClientIP offer) \<and> To4 (YourClientIP offer) \<noteq> []"
  shows "\<exists>ack. processRequest env req' sourceNet' ip = Inr ack
    \<and> YourClientIP ack = YourClientIP offer
    \<and> hd (Options offer) = NewDHCPOption OptMessageType [Offer]
    \<and> hd (Options ack) = NewDHCPOption OptMessageType [Ack]"
proof -
  from assms(1) obtain h where h: "findHostByMAC env (HW_String (ClientHWAddr req)) = Inr (Some h)"
    and off: "YourClientIP offer = ParseIP (h_IP h)"
    and hd: "hd (Options offer) = NewDHCPOption OptMessageType [Offer]"
    by (auto simp: processDiscover_def reply_to_def Let_def AddOptions_eq split: sum.splits option.splits)
  have "IP_Equal (requestedIP req') (ParseIP (h_IP h))"
    using assms(4) IP_Equal_To4 by (auto simp: off)
  with h off hd assms(2,3) show ?thesis
    by (simp add: processRequest_def reply_to_def Let_def AddOptions_eq)
qed

theorem dhcp_offer_then_ack_witness:
  "\<exists>ack. processRequest example_env example_request [] [10, 0, 0, 2] = Inr ack
    \<and> YourClientIP ack = v4InV6Prefix @ [10, 0, 0, 9]"
proof -
  from example_offer obtain offer
    where o: "processDiscover example_env example_discover [] [10, 0, 0, 2] = Inr offer"
      and ip: "YourClientIP offer = v4InV6Prefix @ [10, 0, 0, 9]" by blast
  have "YourClientIP offer \<noteq> []" "ClientHWAddr example_request = ClientHWAddr example_discover"
    and "requestedIP example_request = YourClientIP offer
      \<or> requestedIP example_request = To4 (YourClientIP offer) \<and> To4 (YourClientIP offer) \<noteq> []"
    by (simp_all add: ip example_request_simps To4_def v4InV6Prefix_def)
  from dhcp_offer_then_ack [OF o this] show ?thesis using ip by auto
qed

subsection \<open>What a reply says\<close>

text \<open>An answer is an offer, a confirmation or a refusal; the first two carry the options
  made up for the host's group.\<close>

lemma offer_or_ack_options:
  assumes "iterates env" and "processPacket env t req sourceNet ip = Inr resp"
    and "Options resp \<noteq> [NewDHCPOption OptMessageType [Nak]]"
  shows "\<exists>h m. findHostByMAC env (HW_String (ClientHWAddr req)) = Inr (Some h)
    \<and> (m = Offer \<or> m = Ack)
    \<and> Options resp = NewDHCPOption OptMessageType [m] # added_options env req h ip"
  using assms(2,3)
  by (auto simp: processPacket_def dhcp_defs AddOptions_added [OF assms(1)]
      split: sum.splits option.splits if_splits)

text \<open>every offer and confirmation names this server and the lease, with the renewal before
  the rebinding time and that before the end of the lease.\<close>

theorem dhcp_lease_times:
  assumes "iterates env" and "processPacket env t req sourceNet ip = Inr resp"
    and "Options resp \<noteq> [NewDHCPOption OptMessageType [Nak]]"
  shows "\<exists>t1 t2 lease. t1 < t2 \<and> t2 < lease \<and> lease = 3600
    \<and> {NewDHCPOption OptServerID ip, NewDHCPOption OptT1 (put32 t1),
       NewDHCPOption OptT2 (put32 t2), NewDHCPOption OptLeaseTime (put32 lease)}
      \<subseteq> set (Options resp)"
proof -
  from offer_or_ack_options [OF assms] obtain h m
    where o: "Options resp = NewDHCPOption OptMessageType [m] # added_options env req h ip" by blast
  have "NewDHCPOption c d \<in> set (Options resp)"
    if "c \<in> set defaultOptions" "missing_option (lease_group env h) ip c = Some (NewDHCPOption c d)"
    for c d
    using that default_requested [of req] o by (auto simp: added_option_iff [OF assms(1)])
  then have "{NewDHCPOption OptServerID ip, NewDHCPOption OptT1 (put32 1800),
      NewDHCPOption OptT2 (put32 3150), NewDHCPOption OptLeaseTime (put32 3600)} \<subseteq> set (Options resp)"
    by (simp add: missing_option_def defaultOptions_def NewUint32Option_def leaseTime_def)
  then show ?thesis
    by (intro exI [of _ 1800] exI [of _ 3150] exI [of _ 3600]) simp
qed

lemma example_offer_packet:
  "\<exists>resp. processPacket example_env Discover example_discover [] [10, 0, 0, 2] = Inr resp
     \<and> Options resp \<noteq> [NewDHCPOption OptMessageType [Nak]]"
  using example_find
  by (simp add: processPacket_def processDiscover_def reply_to_def
      AddOptions_added [OF example_iterates] Let_def)

theorem dhcp_lease_times_witness:
  "\<exists>(resp :: dhcpv4). NewDHCPOption OptServerID [10, 0, 0, 2] \<in> set (Options resp)
    \<and> processPacket example_env Discover example_discover [] [10, 0, 0, 2] = Inr resp"
proof -
  from example_offer_packet obtain resp
    where r: "processPacket example_env Discover example_discover [] [10, 0, 0, 2] = Inr resp"
      and "Options resp \<noteq> [NewDHCPOption OptMessageType [Nak]]" by blast
  from dhcp_lease_times [OF example_iterates this] r show ?thesis by blast
qed

lemma groupGateway_Inr:
  "groupGateway g = Inr gw \<longleftrightarrow> gw = To4 (ParseIP (TrimSpace (g_Gateway g))) \<and> gw \<noteq> []"
  by (auto simp: groupGateway_def Let_def To4_def)

lemma broadcast_option:
  assumes "groupCIDR g = Inr n" and "groupGateway g = Inr gw"
  shows "\<exists>bc. missing_option g ip OptBroadcastAddr = Some (NewDHCPOption OptBroadcastAddr bc)
    \<and> length bc = 4 \<and> be32 bc = be32 gw OR mask (32 - nat n)"
proof -
  have n: "0 \<le> n" "n \<le> 32" using NetmaskToCIDR_range assms(1) by (auto simp: groupCIDR_def)
  have gw: "To4 (ParseIP (TrimSpace (g_Gateway g))) = gw" "gw \<noteq> []"
    using assms(2) by (auto simp: groupGateway_Inr)
  then have len: "length gw = 4" using To4_length by blast
  let ?bc = "map (\<lambda>i. IP_Mask gw (CIDRMask n) ! i OR NOT (CIDRMask n ! i)) [0..<4]"
  have "length ?bc = 4" "be32 ?bc = be32 gw OR mask (32 - nat n)"
    using be32_broadcast [OF len n] by simp_all
  moreover have "BroadcastAddress (g_Gateway g) (Itoa n) = Inr (dotted ?bc)"
    using BroadcastAddress_CIDR [of "Itoa n" n gw "g_Gateway g"] NetmaskToCIDR_spellings [OF n] gw
    by simp
  moreover have "To4 (ParseIP (dotted ?bc)) = ?bc"
    by (rule To4_ParseIP_dotted) (rule calculation(1))
  moreover have "?bc \<noteq> []" using calculation(1) by auto
  ultimately show ?thesis
    using assms(1) by (intro exI [of _ ?bc]) (simp add: missing_option_def Let_def)
qed

text \<open>
  What the server has to say about an option, written down by itself, by the numbers of RFC 2132
  and 3442: the address of the server, a lease of an hour with its halfway and seven-eighths
  points, the group's network, and the file to boot. The subnet mask and the broadcast address are those
  of the 32-bit numbers; a static route carries the significant octets of its destination only.
\<close>

inductive option_value :: "group \<Rightarrow> bytes \<Rightarrow> byte \<Rightarrow> bytes \<Rightarrow> bool" for g ip where
  subnet_mask: "NetmaskToCIDR (g_Netmask g) = Inr n \<Longrightarrow> length m = 4 \<Longrightarrow> be32 m = NOT (mask (32 - nat n)) \<Longrightarrow>
    option_value g ip 1 m"
| router: "To4 (ParseIP (TrimSpace (g_Gateway g))) = gw \<Longrightarrow> gw \<noteq> [] \<Longrightarrow> option_value g ip 3 gw"
| broadcast: "NetmaskToCIDR (g_Netmask g) = Inr n \<Longrightarrow> To4 (ParseIP (TrimSpace (g_Gateway g))) = gw \<Longrightarrow> gw \<noteq> [] \<Longrightarrow>
    length b = 4 \<Longrightarrow> be32 b = be32 gw OR mask (32 - nat n) \<Longrightarrow> option_value g ip 28 b"
| lease_time: "option_value g ip 51 [0, 0, 0x0e, 0x10]"
| server: "option_value g ip 54 ip"
| renewal: "option_value g ip 58 [0, 0, 0x07, 0x08]"
| rebinding: "option_value g ip 59 [0, 0, 0x0c, 0x4e]"
| boot_tftp: "g_BootMethod g = ''pxe'' \<Longrightarrow> option_value g ip 67 (bytes_of ''mboot.efi'')"
| boot_http: "g_BootMethod g = ''http-dhcp'' \<Longrightarrow>
    option_value g ip 67 (bytes_of (''http://'' @ dotted (To4 ip) @ ''/esx/mboot.efi''))"
| boot_https: "g_BootMethod g = ''https-dhcp'' \<Longrightarrow>
    option_value g ip 67 (bytes_of (''https://'' @ dotted (To4 ip) @ ''/esx/mboot.efi''))"
| static_route: "NetmaskToCIDR (g_Netmask g) = Inr n \<Longrightarrow> To4 (ParseIP (TrimSpace (g_Gateway g))) = gw \<Longrightarrow> gw \<noteq> [] \<Longrightarrow>
    int k * 8 < n + 8 \<Longrightarrow> n \<le> int k * 8 \<Longrightarrow> option_value g ip 121 (of_int n # take k gw @ gw)"

text \<open>The codes a packet asks for.\<close>

definition asks_for :: "dhcpv4 \<Rightarrow> byte \<Rightarrow> bool" where
  "asks_for req c \<longleftrightarrow> (\<exists>v \<in> set (Options req). opt_Type v = 55 \<and> c \<in> set (opt_Data v))"

inductive_cases option_valueE:
  "option_value g ip 1 d" "option_value g ip 3 d" "option_value g ip 28 d" "option_value g ip 121 d"

lemma missing_option_value_network:
  "missing_option g ip 1 = Some (NewDHCPOption 1 d) \<longleftrightarrow> option_value g ip 1 d"
  "missing_option g ip 3 = Some (NewDHCPOption 3 d) \<longleftrightarrow> option_value g ip 3 d"
  "missing_option g ip 28 = Some (NewDHCPOption 28 d) \<longleftrightarrow> option_value g ip 28 d"
  "missing_option g ip 121 = Some (NewDHCPOption 121 d) \<longleftrightarrow> option_value g ip 121 d"
proof -
  have r: "0 \<le> n \<and> n \<le> 32" if "NetmaskToCIDR (g_Netmask g) = Inr n" for n
    using NetmaskToCIDR_range [OF that] .
  show "missing_option g ip 1 = Some (NewDHCPOption 1 d) \<longleftrightarrow> option_value g ip 1 d"
  proof
    assume "missing_option g ip 1 = Some (NewDHCPOption 1 d)"
    then show "option_value g ip 1 d"
      using r CIDRMask_facts by (auto simp: missing_option_def groupCIDR_def split: sum.splits intro!: subnet_mask)
  next
    assume "option_value g ip 1 d"
    then show "missing_option g ip 1 = Some (NewDHCPOption 1 d)"
    proof (rule option_valueE(1))
      fix n assume n: "NetmaskToCIDR (g_Netmask g) = Inr n" "length d = 4" "be32 d = NOT (mask (32 - nat n))"
      then have "d = CIDRMask n" using be32_inject [of d "CIDRMask n"] r [OF n(1)] CIDRMask_facts [of n] by simp
      then show ?thesis using n by (simp add: missing_option_def groupCIDR_def)
    qed
  qed
  show "missing_option g ip 3 = Some (NewDHCPOption 3 d) \<longleftrightarrow> option_value g ip 3 d"
  proof -
    have "missing_option g ip 3 = Some (NewDHCPOption 3 d) \<longleftrightarrow> groupGateway g = Inr d"
      by (auto simp: missing_option_def split: sum.splits)
    also have "\<dots> \<longleftrightarrow> option_value g ip 3 d"
      using groupGateway_Inr [of g d] option_value.router [of g d ip] by (blast elim: option_valueE(2))
    finally show ?thesis .
  qed
  show "missing_option g ip 28 = Some (NewDHCPOption 28 d) \<longleftrightarrow> option_value g ip 28 d"
  proof (cases "groupCIDR g")
    case (Inl e)
    then show ?thesis by (auto simp: missing_option_def groupCIDR_def elim!: option_valueE(3))
  next
    case (Inr n)
    note cidr = Inr
    show ?thesis
    proof (cases "groupGateway g")
      case (Inl e)
      then have none: "To4 (ParseIP (TrimSpace (g_Gateway g))) = []" by (metis groupGateway_Inr sum.distinct(1))
      then have "missing_option g ip 28 = None"
        by (simp add: missing_option_def BroadcastAddress_def split: sum.splits)
      then show ?thesis using none by (auto elim!: option_valueE(3))
    next
      case (Inr gw)
      from broadcast_option [OF cidr this, of ip] obtain bc where
        bc: "missing_option g ip 28 = Some (NewDHCPOption 28 bc)" "length bc = 4" "be32 bc = be32 gw OR mask (32 - nat n)"
        by blast
      have gw: "To4 (ParseIP (TrimSpace (g_Gateway g))) = gw" "gw \<noteq> []" using Inr by (auto simp: groupGateway_Inr)
      have "option_value g ip 28 bc"
        using option_value.broadcast [OF _ gw bc(2,3)] cidr by (simp add: groupCIDR_def)
      moreover have "d = bc" if "option_value g ip 28 d"
        using that cidr gw bc be32_inject [of d bc] by (auto simp: groupCIDR_def elim!: option_valueE(3))
      ultimately show ?thesis using bc(1) by auto
    qed
  qed
  show "missing_option g ip 121 = Some (NewDHCPOption 121 d) \<longleftrightarrow> option_value g ip 121 d"
  proof
    assume "missing_option g ip 121 = Some (NewDHCPOption 121 d)"
    then obtain n gw where n: "groupCIDR g = Inr n" "groupGateway g = Inr gw"
      and d: "d = of_int n # take (nat ((n + 7) div 8)) gw @ gw"
      by (cases "groupCIDR g"; cases "groupGateway g") (simp_all add: missing_option_def)
    have "0 \<le> n" using r n(1) by (simp add: groupCIDR_def)
    then have "int (nat ((n + 7) div 8)) * 8 < n + 8" "n \<le> int (nat ((n + 7) div 8)) * 8" by linarith+
    then show "option_value g ip 121 d"
      using n by (auto simp: d groupCIDR_def groupGateway_Inr intro!: static_route)
  next
    assume "option_value g ip 121 d"
    then show "missing_option g ip 121 = Some (NewDHCPOption 121 d)"
    proof (rule option_valueE(4))
      let ?gw = "To4 (ParseIP (TrimSpace (g_Gateway g)))"
      fix n k
      assume n: "NetmaskToCIDR (g_Netmask g) = Inr n" "?gw \<noteq> []"
        and k: "int k * 8 < n + 8" "n \<le> int k * 8" and d: "d = of_int n # take k ?gw @ ?gw"
      have "k = nat ((n + 7) div 8)" using k by linarith
      then show ?thesis using n d groupGateway_Inr [of g ?gw] by (simp add: missing_option_def groupCIDR_def)
    qed
  qed
qed

lemma missing_option_value:
  "missing_option g ip c = Some d \<longleftrightarrow> d = NewDHCPOption c (opt_Data d) \<and> option_value g ip c (opt_Data d)"
proof (cases "c = 1 \<or> c = 3 \<or> c = 28 \<or> c = 121")
  case True
  have "d = NewDHCPOption c (opt_Data d)" if "missing_option g ip c = Some d"
    using missing_option_type [OF that] by (cases d) simp
  moreover have "missing_option g ip c = Some (NewDHCPOption c (opt_Data d)) \<longleftrightarrow> option_value g ip c (opt_Data d)"
    using True missing_option_value_network [of g ip "opt_Data d"] by (elim disjE) (simp_all only:)
  ultimately show ?thesis by metis
next
  case False
  then show ?thesis
    by (cases d) (auto simp: missing_option_def bootfile_def NewUint32Option_def leaseTime_def put32_def Let_def
        option_value.simps)
qed

text \<open>C11: whatever order Go iterates over its map of requested codes in, the options of an offer
  or a confirmation are the message type followed by exactly one option for every code that the client
  lists in a parameter request, and for the lease, its two times, the server and the boot file in
  any case, as far as there is something to say, with that value and nothing else.\<close>

theorem dhcp_options_exact:
  assumes "iterates env" and "processPacket env t req sourceNet ip = Inr resp"
    and "Options resp \<noteq> [NewDHCPOption OptMessageType [Nak]]"
  shows "\<exists>h m as. findHostByMAC env (HW_String (ClientHWAddr req)) = Inr (Some h)
    \<and> (m = Offer \<or> m = Ack)
    \<and> Options resp = NewDHCPOption OptMessageType [m] # as
    \<and> distinct (map opt_Type as)
    \<and> set as = {NewDHCPOption c d | c d. (asks_for req c \<or> c \<in> {51, 54, 58, 59, 67})
          \<and> option_value (case load_host env (h_ID h) of Inl e \<Rightarrow> zero_group | Inr row \<Rightarrow> h_Group row) ip c d}"
proof -
  from offer_or_ack_options [OF assms] obtain h m
    where "findHostByMAC env (HW_String (ClientHWAddr req)) = Inr (Some h)"
      and "m = Offer \<or> m = Ack"
      and "Options resp = NewDHCPOption OptMessageType [m] # added_options env req h ip" by blast
  moreover have "c \<in> set (requestedOptions req) \<longleftrightarrow> asks_for req c \<or> c \<in> {51, 54, 58, 59, 67}" for c
    by (auto simp: requestedOptions_def defaultOptions_def asks_for_def)
  then have "set (added_options env req h ip) = {NewDHCPOption c d | c d.
      (asks_for req c \<or> c \<in> {51, 54, 58, 59, 67}) \<and> option_value (lease_group env h) ip c d}"
    by (auto simp: set_added_options [OF assms(1)] missing_option_value)
  ultimately show ?thesis
    using distinct_added_options [OF assms(1)]
    by (intro exI [of _ h] exI [of _ m] exI [of _ "added_options env req h ip"]) (simp add: lease_group_def)
qed

theorem dhcp_options_exact_witness:
  "\<exists>resp. processPacket example_env Discover example_discover [] [10, 0, 0, 2] = Inr resp
    \<and> NewDHCPOption 3 [10, 0, 0, 1] \<in> set (Options resp) \<and> distinct (map opt_Type (tl (Options resp)))"
proof -
  from example_offer_packet obtain resp
    where r: "processPacket example_env Discover example_discover [] [10, 0, 0, 2] = Inr resp"
      and n: "Options resp \<noteq> [NewDHCPOption OptMessageType [Nak]]" by blast
  from dhcp_options_exact [OF example_iterates r n] example_find obtain m as where
    o: "Options resp = NewDHCPOption OptMessageType [m] # as" "distinct (map opt_Type as)"
      "set as = {NewDHCPOption c d | c d. (asks_for example_discover c \<or> c \<in> {51, 54, 58, 59, 67})
        \<and> option_value (case load_host example_env (h_ID example_host) of Inl e \<Rightarrow> zero_group | Inr row \<Rightarrow> h_Group row)
            [10, 0, 0, 2] c d}" by auto
  have "To4 (ParseIP (TrimSpace (g_Gateway example_group))) = [10, 0, 0, 1]" by code_simp
  then have "option_value example_group [10, 0, 0, 2] 3 [10, 0, 0, 1]"
    using option_value.router by fastforce
  moreover have "(case load_host example_env (h_ID example_host) of Inl e \<Rightarrow> zero_group | Inr row \<Rightarrow> h_Group row)
      = example_group"
    by (simp add: example_env_def example_host_def)
  moreover have "asks_for example_discover 3" by (simp add: asks_for_def example_discover_def)
  ultimately have "NewDHCPOption 3 [10, 0, 0, 1] \<in> set as" unfolding o(3) by auto
  then show ?thesis using r o(1,2) by auto
qed

text \<open>a group without a usable netmask never makes the server send a subnet mask, a
  broadcast address or a static route, and one without a usable gateway no router, broadcast
  address or static route; with both, they are the group's own network.\<close>

theorem dhcp_network_options:
  "(\<forall>e. groupCIDR g = Inl e \<longrightarrow>
      missing_option g ip OptSubnetMask = None \<and> missing_option g ip OptBroadcastAddr = None
      \<and> missing_option g ip OptClasslessStaticRoute = None)
   \<and> (\<forall>e. groupGateway g = Inl e \<longrightarrow>
      missing_option g ip OptRouter = None \<and> missing_option g ip OptBroadcastAddr = None
      \<and> missing_option g ip OptClasslessStaticRoute = None)
   \<and> (\<forall>n gw. groupCIDR g = Inr n \<longrightarrow> groupGateway g = Inr gw \<longrightarrow>
      missing_option g ip OptSubnetMask = Some (NewDHCPOption OptSubnetMask (CIDRMask n))
      \<and> missing_option g ip OptRouter = Some (NewDHCPOption OptRouter gw)
      \<and> missing_option g ip OptClasslessStaticRoute
          = Some (NewDHCPOption OptClasslessStaticRoute (of_int n # take (nat ((n + 7) div 8)) gw @ gw))
      \<and> (\<exists>bc. missing_option g ip OptBroadcastAddr = Some (NewDHCPOption OptBroadcastAddr bc)
             \<and> length bc = 4 \<and> be32 bc = be32 gw OR mask (32 - nat n)))"
proof (intro conjI allI impI)
  fix e assume "groupGateway g = Inl e"
  then have "To4 (ParseIP (TrimSpace (g_Gateway g))) = []"
    using groupGateway_Inr [of g] by (cases "To4 (ParseIP (TrimSpace (g_Gateway g)))") auto
  then show "missing_option g ip OptBroadcastAddr = None"
    by (simp add: missing_option_def BroadcastAddress_def split: sum.splits)
qed (use broadcast_option [of g _ _ ip] in
    \<open>auto simp: missing_option_def Let_def split: sum.splits\<close>)

theorem dhcp_network_options_witness:
  "missing_option example_group [10, 0, 0, 2] OptRouter = Some (NewDHCPOption OptRouter [10, 0, 0, 1])
   \<and> missing_option example_group [10, 0, 0, 2] OptClasslessStaticRoute
       = Some (NewDHCPOption OptClasslessStaticRoute [24, 10, 0, 0, 10, 0, 0, 1])"
proof -
  have n: "groupCIDR example_group = Inr 24" by code_simp
  have gw: "groupGateway example_group = Inr [10, 0, 0, 1]" by code_simp
  show ?thesis
    using dhcp_network_options [of example_group "[10, 0, 0, 2]"] n gw by simp
qed

text \<open>a client is told what to boot exactly when its group has one of the three boot methods:
  a bare file name for TFTP, and for the other two a URL on this server.\<close>

theorem dhcp_bootfile:
  assumes "iterates env" and "processPacket env t req sourceNet ip = Inr resp"
    and "Options resp \<noteq> [NewDHCPOption OptMessageType [Nak]]"
    and "findHostByMAC env (HW_String (ClientHWAddr req)) = Inr (Some h)"
    and "m = g_BootMethod (lease_group env h)"
  shows "{opt_Data d | d. d \<in> set (Options resp) \<and> opt_Type d = OptBootfile} =
    (if m = ''pxe'' then {bytes_of ''mboot.efi''}
     else if m = ''https-dhcp'' then {bytes_of (''https://'' @ dotted (To4 ip) @ ''/esx/mboot.efi'')}
     else if m = ''http-dhcp'' then {bytes_of (''http://'' @ dotted (To4 ip) @ ''/esx/mboot.efi'')}
     else {})"
proof -
  from offer_or_ack_options [OF assms(1-3)] assms(4) obtain k
    where o: "Options resp = NewDHCPOption OptMessageType [k] # added_options env req h ip" by auto
  have "OptBootfile \<in> set (requestedOptions req)"
    using default_requested [of req] by (auto simp: defaultOptions_def)
  then have "d \<in> set (Options resp) \<and> opt_Type d = OptBootfile \<longleftrightarrow>
      missing_option (lease_group env h) ip OptBootfile = Some d \<and> opt_Type d = OptBootfile" for d
    using added_option_iff [OF assms(1), of d req h ip] by (auto simp: o)
  then show ?thesis by (auto simp: missing_option_def bootfile_def Let_def assms(5))
qed

theorem dhcp_bootfile_witness:
  "\<exists>resp :: dhcpv4. {opt_Data d | d. d \<in> set (Options resp) \<and> opt_Type d = OptBootfile}
     = {bytes_of ''mboot.efi''}"
proof -
  from example_offer_packet obtain resp
    where r: "processPacket example_env Discover example_discover [] [10, 0, 0, 2] = Inr resp"
      "Options resp \<noteq> [NewDHCPOption OptMessageType [Nak]]" by blast
  have "''pxe'' = g_BootMethod (lease_group example_env example_host)"
    by (simp add: lease_group_def example_defs)
  from dhcp_bootfile [OF example_iterates r example_find this] show ?thesis by auto
qed

text \<open>the reply goes to the hardware address that sent the frame, to everybody on the client
  port when that sender had no address yet and to its address on the server port otherwise;
  it keeps the flags, and the client identifier, host name and agent options come last, in
  their order.\<close>

theorem dhcp_reply_route:
  assumes "serve_frame env mac ip ipNet srcMAC srcIP req = Reply hdr resp"
  shows "eth_SrcMAC hdr = mac \<and> eth_DstMAC hdr = srcMAC \<and> ip_SrcIP hdr = ip
    \<and> udp_SrcPort hdr = 67
    \<and> (if IP_Equal srcIP IPv4zero
       then To4 (ip_DstIP hdr) = [255, 255, 255, 255] \<and> udp_DstPort hdr = 68
       else ip_DstIP hdr = srcIP \<and> udp_DstPort hdr = 67)
    \<and> Flags resp = Flags req
    \<and> (\<exists>t r. findMsgType req = Inr t \<and> (t = Discover \<or> t = Request)
          \<and> processPacket env t req (fst (frame_source ip ipNet srcIP req)) ip = Inr r
          \<and> Options resp = Options r @ filter copied_option (Options req))"
proof -
  from assms obtain t r where t: "findMsgType req = Inr t"
    and r: "processPacket env t req (fst (frame_source ip ipNet srcIP req)) ip = Inr r"
    and eq: "hdr = buildHeaders mac ip srcMAC srcIP"
      "resp = r\<lparr>Flags := Flags req, Options := Options r @ filter copied_option (Options req)\<rparr>"
    by (auto simp: serve_frame_def split: sum.splits prod.splits)
  from r have "t = Discover \<or> t = Request" by (simp add: processPacket_def split: if_splits)
  with t r eq show ?thesis by (simp add: buildHeaders_def Let_def To4_def v4InV6Prefix_def)
qed

theorem dhcp_reply_route_witness:
  "\<exists>(hdr :: headers) (resp :: dhcpv4). eth_DstMAC hdr = [0, 0x0c, 0x29, 0, 0, 1]
    \<and> To4 (ip_DstIP hdr) = [255, 255, 255, 255] \<and> udp_DstPort hdr = 68 \<and> Flags resp = 0x8000"
proof -
  from example_offer_packet obtain r
    where r: "processPacket example_env Discover example_discover [] [10, 0, 0, 2] = Inr r" by blast
  have "processPacket env t req s ip = processPacket env t req [] ip" for env t req s ip
    by (simp add: processPacket_def processDiscover_def processRequest_def)
  note p = trans [OF this r]
  have t: "findMsgType example_discover = Inr Discover"
    by (simp add: findMsgType_def msg_type_step_def example_discover_def)
  obtain net src where f: "frame_source [10, 0, 0, 2] None IPv4zero example_discover = (net, src)"
    by fastforce
  obtain hdr resp where "serve_frame example_env [2] [10, 0, 0, 2] None
      [0, 0x0c, 0x29, 0, 0, 1] IPv4zero example_discover = Reply hdr resp"
    by (simp add: serve_frame_def t f p)
  from dhcp_reply_route [OF this] show ?thesis
    by (intro exI [of _ hdr] exI [of _ resp]) (simp add: example_discover_def)
qed

text \<open>C39: one frame stops the server exactly when it carries a message type option without
  data, which no check on the way excludes.\<close>

theorem dhcp_crash:
  "serve_frame env mac ip ipNet srcMAC srcIP req = Crashed
     \<longleftrightarrow> (\<exists>v \<in> set (Options req). opt_Type v = OptMessageType \<and> opt_Data v = [])"
proof (cases "findMsgType req")
  case (Inl e)
  then have "findMsgType req = Inl Panic" using findMsgType_eq(2) [of req e] by blast
  then show ?thesis using findMsgType_eq(1) [of req] by (simp add: serve_frame_def)
next
  case (Inr t)
  then have "findMsgType req \<noteq> Inl Panic" by simp
  with findMsgType_eq(1) [of req]
  have "\<not> (\<exists>v \<in> set (Options req). opt_Type v = OptMessageType \<and> opt_Data v = [])" by blast
  with Inr show ?thesis by (simp add: serve_frame_def split: prod.splits sum.splits)
qed

subsection \<open>The choice among configured options\<close>

lemma add_by_opcode_at:
  "add_by_opcode m v c =
     (if o_OpCode v \<noteq> c then m c
      else case m c of
          Some (old # olds) \<Rightarrow> Some (old # olds @ (if Level v \<ge> Level old then [v] else []))
        | _ \<Rightarrow> Some [v])"
  by (simp add: add_by_opcode_def Let_def split: option.splits list.splits)

lemma foldl_by_opcode_other:
  "filter (\<lambda>o1. o_OpCode o1 = c) options = [] \<Longrightarrow> foldl add_by_opcode m options c = m c"
  by (induction options arbitrary: m) (simp_all add: add_by_opcode_at split: if_splits)

lemma foldl_by_opcode_some:
  assumes "m c = Some (old # olds)"
  shows "foldl add_by_opcode m options c =
    Some (old # olds @ filter (\<lambda>w. Level w \<ge> Level old) (filter (\<lambda>o1. o_OpCode o1 = c) options))"
  using assms
proof (induction options arbitrary: m olds)
  case (Cons v vs)
  have "add_by_opcode m v c =
      Some (old # olds @ (if o_OpCode v = c \<and> Level v \<ge> Level old then [v] else []))"
    using Cons.prems by (simp add: add_by_opcode_at)
  then show ?case using Cons.IH [of "add_by_opcode m v"] by simp
qed simp

lemma foldl_by_opcode_none:
  assumes "m c = None" and "filter (\<lambda>o1. o_OpCode o1 = c) options = v # vs"
  shows "foldl add_by_opcode m options c = Some (v # filter (\<lambda>w. Level w \<ge> Level v) vs)"
  using assms
proof (induction options arbitrary: m)
  case (Cons w ws)
  show ?case
  proof (cases "o_OpCode w = c")
    case True
    then have "add_by_opcode m w c = Some [v]" "filter (\<lambda>o1. o_OpCode o1 = c) ws = vs"
      using Cons.prems by (simp_all add: add_by_opcode_at)
    then show ?thesis using foldl_by_opcode_some [of "add_by_opcode m w" c v "[]" ws] by simp
  next
    case False
    then show ?thesis using Cons by (simp add: add_by_opcode_at)
  qed
qed simp

text \<open>of the configured options with one code, the first and all later ones that are at
  least as specific as that first one are kept; nothing is kept for a code that is not
  configured.\<close>

theorem by_opcode_choice:
  "byOpCode options c =
     (case filter (\<lambda>o1. o_OpCode o1 = c) options of
        [] \<Rightarrow> None
      | v # vs \<Rightarrow> Some (v # filter (\<lambda>w. Level w \<ge> Level v) vs))"
  using foldl_by_opcode_other [of c options Map.empty] foldl_by_opcode_none [of Map.empty c options]
  by (simp add: byOpCode_def split: list.splits)

text \<open>So a less specific option stays beside a more specific one of the same code when it
  comes first.\<close>

lemma by_opcode_keeps_less_specific:
  assumes "o_OpCode v = c" and "o_OpCode w = c" and "Level v < Level w"
  shows "byOpCode [v, w] c = Some [v, w] \<and> byOpCode [w, v] c = Some [w]"
  using assms by (simp add: byOpCode_def add_by_opcode_def Let_def)

end
