(* ===== verification/Session_Store.thy ===== *)
theory Session_Store
  imports Go_Time "HOL-Library.Mapping"
begin

section \<open>The session store: internal/auth/session.go\<close>

text \<open>
  Sessions are kept in a map from tokens to their user and the end of their life. Every
  operation takes the readings the code makes of the clock, in order; the 32 random bytes of a
  token are an argument, \<open>None\<close> when the generator fails. The lock the code holds during each
  operation makes it one step.
\<close>

subsection \<open>Tokens\<close>

text \<open>\<^verbatim>\<open>base64.RawURLEncoding\<close>: the URL alphabet without padding.\<close>

definition url_alphabet :: string where
  "url_alphabet = ''ABCDEFGHIJKLMNOPQRSTUVWXYZabcdefghijklmnopqrstuvwxyz0123456789-_''"

definition b64_char :: "nat \<Rightarrow> char" where
  "b64_char n = url_alphabet ! (n mod 64)"

fun RawURL_Encode :: "bytes \<Rightarrow> string" where
  "RawURL_Encode [] = []"
| "RawURL_Encode [a] =
     (let v = unat a * 16 in [b64_char (v div 64), b64_char v])"
| "RawURL_Encode [a, b] =
     (let v = (unat a * 256 + unat b) * 4
      in [b64_char (v div 4096), b64_char (v div 64), b64_char v])"
| "RawURL_Encode (a # b # c # bs) =
     (let v = (unat a * 256 + unat b) * 256 + unat c
      in b64_char (v div 262144) # b64_char (v div 4096) # b64_char (v div 64) # b64_char v
         # RawURL_Encode bs)"

subsection \<open>The store\<close>

record session =
  s_username :: string
  s_expires :: int

record sessions =
  sess_m :: "(string, session) mapping"
  sess_ttl :: int

definition DefaultTTL :: int where
  "DefaultTTL = 12 * Hour"

definition NewSessions :: "int \<Rightarrow> sessions" where
  "NewSessions ttl =
     (let ttl = (if ttl \<le> 0 then DefaultTTL else ttl)
      in \<lparr>sess_m = Mapping.empty, sess_ttl = ttl\<rparr>)"

definition sweepLocked :: "sessions \<Rightarrow> int \<Rightarrow> sessions" where
  "sweepLocked s now = s\<lparr>sess_m := Mapping.filter (\<lambda>token v. \<not> now > s_expires v) (sess_m s)\<rparr>"

definition Create :: "sessions \<Rightarrow> string \<Rightarrow> bytes option \<Rightarrow> int \<Rightarrow> int \<Rightarrow> string option \<times> sessions" where
  "Create s username random t1 t2 =
     (case random of
        None \<Rightarrow> (None, s)
      | Some b \<Rightarrow>
          (let token = RawURL_Encode b;
               s = s\<lparr>sess_m := Mapping.update token
                       \<lparr>s_username = username, s_expires = t1 + sess_ttl s\<rparr> (sess_m s)\<rparr>
           in (Some token, sweepLocked s t2)))"

definition Lookup :: "sessions \<Rightarrow> string \<Rightarrow> int \<Rightarrow> int \<Rightarrow> string option \<times> sessions" where
  "Lookup s token t1 t2 =
     (if token = [] then (None, s)
      else
        (case Mapping.lookup (sess_m s) token of
           None \<Rightarrow> (None, s)
         | Some v \<Rightarrow>
             if t1 > s_expires v then (None, s\<lparr>sess_m := Mapping.delete token (sess_m s)\<rparr>)
             else
               (let v = v\<lparr>s_expires := t2 + sess_ttl s\<rparr>
                in (Some (s_username v), s\<lparr>sess_m := Mapping.update token v (sess_m s)\<rparr>))))"

definition Destroy :: "sessions \<Rightarrow> string \<Rightarrow> sessions" where
  "Destroy s token = s\<lparr>sess_m := Mapping.delete token (sess_m s)\<rparr>"

definition DestroyUser :: "sessions \<Rightarrow> string \<Rightarrow> sessions" where
  "DestroyUser s username =
     s\<lparr>sess_m := Mapping.filter (\<lambda>token v. s_username v \<noteq> username) (sess_m s)\<rparr>"

definition Len :: "sessions \<Rightarrow> int \<Rightarrow> nat \<times> sessions" where
  "Len s now = (let s = sweepLocked s now in (Mapping.size (sess_m s), s))"

subsection \<open>Tokens are distinct for distinct random bytes\<close>

definition b64_index :: "char \<Rightarrow> nat option" where
  "b64_index c = List.find (\<lambda>n. url_alphabet ! n = c) [0..<64]"

fun RawURL_Decode :: "string \<Rightarrow> bytes option" where
  "RawURL_Decode [] = Some []"
| "RawURL_Decode [p, q] =
     (case (b64_index p, b64_index q) of
        (Some i, Some j) \<Rightarrow> Some [of_nat ((i * 64 + j) div 16)]
      | _ \<Rightarrow> None)"
| "RawURL_Decode [p, q, r] =
     (case (b64_index p, b64_index q, b64_index r) of
        (Some i, Some j, Some k) \<Rightarrow>
          (let v = ((i * 64 + j) * 64 + k) div 4 in Some [of_nat (v div 256), of_nat v])
      | _ \<Rightarrow> None)"
| "RawURL_Decode (p # q # r # s # cs) =
     (case (b64_index p, b64_index q, b64_index r, b64_index s, RawURL_Decode cs) of
        (Some i, Some j, Some k, Some l, Some bs) \<Rightarrow>
          (let v = ((i * 64 + j) * 64 + k) * 64 + l
           in Some (of_nat (v div 65536) # of_nat (v div 256) # of_nat v # bs))
      | _ \<Rightarrow> None)"
| "RawURL_Decode [p] = None"

lemma b64_index_all: "list_all (\<lambda>n. b64_index (b64_char n) = Some n) [0..<64]"
  by code_simp

lemma b64_index_char: "b64_index (b64_char n) = Some (n mod 64)"
proof -
  have "b64_char n = b64_char (n mod 64)" by (simp add: b64_char_def)
  then show ?thesis using b64_index_all by (simp add: list_all_iff)
qed

lemma of_nat_byte: "of_nat (256 * m + unat b) = (b :: byte)"
proof -
  have "unat (of_nat n :: byte) = n mod 256" for n by (simp add: unat_of_nat)
  from this [of "256 * m + unat b"] have "unat (of_nat (256 * m + unat b) :: byte) = unat b"
    using unat_byte [of b] by (simp del: of_nat_add of_nat_mult)
  then show ?thesis by (simp only: word_unat_eq_iff)
qed

text \<open>The base 64 digits of a number below a power of 64.\<close>

lemma digits_64:
  "v < 4096 \<Longrightarrow> v div 64 mod 64 * 64 + v mod 64 = (v :: nat)"
  "v < 262144 \<Longrightarrow> (v div 4096 mod 64 * 64 + v div 64 mod 64) * 64 + v mod 64 = v"
  "v < 16777216 \<Longrightarrow>
    ((v div 262144 mod 64 * 64 + v div 4096 mod 64) * 64 + v div 64 mod 64) * 64 + v mod 64 = v"
proof -
  have two: "v div 64 mod 64 * 64 + v mod 64 = v" if "v < 4096" for v :: nat
    using that by (simp add: less_mult_imp_div_less)
  then show "v < 4096 \<Longrightarrow> v div 64 mod 64 * 64 + v mod 64 = v" .
  have three: "(v div 4096 mod 64 * 64 + v div 64 mod 64) * 64 + v mod 64 = v" if "v < 262144" for v :: nat
    using two [of "v div 64"] that by (simp add: less_mult_imp_div_less div_mult2_eq [symmetric])
  then show "v < 262144 \<Longrightarrow> (v div 4096 mod 64 * 64 + v div 64 mod 64) * 64 + v mod 64 = v" .
  show "v < 16777216 \<Longrightarrow>
    ((v div 262144 mod 64 * 64 + v div 4096 mod 64) * 64 + v div 64 mod 64) * 64 + v mod 64 = v"
    using three [of "v div 64"] by (simp add: less_mult_imp_div_less div_mult2_eq [symmetric])
qed

lemma RawURL_Decode_four:
  assumes "RawURL_Decode cs = Some bs"
  shows "RawURL_Decode (b64_char i # b64_char j # b64_char k # b64_char l # cs) =
    Some (of_nat ((((i mod 64 * 64 + j mod 64) * 64 + k mod 64) * 64 + l mod 64) div 65536)
      # of_nat ((((i mod 64 * 64 + j mod 64) * 64 + k mod 64) * 64 + l mod 64) div 256)
      # of_nat (((i mod 64 * 64 + j mod 64) * 64 + k mod 64) * 64 + l mod 64) # bs)"
  by (simp only: RawURL_Decode.simps b64_index_char assms option.case prod.case Let_def)

lemma RawURL_Decode_Encode: "RawURL_Decode (RawURL_Encode bs) = Some bs"
proof (induction bs rule: RawURL_Encode.induct)
  case (2 a)
  define v where "v = unat a * 16"
  have "v < 4096" using unat_byte [of a] by (simp add: v_def)
  moreover have "v div 16 = unat a" by (simp add: v_def)
  ultimately have "(v div 64 mod 64 * 64 + v mod 64) div 16 = unat a" by (simp only: digits_64)
  then show ?case by (simp add: Let_def b64_index_char v_def [symmetric])
next
  case (3 a b)
  define v where "v = (unat a * 256 + unat b) * 4"
  have "unat a < 256" "unat b < 256" using unat_byte by simp_all
  then have "v < 262144" by (simp add: v_def)
  then have "((v div 4096 mod 64 * 64 + v div 64 mod 64) * 64 + v mod 64) div 4 = 256 * unat a + unat b"
    by (simp only: digits_64) (simp add: v_def)
  moreover have "(256 * unat a + unat b) div 256 = unat a" using \<open>unat b < 256\<close> by simp
  moreover have "RawURL_Encode [a, b] = [b64_char (v div 4096), b64_char (v div 64), b64_char v]"
    by (simp only: RawURL_Encode.simps Let_def v_def)
  ultimately show ?case
    using of_nat_byte [of "unat a" b] by (simp add: Let_def b64_index_char del: of_nat_add)
next
  case (4 a b c bs)
  define v where "v = (unat a * 256 + unat b) * 256 + unat c"
  have lt: "unat a < 256" "unat b < 256" "unat c < 256"
    using unat_byte by simp_all
  then have "unat a \<le> 255" "unat b \<le> 255" "unat c \<le> 255" by simp_all
  then have "v \<le> (255 * 256 + 255) * 256 + 255" unfolding v_def by (intro add_mono mult_mono) simp_all
  then have "v < 16777216" by simp
  note v = digits_64(3) [OF this]
  have d: "v div 256 = 256 * unat a + unat b" "v = 256 * (256 * unat a + unat b) + unat c"
    using lt by (simp_all add: v_def)
  then have "v div 65536 = unat a"
    using lt div_mult2_eq [of v 256 256] by simp
  then have "of_nat (v div 65536) = a" by simp
  moreover have "of_nat (v div 256) = b" using d(1) of_nat_byte by metis
  moreover have "of_nat v = c" using d(2) of_nat_byte by metis
  moreover have "RawURL_Encode (a # b # c # bs) = b64_char (v div 262144) # b64_char (v div 4096)
      # b64_char (v div 64) # b64_char v # RawURL_Encode bs"
    by (simp only: RawURL_Encode.simps Let_def v_def)
  ultimately show ?case by (simp only: RawURL_Decode_four [OF 4] v)
qed simp

interpretation token: codec RawURL_Encode RawURL_Decode "\<lambda>_. True"
  by unfold_locales (simp add: RawURL_Decode_Encode)

lemma RawURL_Encode_length: "length (RawURL_Encode bs) = (length bs * 4 + 2) div 3"
  by (induction bs rule: RawURL_Encode.induct) (simp_all add: Let_def)

subsection \<open>The contract of a token store\<close>

text \<open>
  The owner of a token at a time is the user it lets in, if any. The contract says what each
  kind of operation does to it: issuing a token starts its life, using it while it lives
  extends it, revoking ends it, and everything else leaves it alone. Sweeping out the dead is
  invisible in these terms.
\<close>

locale token_store =
  fixes step :: "'st \<Rightarrow> 'op timed \<Rightarrow> 'st"
    and owner :: "'st \<Rightarrow> int \<Rightarrow> 'tok \<Rightarrow> 'u option"
    and ttl :: "'st \<Rightarrow> int"
    and issues :: "'op \<Rightarrow> ('tok \<times> 'u) option"
    and uses :: "'op \<Rightarrow> 'tok option"
    and revokes :: "'op \<Rightarrow> 'tok \<Rightarrow> 'u \<Rightarrow> bool"
  assumes ttl_step: "ttl (step s e) = ttl s"
    and owner_earlier: "t \<le> t' \<Longrightarrow> owner s t' k = Some u \<Longrightarrow> owner s t k = Some u"
    and owner_issue: "t1 \<le> t2 \<Longrightarrow> t2 \<le> t \<Longrightarrow> issues op = Some (k, u) \<Longrightarrow>
      owner (step s (op, t1, t2)) t k = (if t \<le> t1 + ttl s then Some u else None)"
    and owner_use: "t1 \<le> t2 \<Longrightarrow> t2 \<le> t \<Longrightarrow> uses op = Some k \<Longrightarrow>
      owner (step s (op, t1, t2)) t k =
        (case owner s t1 k of None \<Rightarrow> None | Some u \<Rightarrow> if t \<le> t2 + ttl s then Some u else None)"
    and owner_else: "t1 \<le> t2 \<Longrightarrow> t2 \<le> t \<Longrightarrow> \<nexists>u. issues op = Some (k, u) \<Longrightarrow> uses op \<noteq> Some k \<Longrightarrow>
      owner (step s (op, t1, t2)) t k =
        (case owner s t k of None \<Rightarrow> None | Some u \<Rightarrow> if revokes op k u then None else Some u)"
begin

lemma owner_None_later: "t \<le> t' \<Longrightarrow> owner s t k = None \<Longrightarrow> owner s t' k = None"
  using owner_earlier by (cases "owner s t' k") fastforce+

lemma ttl_run: "ttl (foldl step s es) = ttl s"
  by (induction es arbitrary: s) (simp_all add: ttl_step)

lemma owner_step_Some:
  assumes "t1 \<le> t2" and "t2 \<le> t" and "owner (step s (op, t1, t2)) t k = Some u"
  shows "owner s t1 k = Some u \<or> issues op = Some (k, u)"
proof (cases "\<exists>u. issues op = Some (k, u)")
  case True
  then show ?thesis using owner_issue [OF assms(1,2)] assms(3) by (auto split: if_splits)
next
  case False
  then show ?thesis
    using owner_use [OF assms(1,2)] owner_else [OF assms(1,2) False] assms owner_earlier [of t1 t]
    by (cases "uses op = Some k") (fastforce split: option.splits if_splits)+
qed

lemma owner_origin:
  assumes "clocked c es" and "end_time c es \<le> t" and "owner (foldl step s es) t k = Some u"
  shows "owner s c k = Some u \<or> (\<exists>e \<in> set es. issues (fst e) = Some (k, u))"
  using assms
proof (induction c es arbitrary: s rule: clocked.induct)
  case (1 c)
  then show ?case using owner_earlier by auto
next
  case (2 c op t1 t2 es)
  then have "owner (step s (op, t1, t2)) t2 k = Some u \<or> (\<exists>e \<in> set es. issues (fst e) = Some (k, u))"
    by simp
  then show ?case
    using 2(2) owner_step_Some [of t1 t2 t2 s op k u] owner_earlier [of c t1] by auto
qed

lemma dead_run:
  assumes "clocked c es" and "end_time c es \<le> t" and "owner s c k = None"
    and "\<forall>e \<in> set es. \<nexists>u. issues (fst e) = Some (k, u)"
  shows "owner (foldl step s es) t k = None"
  using owner_origin [OF assms(1,2), of s k] assms(3,4) by (cases "owner (foldl step s es) t k") auto

lemma idle_run:
  assumes "clocked c es" and "end_time c es \<le> t" and "owner s t k = None"
    and "\<forall>e \<in> set es. (\<nexists>u. issues (fst e) = Some (k, u)) \<and> uses (fst e) \<noteq> Some k"
  shows "owner (foldl step s es) t k = None"
  using assms
proof (induction c es arbitrary: s rule: clocked.induct)
  case (2 c op t1 t2 es)
  then have "t2 \<le> t" using clocked_end [of t2 es] by auto
  then have "owner (step s (op, t1, t2)) t k = None"
    using 2 owner_else [of t1 t2 t op k s] by auto
  then show ?case using 2 by simp
qed simp

lemma kept_run:
  assumes "clocked c es" and "end_time c es \<le> t" and "owner s t k = Some u" and "t \<le> c + ttl s"
    and "\<forall>e \<in> set es. (\<nexists>u. issues (fst e) = Some (k, u)) \<and> \<not> revokes (fst e) k u"
  shows "owner (foldl step s es) t k = Some u"
  using assms
proof (induction c es arbitrary: s rule: clocked.induct)
  case (2 c op t1 t2 es)
  then have t: "t2 \<le> t" "t1 \<le> t2" "c \<le> t1" using clocked_end [of t2 es] by auto
  have "owner (step s (op, t1, t2)) t k = Some u"
  proof (cases "uses op = Some k")
    case True
    moreover have "owner s t1 k = Some u" using owner_earlier [of t1 t s k u] t 2(4) by simp
    ultimately show ?thesis using owner_use [of t1 t2 t op k s] t 2(5) by simp
  next
    case False
    then show ?thesis using owner_else [of t1 t2 t op k s] t 2 by auto
  qed
  then show ?case using 2 t by (simp add: ttl_step)
qed simp

end

subsection \<open>The session store keeps it\<close>

datatype session_op =
    OpCreate string "bytes option"
  | OpLookup string
  | OpDestroy string
  | OpDestroyUser string
  | OpLen

fun session_step :: "sessions \<Rightarrow> session_op timed \<Rightarrow> sessions" where
  "session_step s (OpCreate username random, t1, t2) = snd (Create s username random t1 t2)"
| "session_step s (OpLookup token, t1, t2) = snd (Lookup s token t1 t2)"
| "session_step s (OpDestroy token, t1, t2) = Destroy s token"
| "session_step s (OpDestroyUser username, t1, t2) = DestroyUser s username"
| "session_step s (OpLen, t1, t2) = snd (Len s t1)"

definition session_owner :: "sessions \<Rightarrow> int \<Rightarrow> string \<Rightarrow> string option" where
  "session_owner s t token =
     (if token = [] then None
      else case Mapping.lookup (sess_m s) token of
          None \<Rightarrow> None
        | Some v \<Rightarrow> if t \<le> s_expires v then Some (s_username v) else None)"

fun session_issues :: "session_op \<Rightarrow> (string \<times> string) option" where
  "session_issues (OpCreate username (Some b)) =
     (if RawURL_Encode b = [] then None else Some (RawURL_Encode b, username))"
| "session_issues _ = None"

fun session_uses :: "session_op \<Rightarrow> string option" where
  "session_uses (OpLookup token) = Some token"
| "session_uses _ = None"

fun session_revokes :: "session_op \<Rightarrow> string \<Rightarrow> string \<Rightarrow> bool" where
  "session_revokes (OpDestroy token) token' username \<longleftrightarrow> token' = token"
| "session_revokes (OpDestroyUser username) token' username' \<longleftrightarrow> username' = username"
| "session_revokes _ _ _ \<longleftrightarrow> False"

lemmas session_defs =
  Create_def Lookup_def Destroy_def DestroyUser_def Len_def sweepLocked_def Let_def

lemma lookup_update_cases:
  "Mapping.lookup (Mapping.update k v m) k' = (if k' = k then Some v else Mapping.lookup m k')"
  by (cases "k' = k") (simp_all add: lookup_update lookup_update_neq)

lemma lookup_delete_cases:
  "Mapping.lookup (Mapping.delete k m) k' = (if k' = k then None else Mapping.lookup m k')"
  by (cases "k' = k") (simp_all add: lookup_delete lookup_delete_neq)

lemmas session_lookup = lookup_update_cases lookup_delete_cases lookup_filter

lemma Lookup_owner: "fst (Lookup s k t1 t2) = session_owner s t1 k"
  by (simp add: session_defs session_owner_def split: option.splits)

interpretation store: token_store session_step session_owner sess_ttl session_issues session_uses
  session_revokes
proof unfold_locales
  fix s :: sessions and e :: "session_op timed"
  show "sess_ttl (session_step s e) = sess_ttl s"
    by (cases "(s, e)" rule: session_step.cases) (simp_all add: session_defs split: option.splits)
next
  fix t t' :: int and s k u
  assume "t \<le> t'" and "session_owner s t' k = Some u"
  then show "session_owner s t k = Some u"
    by (auto simp: session_owner_def split: if_splits option.splits)
next
  fix t1 t2 t :: int and op k u s
  assume "t1 \<le> t2" "t2 \<le> t" "session_issues op = Some (k, u)"
  then show "session_owner (session_step s (op, t1, t2)) t k = (if t \<le> t1 + sess_ttl s then Some u else None)"
    by (cases op rule: session_issues.cases)
      (auto simp: session_defs session_owner_def session_lookup split: if_splits)
next
  fix t1 t2 t :: int and op k s
  assume "t1 \<le> t2" "t2 \<le> t" "session_uses op = Some k"
  then show "session_owner (session_step s (op, t1, t2)) t k =
      (case session_owner s t1 k of None \<Rightarrow> None | Some u \<Rightarrow> if t \<le> t2 + sess_ttl s then Some u else None)"
    by (cases op)
      (auto simp: session_defs session_owner_def session_lookup split: option.splits)
next
  fix t1 t2 t :: int and op k s
  assume "t1 \<le> t2" "t2 \<le> t" "\<nexists>u. session_issues op = Some (k, u)" "session_uses op \<noteq> Some k"
  then show "session_owner (session_step s (op, t1, t2)) t k =
      (case session_owner s t k of None \<Rightarrow> None | Some u \<Rightarrow> if session_revokes op k u then None else Some u)"
    by (cases op)
      (auto simp: session_defs session_owner_def session_lookup split: option.splits if_splits)
qed

subsection \<open>Properties\<close>

lemma session_owner_New: "session_owner (NewSessions ttl) t k = None"
  by (simp add: session_owner_def NewSessions_def Let_def)

lemma session_owner_Destroy: "session_owner (Destroy s k) t k = None"
  by (simp add: session_owner_def Destroy_def session_lookup)

lemma session_owner_DestroyUser:
  "session_owner s t k = Some u \<Longrightarrow> session_owner (DestroyUser s u) t k = None"
  by (auto simp: session_owner_def DestroyUser_def session_lookup split: if_splits option.splits)

text \<open>C19: logging out, and changing a user's password, is final: once a token was destroyed, or
  all tokens of its user, no later sequence of operations of the store brings it back, short
  of its being issued again.\<close>

theorem session_revocation_final:
  assumes "clocked c es" and "end_time c es \<le> t1"
    and "\<forall>e \<in> set es. \<nexists>u. session_issues (fst e) = Some (k, u)"
    and "s' = Destroy s k \<or> (s' = DestroyUser s u \<and> fst (Lookup s k c c) = Some u)"
  shows "fst (Lookup (foldl session_step s' es) k t1 t2) = None"
proof -
  have "session_owner s' c k = None"
    using assms(4)
  proof (elim disjE conjE)
    assume "s' = DestroyUser s u" "fst (Lookup s k c c) = Some u"
    then show ?thesis using session_owner_DestroyUser [of s c k u] by (simp only: Lookup_owner)
  qed (simp only: session_owner_Destroy)
  from store.dead_run [OF assms(1,2) this assms(3)] show ?thesis by (simp add: Lookup_owner)
qed

lemma example_tokens:
  "RawURL_Encode [1, 2, 3] = ''AQID''" "RawURL_Encode [4, 5, 6] = ''BAUG''"
  by (simp_all add: b64_char_def url_alphabet_def Let_def)

theorem session_revocation_final_witness:
  "fst (Lookup (foldl session_step
      (Destroy (session_step (NewSessions 100) (OpCreate ''bob'' (Some [1, 2, 3]), 0, 0)) ''AQID'')
      [(OpCreate ''bob'' (Some [4, 5, 6]), 7, 8), (OpLookup ''AQID'', 9, 9)]) ''AQID'' 10 10) = None"
  by (rule session_revocation_final [where c = 1, OF _ _ _ disjI1 [OF refl]])
    (simp_all add: example_tokens del: RawURL_Encode.simps)

text \<open>a token lets in only whom it was issued to: whatever a lookup answers in a store that
  started empty, a session was created for that user with that very token.\<close>

theorem session_authentic:
  assumes "clocked c es" and "end_time c es \<le> t1"
    and "fst (Lookup (foldl session_step (NewSessions ttl) es) k t1 t2) = Some u"
  shows "\<exists>b t t'. (OpCreate u (Some b), t, t') \<in> set es \<and> k = RawURL_Encode b"
proof -
  have "session_owner (foldl session_step (NewSessions ttl) es) t1 k = Some u"
    using assms(3) by (simp add: Lookup_owner)
  from store.owner_origin [OF assms(1,2) this] obtain e
    where e: "e \<in> set es" "session_issues (fst e) = Some (k, u)"
    by (simp only: session_owner_New) blast
  obtain op t t' where op: "e = (op, t, t')" by (cases e)
  from e(2) have "\<exists>b. op = OpCreate u (Some b) \<and> k = RawURL_Encode b"
    by (cases op rule: session_issues.cases) (simp_all add: op split: if_splits)
  with e(1) op show ?thesis by blast
qed

lemma example_session:
  "fst (Lookup (foldl session_step (NewSessions 100) [(OpCreate ''bob'' (Some [1, 2, 3]), 0, 0)])
     ''AQID'' 5 5) = Some ''bob''"
  by (simp add: session_defs NewSessions_def session_lookup example_tokens del: RawURL_Encode.simps)

theorem session_authentic_witness:
  "\<exists>b t t'. (OpCreate ''bob'' (Some b), t, t') \<in> set [(OpCreate ''bob'' (Some [1, 2, 3]), 0 :: int, 0 :: int)]
     \<and> ''AQID'' = RawURL_Encode b"
  by (rule session_authentic [where c = 0, OF _ _ example_session]) simp_all

text \<open>the expiry slides: after a successful lookup the token is good for the whole of the
  store's span, whatever else happens to other tokens and users, and without another use it is
  refused from then on.\<close>

theorem session_sliding_expiry:
  assumes "t1 \<le> t2" and "fst (Lookup s k t1 t2) = Some u" and "clocked t2 es" and "end_time t2 es \<le> t"
    and "\<forall>e \<in> set es. (\<nexists>u. session_issues (fst e) = Some (k, u)) \<and> session_uses (fst e) \<noteq> Some k
      \<and> \<not> session_revokes (fst e) k u"
  shows "fst (Lookup (foldl session_step (snd (Lookup s k t1 t2)) es) k t t')
    = (if t \<le> t2 + sess_ttl s then Some u else None)"
proof -
  let ?s = "snd (Lookup s k t1 t2)"
  have t: "t2 \<le> t" using assms(3,4) clocked_end by (meson order_trans)
  have o: "session_owner ?s t k = (if t \<le> t2 + sess_ttl s then Some u else None)"
    using store.owner_use [OF assms(1) t, of "OpLookup k" k s] assms(2) by (simp add: Lookup_owner)
  have ttl: "sess_ttl ?s = sess_ttl s" using store.ttl_step [of s "(OpLookup k, t1, t2)"] by simp
  show ?thesis
  proof (cases "t \<le> t2 + sess_ttl s")
    case True
    then show ?thesis
      using store.kept_run [OF assms(3,4), of ?s k u] assms(5) o ttl by (simp add: Lookup_owner)
  next
    case False
    then show ?thesis
      using store.idle_run [OF assms(3,4), of ?s k] assms(5) o by (simp add: Lookup_owner)
  qed
qed

theorem session_sliding_expiry_witness:
  "fst (Lookup (foldl session_step (snd (Lookup (foldl session_step (NewSessions 100)
      [(OpCreate ''bob'' (Some [1, 2, 3]), 0, 0)]) ''AQID'' 5 5))
      [(OpLen, 60, 60), (OpDestroyUser ''eve'', 90, 90)]) ''AQID'' 105 105) = Some ''bob''"
proof -
  have "sess_ttl (foldl session_step (NewSessions 100) [(OpCreate ''bob'' (Some [1, 2, 3]), 0, 0)]) = 100"
    by (simp only: store.ttl_run) (simp add: NewSessions_def)
  then show ?thesis
    using session_sliding_expiry [OF _ example_session, of
        "[(OpLen, 60, 60), (OpDestroyUser ''eve'', 90, 90)]" 105 105] by simp
qed

text \<open>tokens never collide: the token of a session carries its 32 random bytes, so two
  sessions get the same token only if the generator repeats itself.\<close>

theorem session_tokens_distinct:
  "(fst (Create s u (Some b) t1 t2) = fst (Create s' u' (Some b') t1' t2')) = (b = b')
   \<and> (length b = 32 \<longrightarrow> (\<exists>k. fst (Create s u (Some b) t1 t2) = Some k \<and> length k = 43 \<and> k \<noteq> []))"
proof -
  have "fst (Create s u (Some b) t1 t2) = Some (RawURL_Encode b)" for s u b t1 t2
    by (simp add: Create_def Let_def)
  moreover have "RawURL_Encode b \<noteq> []" if "length b = 32"
    using that RawURL_Encode_length [of b] by (cases "RawURL_Encode b") simp_all
  ultimately show ?thesis using token.enc_inject by (simp add: RawURL_Encode_length)
qed

theorem session_tokens_distinct_witness:
  "\<exists>k. fst (Create (NewSessions 0) ''bob'' (Some (replicate 32 7)) 1 2) = Some k \<and> length k = 43"
  using session_tokens_distinct [of "NewSessions 0" "''bob''" "replicate 32 7" 1 2
      "NewSessions 0" "''bob''" "replicate 32 7" 1 2] by auto

end
