(* ===== verification/Throttle.thy ===== *)
theory Throttle
  imports Go_Time "HOL-Library.Mapping"
begin

section \<open>Login throttling: internal/auth/throttle.go\<close>

text \<open>
  Failed attempts are counted per key. As for the sessions, an operation is one step under the
  lock, with the clock reading it makes as an argument. A record of attempts is shared through
  a pointer in the code, which only these operations follow, so the map holds it directly.
\<close>

record attempts =
  a_count :: int
  a_blocked :: int
  a_last :: int

record throttle =
  thr_m :: "(string, attempts) mapping"
  thr_max :: int
  thr_window :: int

definition NewThrottle :: "int \<Rightarrow> int \<Rightarrow> throttle" where
  "NewThrottle mx window =
     (let mx = (if mx \<le> 0 then 10 else mx);
          window = (if window \<le> 0 then 15 * Minute else window)
      in \<lparr>thr_m = Mapping.empty, thr_max = mx, thr_window = window\<rparr>)"

definition Allowed :: "throttle \<Rightarrow> string \<Rightarrow> int \<Rightarrow> bool \<times> throttle" where
  "Allowed th key now =
     (case Mapping.lookup (thr_m th) key of
        None \<Rightarrow> (True, th)
      | Some a \<Rightarrow>
          if \<not> IsZero (a_blocked a) then
            (if now < a_blocked a then (False, th)
             else (True, th\<lparr>thr_m := Mapping.delete key (thr_m th)\<rparr>))
          else if time_Sub now (a_last a) > thr_window th then
            (True, th\<lparr>thr_m := Mapping.delete key (thr_m th)\<rparr>)
          else (True, th))"

definition Fail :: "throttle \<Rightarrow> string \<Rightarrow> int \<Rightarrow> throttle" where
  "Fail th key now =
     (let a = (case Mapping.lookup (thr_m th) key of
                 None \<Rightarrow> \<lparr>a_count = 0, a_blocked = 0, a_last = 0\<rparr>
               | Some a \<Rightarrow>
                   if time_Sub now (a_last a) > thr_window th
                   then \<lparr>a_count = 0, a_blocked = 0, a_last = 0\<rparr> else a);
          a = a\<lparr>a_count := a_count a + 1\<rparr>;
          a = a\<lparr>a_last := now\<rparr>;
          a = (if a_count a \<ge> thr_max th then a\<lparr>a_blocked := now + thr_window th\<rparr> else a)
      in th\<lparr>thr_m := Mapping.update key a (thr_m th)\<rparr>)"

definition Succeed :: "throttle \<Rightarrow> string \<Rightarrow> throttle" where
  "Succeed th key = th\<lparr>thr_m := Mapping.delete key (thr_m th)\<rparr>"

lemmas throttle_defs = Allowed_def Fail_def Succeed_def Let_def IsZero_def

lemma throttle_lookup:
  "Mapping.lookup (Mapping.update k v m) k' = (if k' = k then Some v else Mapping.lookup m k')"
  "Mapping.lookup (Mapping.delete k m) k' = (if k' = k then None else Mapping.lookup m k')"
  by (cases "k' = k"; simp add: lookup_update lookup_update_neq lookup_delete lookup_delete_neq)+

lemma throttle_fixed [simp]:
  "thr_max (snd (Allowed th k t)) = thr_max th" "thr_window (snd (Allowed th k t)) = thr_window th"
  "thr_max (Fail th k t) = thr_max th" "thr_window (Fail th k t) = thr_window th"
  "thr_max (Succeed th k) = thr_max th" "thr_window (Succeed th k) = thr_window th"
  by (simp_all add: throttle_defs split: option.splits)

subsection \<open>Keys do not interfere\<close>

datatype throttle_op = OpAllowed string int | OpFail string int | OpSucceed string

fun throttle_step :: "throttle \<Rightarrow> throttle_op \<Rightarrow> throttle" where
  "throttle_step th (OpAllowed key now) = snd (Allowed th key now)"
| "throttle_step th (OpFail key now) = Fail th key now"
| "throttle_step th (OpSucceed key) = Succeed th key"

fun throttle_key :: "throttle_op \<Rightarrow> string" where
  "throttle_key (OpAllowed key now) = key"
| "throttle_key (OpFail key now) = key"
| "throttle_key (OpSucceed key) = key"

definition throttle_view :: "throttle \<Rightarrow> string \<Rightarrow> attempts option \<times> int \<times> int" where
  "throttle_view th key = (Mapping.lookup (thr_m th) key, thr_max th, thr_window th)"

lemma Allowed_view: "fst (Allowed th k t) \<longleftrightarrow>
  (case throttle_view th k of (None, _) \<Rightarrow> True
   | (Some a, _) \<Rightarrow> a_blocked a = 0 \<or> a_blocked a \<le> t)"
  by (auto simp: throttle_view_def throttle_defs split: option.splits)

interpretation per_key: keyed_state throttle_step throttle_key throttle_view
proof unfold_locales
  fix op k th
  assume "throttle_key op \<noteq> k"
  then show "throttle_view (throttle_step th op) k = throttle_view th k"
    by (cases op) (auto simp: throttle_view_def throttle_defs throttle_lookup split: option.splits)
next
  fix op k th th'
  assume "throttle_key op = k" and "throttle_view th k = throttle_view th' k"
  then show "throttle_view (throttle_step th op) k = throttle_view (throttle_step th' op) k"
    by (cases op) (auto simp: throttle_view_def throttle_defs throttle_lookup split: option.splits)
qed

subsection \<open>Guessing\<close>

text \<open>
  A client that keeps guessing: each attempt asks \<^verbatim>\<open>Allowed\<close> and, when it may proceed, has
  its credentials checked and fails. The result is the times at which credentials were
  checked, and the throttle afterwards.
\<close>

fun guess :: "throttle \<Rightarrow> string \<Rightarrow> int list \<Rightarrow> int list \<times> throttle" where
  "guess th key [] = ([], th)"
| "guess th key (t # ts) =
     (case Allowed th key t of
        (False, th') \<Rightarrow> guess th' key ts
      | (True, th') \<Rightarrow>
          (let (checked, th'') = guess (Fail th' key t) key ts in (t # checked, th'')))"

definition recent :: "int \<Rightarrow> int list \<Rightarrow> int \<Rightarrow> nat" where
  "recent w ps t = length (filter (\<lambda>p. t - w < p \<and> p \<le> t) ps)"

text \<open>What the record of a key says about the checks so far.\<close>

definition guess_inv :: "throttle \<Rightarrow> string \<Rightarrow> int list \<Rightarrow> int \<Rightarrow> bool" where
  "guess_inv th key ps now \<longleftrightarrow>
     0 < thr_max th \<and> 0 < thr_window th \<and> 0 < now \<and> (\<forall>p \<in> set ps. p \<le> now)
     \<and> (\<forall>t. int (recent (thr_window th) ps t) \<le> thr_max th)
     \<and> (case Mapping.lookup (thr_m th) key of
          None \<Rightarrow> ps = []
        | Some a \<Rightarrow> 0 < a_last a \<and> (\<forall>p \<in> set ps. p \<le> a_last a) \<and> a_last a \<le> now
            \<and> int (length (filter (\<lambda>p. a_last a - thr_window th < p) ps)) \<le> a_count a
            \<and> (a_blocked a = 0 \<and> a_count a < thr_max th
               \<or> a_blocked a = a_last a + thr_window th \<and> a_count a = thr_max th))"

lemma recent_snoc:
  assumes "\<forall>p \<in> set ps. p \<le> t" and "\<forall>x. int (recent w ps x) \<le> m"
    and "int (length (filter (\<lambda>p. t - w < p) ps)) < m"
  shows "int (recent w (ps @ [t]) x) \<le> m"
proof (cases "x - w < t \<and> t \<le> x")
  case True
  then have "x - w < p \<and> p \<le> x \<Longrightarrow> t - w < p" for p by linarith
  then have "length (filter (\<lambda>p. x - w < p \<and> p \<le> x) ps) \<le> length (filter (\<lambda>p. t - w < p) ps)"
    by (induction ps) auto
  then show ?thesis using assms(3) True by (simp add: recent_def)
next
  case False
  then show ?thesis using assms(2) by (auto simp: recent_def)
qed

lemma filter_recent_mono:
  "(l :: int) \<le> t \<Longrightarrow> length (filter (\<lambda>p. t - w < p) ps) \<le> length (filter (\<lambda>p. l - w < p) ps)"
  by (induction ps) auto

lemma filter_recent_empty:
  "\<forall>p \<in> set ps. p \<le> l \<Longrightarrow> l + w \<le> t \<Longrightarrow> filter (\<lambda>p. t - w < (p :: int)) ps = []"
  by (induction ps) auto

lemma guess_inv_fail:
  assumes "guess_inv th key ps now" and "now \<le> t" and "thr_max th' = thr_max th"
    and "thr_window th' = thr_window th"
    and "int (length (filter (\<lambda>p. t - thr_window th < p) ps)) \<le> c" and "0 \<le> c" and "c < thr_max th"
    and "Mapping.lookup (thr_m (Fail th' key t)) key =
      Some \<lparr>a_count = c + 1, a_blocked = (if c + 1 \<ge> thr_max th then t + thr_window th else 0), a_last = t\<rparr>"
  shows "guess_inv (Fail th' key t) key (ps @ [t]) t"
  using assms recent_snoc [of ps t "thr_window th" "thr_max th"]
  by (force simp: guess_inv_def split: option.splits)

lemma guess_inv_step:
  assumes "guess_inv th key ps now" and "now \<le> t"
  shows "guess_inv (snd (Allowed th key t)) key ps t \<or> fst (Allowed th key t)"
    and "fst (Allowed th key t) \<Longrightarrow> guess_inv (Fail (snd (Allowed th key t)) key t) key (ps @ [t]) t"
proof -
  show "guess_inv (snd (Allowed th key t)) key ps t \<or> fst (Allowed th key t)"
    using assms by (auto simp: guess_inv_def Allowed_def split: option.splits)
  assume ok: "fst (Allowed th key t)"
  let ?th = "snd (Allowed th key t)"
  have w: "0 < thr_window th" "0 < thr_max th" using assms(1) by (simp_all add: guess_inv_def)
  consider
      (fresh) "filter (\<lambda>p. t - thr_window th < p) ps = []" "Mapping.lookup (thr_m ?th) key = None"
    | (more) a where "Mapping.lookup (thr_m ?th) key = Some a" "a_blocked a = 0"
        "a_count a < thr_max th" "time_Sub t (a_last a) \<le> thr_window th" "0 \<le> a_count a"
        "int (length (filter (\<lambda>p. t - thr_window th < p) ps)) \<le> a_count a"
  proof (cases "Mapping.lookup (thr_m th) key")
    case None
    then show ?thesis using assms fresh by (simp add: guess_inv_def Allowed_def)
  next
    case (Some a)
    then have a: "\<forall>p \<in> set ps. p \<le> a_last a" "a_last a \<le> t" "0 < a_last a"
      "int (length (filter (\<lambda>p. a_last a - thr_window th < p) ps)) \<le> a_count a"
      "a_blocked a = 0 \<and> a_count a < thr_max th \<or> a_blocked a = a_last a + thr_window th"
      using assms by (auto simp: guess_inv_def)
    show ?thesis
    proof (cases "a_blocked a = 0 \<and> time_Sub t (a_last a) \<le> thr_window th")
      case True
      then show ?thesis
        using more [of a] Some a filter_recent_mono [OF a(2), of "thr_window th" ps] w
        by (auto simp: Allowed_def IsZero_def)
    next
      case False
      then have "a_last a + thr_window th \<le> t"
        using ok Some a w time_Sub_greater [of "thr_window th" t "a_last a"]
        by (auto simp: Allowed_def IsZero_def split: if_splits)
      with filter_recent_empty [OF a(1)] False show ?thesis
        using fresh ok Some by (auto simp: Allowed_def IsZero_def throttle_lookup split: if_splits)
    qed
  qed
  then show "guess_inv (Fail ?th key t) key (ps @ [t]) t"
  proof cases
    case fresh
    then show ?thesis
      using w by (intro guess_inv_fail [OF assms, where c = 0]) (simp_all add: Fail_def throttle_lookup Let_def)
  next
    case (more a)
    then show ?thesis
      using w
      by (intro guess_inv_fail [OF assms, where c = "a_count a"]) (simp_all add: Fail_def throttle_lookup Let_def)
  qed
qed

lemma guess_inv_run:
  assumes "guess_inv th key ps now" and "sorted (now # ts)" and "guess th key ts = (checked, th')"
  shows "\<exists>now'. guess_inv th' key (ps @ checked) now'"
  using assms
proof (induction th key ts arbitrary: ps now checked rule: guess.induct)
  case (1 th key)
  then show ?case by auto
next
  case (2 th key t ts)
  obtain ok th1 where A: "Allowed th key t = (ok, th1)" by (cases "Allowed th key t")
  have t: "now \<le> t" "sorted (t # ts)" using 2(4) by auto
  show ?case
  proof (cases ok)
    case False
    then have "guess_inv th1 key ps t" "guess th1 key ts = (checked, th')"
      using guess_inv_step(1) [OF 2(3) t(1)] 2(5) A by auto
    then show ?thesis using 2(2) [OF A [symmetric]] False t(2) by blast
  next
    case True
    obtain cs where cs: "guess (Fail th1 key t) key ts = (cs, th')" "checked = t # cs"
      using 2(5) A True by (auto split: prod.splits)
    have "guess_inv (Fail th1 key t) key (ps @ [t]) t"
      using guess_inv_step(2) [OF 2(3) t(1)] A True by simp
    from 2(1) [OF A [symmetric] eqTrueI [OF True] this t(2) cs(1)] show ?thesis by (simp add: cs(2))
  qed
qed

subsection \<open>Properties\<close>

lemma guess_inv_New:
  assumes "th = NewThrottle mx window" and "0 < now"
  shows "guess_inv th key [] now"
  using assms by (auto simp: guess_inv_def NewThrottle_def Let_def recent_def Minute_def Second_def)

lemma guess_inv_absent:
  assumes "Mapping.lookup (thr_m th) key = None" and "0 < thr_max th" and "0 < thr_window th" and "0 < now"
  shows "guess_inv th key [] now"
  using assms by (simp add: guess_inv_def recent_def)

lemma guess_fixed:
  "thr_max (snd (guess th key ts)) = thr_max th \<and> thr_window (snd (guess th key ts)) = thr_window th"
proof (induction ts arbitrary: th)
  case (Cons t ts)
  then show ?case
    using throttle_fixed(1,2) [of th key t]
    by (cases "Allowed th key t"; cases "fst (Allowed th key t)") (simp_all add: split_def Let_def)
qed simp

text \<open>guessing is bounded: whoever keeps trying one key, at any times and as often as they
  like, has credentials checked at most \<open>max\<close> times in any span of one window.\<close>

theorem throttle_guess_bound:
  assumes "sorted ts" and "\<forall>t \<in> set ts. 0 < t"
    and "guess (NewThrottle mx window) key ts = (checked, th')"
  shows "int (recent (thr_window (NewThrottle mx window)) checked t) \<le> thr_max (NewThrottle mx window)"
proof (cases ts)
  case Nil
  then show ?thesis using assms(3) by (auto simp: recent_def NewThrottle_def Let_def)
next
  case (Cons u us)
  then have "guess_inv (NewThrottle mx window) key [] u" "sorted (u # ts)"
    using assms(1,2) guess_inv_New by auto
  from guess_inv_run [OF this assms(3)] obtain now where i: "guess_inv th' key checked now" by auto
  with guess_fixed [of "NewThrottle mx window" key ts] assms(3) show ?thesis
    by (simp add: guess_inv_def)
qed

theorem throttle_guess_bound_witness:
  "int (recent 100 [10, 20] 50) \<le> 2
    \<and> fst (guess (NewThrottle 2 100) ''root|10.0.0.9'' [10, 20, 30, 40]) = [10, 20]"
proof -
  let ?g = "guess (NewThrottle 2 100) ''root|10.0.0.9'' [10, 20, 30, 40]"
  have f: "fst ?g = [10, 20]"
    by (simp add: NewThrottle_def throttle_defs throttle_lookup time_Sub_def)
  then have "?g = ([10, 20], snd ?g)" by (simp add: prod_eq_iff)
  from throttle_guess_bound [OF _ _ this, of 50] f show ?thesis by (simp add: NewThrottle_def)
qed

text \<open>what others do never locks anybody out: whether a key may proceed depends on that key's
  own attempts only, however many operations on other keys lie between.\<close>

theorem throttle_keys_independent:
  "fst (Allowed (foldl throttle_step th ops) key t)
    = fst (Allowed (foldl throttle_step th (filter (\<lambda>op. throttle_key op = key) ops)) key t)"
  by (simp add: Allowed_view per_key.noninterference [of th ops key])

lemma fail_run:
  assumes "Mapping.lookup (thr_m th) key = Some a" and "a_count a = int n" and "a_blocked a = 0"
    and "sorted (a_last a # ts)" and "\<forall>i < length ts. ts ! i - (a_last a # ts) ! i \<le> thr_window th"
    and "0 < thr_window th" and "int (n + length ts) < thr_max th"
  shows "Mapping.lookup (thr_m (foldl (\<lambda>th t. Fail th key t) th ts)) key
    = Some \<lparr>a_count = int (n + length ts), a_blocked = 0, a_last = last (a_last a # ts)\<rparr>"
  using assms
proof (induction ts arbitrary: th a n)
  case Nil
  then show ?case by simp
next
  case (Cons t ts)
  have "t - a_last a \<le> thr_window th" using Cons.prems(5) by auto
  then have s: "\<not> time_Sub t (a_last a) > thr_window th"
    using time_Sub_le [of t "a_last a" "thr_window th"] Cons.prems(6) by simp
  have 1: "Mapping.lookup (thr_m (Fail th key t)) key = Some \<lparr>a_count = int (Suc n), a_blocked = 0, a_last = t\<rparr>"
    using Cons.prems s by (simp add: Fail_def throttle_lookup Let_def)
  have 2: "\<forall>i < length ts. ts ! i - (t # ts) ! i \<le> thr_window th"
    using Cons.prems(5) by fastforce
  show ?case using Cons.IH [OF 1, of "Suc n"] 2 Cons.prems by simp
qed

lemma fail_first:
  assumes "Mapping.lookup (thr_m th) key = None"
  shows "Mapping.lookup (thr_m (Fail th key t)) key
    = Some \<lparr>a_count = 1, a_blocked = (if thr_max th \<le> 1 then t + thr_window th else 0), a_last = t\<rparr>"
  using assms by (simp add: Fail_def throttle_lookup Let_def)

lemma fail_more:
  assumes "Mapping.lookup (thr_m th) key = Some \<lparr>a_count = c, a_blocked = 0, a_last = l\<rparr>"
    and "t - l \<le> thr_window th" and "0 < thr_window th"
  shows "Mapping.lookup (thr_m (Fail th key t)) key
    = Some \<lparr>a_count = c + 1, a_blocked = (if thr_max th \<le> c + 1 then t + thr_window th else 0), a_last = t\<rparr>"
  using assms time_Sub_le [of t l "thr_window th"] by (simp add: Fail_def throttle_lookup Let_def)

lemma fail_fixed:
  "thr_max (foldl (\<lambda>th t. Fail th key t) th ts) = thr_max th"
  "thr_window (foldl (\<lambda>th t. Fail th key t) th ts) = thr_window th"
  by (induction ts arbitrary: th) simp_all

text \<open>The record after a row of failures that stays below the limit, and after one more.\<close>

lemma fail_row:
  assumes "Mapping.lookup (thr_m th) key = None" and "sorted (t # ts)"
    and "\<forall>i < length ts. ts ! i - (t # ts) ! i \<le> thr_window th"
    and "0 < thr_window th" and "int (length (t # ts)) \<le> thr_max th"
  shows "Mapping.lookup (thr_m (foldl (\<lambda>th t. Fail th key t) th (t # ts))) key
    = Some \<lparr>a_count = int (length (t # ts)),
            a_blocked = (if int (length (t # ts)) = thr_max th then last (t # ts) + thr_window th else 0),
            a_last = last (t # ts)\<rparr>"
proof (cases ts rule: rev_cases)
  case Nil
  then show ?thesis using fail_first [OF assms(1), of t] assms(5) by simp
next
  case (snoc us u)
  let ?th = "foldl (\<lambda>th t. Fail th key t) (Fail th key t) us"
  have f: "Mapping.lookup (thr_m (Fail th key t)) key = Some \<lparr>a_count = 1, a_blocked = 0, a_last = t\<rparr>"
    using fail_first [OF assms(1), of t] assms(5) snoc by simp
  have gaps: "\<forall>i < length us. us ! i - (t # us) ! i \<le> thr_window (Fail th key t)"
  proof (intro allI impI)
    fix i assume i: "i < length us"
    then have "(t # us @ [u]) ! i = (t # us) ! i" by (cases i) (simp_all add: nth_append)
    with i assms(3) [rule_format, of i] show "us ! i - (t # us) ! i \<le> thr_window (Fail th key t)"
      by (simp add: snoc nth_append)
  qed
  have "Mapping.lookup (thr_m ?th) key
      = Some \<lparr>a_count = int (1 + length us), a_blocked = 0, a_last = last (t # us)\<rparr>"
    using fail_run [OF f, of 1 us] gaps assms(2,4,5) by (simp add: snoc sorted_append)
  moreover have "u - last (t # us) \<le> thr_window ?th"
    using assms(3) [rule_format, of "length us"]
    by (cases us rule: rev_cases) (simp_all add: snoc nth_append nth_Cons' fail_fixed)
  ultimately show ?thesis
    using fail_more [of ?th key _ "last (t # us)" u] assms(4,5) by (simp add: snoc fail_fixed)
qed

text \<open>a key is blocked by exactly \<open>max\<close> failures in a row, with no pause longer than the
  window between them, for exactly one window; a success clears it at once.\<close>

theorem throttle_block_exact:
  assumes "Mapping.lookup (thr_m th) key = None" and "sorted (t # ts)" and "0 < t"
    and "\<forall>i < length ts. ts ! i - (t # ts) ! i \<le> thr_window th" and "0 < thr_window th"
    and "th' = foldl (\<lambda>th t. Fail th key t) th (t # ts)"
  shows "(int (length (t # ts)) < thr_max th \<longrightarrow> fst (Allowed th' key now))
    \<and> (int (length (t # ts)) = thr_max th \<longrightarrow>
        (fst (Allowed th' key now) \<longleftrightarrow> last (t # ts) + thr_window th \<le> now))
    \<and> fst (Allowed (Succeed th' key) key now)"
proof -
  have "0 < last (t # ts)" using assms(2,3) last_in_set [of "t # ts"] by fastforce
  then show ?thesis
    using fail_row [OF assms(1,2,4,5)] assms(5,6)
    by (auto simp: Allowed_view throttle_view_def Succeed_def throttle_lookup)
qed

theorem throttle_block_exact_witness:
  "\<not> fst (Allowed (foldl (\<lambda>th t. Fail th ''k'' t) (NewThrottle 3 100) [10, 20, 30]) ''k'' 129)
   \<and> fst (Allowed (foldl (\<lambda>th t. Fail th ''k'' t) (NewThrottle 3 100) [10, 20, 30]) ''k'' 130)"
proof -
  have n: "Mapping.lookup (thr_m (NewThrottle 3 100)) ''k'' = None"
    "thr_max (NewThrottle 3 100) = 3" "thr_window (NewThrottle 3 100) = 100"
    by (simp_all add: NewThrottle_def)
  have g: "\<forall>i < length [20, 30 :: int]. [20, 30] ! i - [10, 20, 30] ! i \<le> thr_window (NewThrottle 3 100)"
    by (simp add: n less_Suc_eq)
  show ?thesis
    using throttle_block_exact [OF n(1) _ _ g _ refl, of 129] throttle_block_exact [OF n(1) _ _ g _ refl, of 130]
    by (simp add: n)
qed

subsection \<open>Attempts that overlap\<close>

text \<open>The check and the failure are two steps: clients that overlap can all pass the check before
  the first of them fails, and then the limit alone does not bind them.\<close>

lemma throttle_overlap:
  assumes "Mapping.lookup (thr_m th) key = None"
  shows "\<forall>t \<in> set ts. fst (Allowed (foldl (\<lambda>th t. snd (Allowed th key t)) th us) key t)"
  using assms by (induction us) (simp_all add: Allowed_def)

text \<open>
  What does: with at most \<open>k\<close> attempts under way at once, \<open>n\<close> of them now, the failures of any
  window exceed the limit by less than \<open>k\<close>. Once the limit is reached, what still fails is what
  was already under way.
\<close>

definition crowd_inv :: "throttle \<Rightarrow> string \<Rightarrow> nat \<Rightarrow> nat \<Rightarrow> int list \<Rightarrow> int \<Rightarrow> bool" where
  "crowd_inv th key k n ps now \<longleftrightarrow>
     0 < thr_max th \<and> 0 < thr_window th \<and> 0 < now \<and> n \<le> k \<and> (\<forall>p \<in> set ps. p \<le> now)
     \<and> (\<forall>t. ps \<noteq> [] \<longrightarrow> int (recent (thr_window th) ps t) < thr_max th + int k)
     \<and> (case Mapping.lookup (thr_m th) key of
          None \<Rightarrow> \<forall>p \<in> set ps. p + thr_window th \<le> now
        | Some a \<Rightarrow> 0 < a_last a \<and> (\<forall>p \<in> set ps. p \<le> a_last a) \<and> a_last a \<le> now
            \<and> int (length (filter (\<lambda>p. a_last a - thr_window th < p) ps)) \<le> a_count a
            \<and> (a_blocked a = 0 \<and> a_count a < thr_max th
               \<or> a_blocked a = a_last a + thr_window th \<and> thr_max th \<le> a_count a
                 \<and> int (length (filter (\<lambda>p. a_last a - thr_window th < p) ps)) + int n < thr_max th + int k))"

lemma crowd_inv_start:
  assumes "th = NewThrottle mx window" and "0 < now"
  shows "crowd_inv th key k 0 [] now"
  using assms by (auto simp: crowd_inv_def NewThrottle_def Let_def recent_def Minute_def Second_def)

lemma crowd_inv_view:
  assumes "throttle_view th' key = throttle_view th key"
  shows "crowd_inv th' key k n ps now = crowd_inv th key k n ps now"
proof -
  have "Mapping.lookup (thr_m th') key = Mapping.lookup (thr_m th) key" "thr_max th' = thr_max th"
    "thr_window th' = thr_window th"
    using assms by (simp_all add: throttle_view_def)
  then show ?thesis by (simp only: crowd_inv_def)
qed

lemma crowd_refused:
  assumes "crowd_inv th key k n ps now" and "now \<le> t" and "Allowed th key t = (False, th')"
  shows "crowd_inv th' key k n ps t"
  using assms by (auto simp: crowd_inv_def Allowed_def split: option.splits if_splits)

lemma crowd_asked:
  assumes inv: "crowd_inv th key k n ps now" and t: "now \<le> t" and n: "n < k"
    and ok: "Allowed th key t = (True, th')"
  shows "crowd_inv th' key k (Suc n) ps t"
proof (cases "Mapping.lookup (thr_m th) key")
  case None
  then show ?thesis using assms by (fastforce simp: crowd_inv_def Allowed_def)
next
  case (Some a)
  then have a: "\<forall>p \<in> set ps. p \<le> a_last a" "a_last a \<le> t" "0 < a_last a" "0 < thr_window th"
    "a_blocked a = 0 \<and> a_count a < thr_max th \<or> a_blocked a = a_last a + thr_window th"
    using inv t by (auto simp: crowd_inv_def)
  show ?thesis
  proof (cases "a_blocked a = 0 \<and> time_Sub t (a_last a) \<le> thr_window th")
    case True
    then have "th' = th" using ok Some by (simp add: Allowed_def IsZero_def)
    then show ?thesis using inv t n Some True a by (auto simp: crowd_inv_def)
  next
    case False
    then have late: "a_last a + thr_window th \<le> t"
      using ok Some a time_Sub_greater [of "thr_window th" t "a_last a"]
      by (auto simp: Allowed_def IsZero_def split: if_splits)
    have gone: "th' = th\<lparr>thr_m := Mapping.delete key (thr_m th)\<rparr>"
      using ok Some a False by (auto simp: Allowed_def IsZero_def split: if_splits)
    have "\<forall>p \<in> set ps. p + thr_window th \<le> t" using a(1) late by fastforce
    then show ?thesis using inv t n by (fastforce simp: crowd_inv_def gone throttle_lookup)
  qed
qed

text \<open>A failure, with what its record says before it: \<open>c\<close> failures that count.\<close>

lemma crowd_inv_fail:
  assumes inv: "crowd_inv th key k (Suc n) ps now" and t: "now \<le> t"
    and c: "int (length (filter (\<lambda>p. t - thr_window th < p) ps)) \<le> c" "0 \<le> c"
    and few: "int (length (filter (\<lambda>p. t - thr_window th < p) ps)) + int (Suc n) < thr_max th + int k"
    and row: "Mapping.lookup (thr_m (Fail th key t)) key =
      Some \<lparr>a_count = c + 1, a_blocked = (if c + 1 \<ge> thr_max th then t + thr_window th else 0), a_last = t\<rparr>"
  shows "crowd_inv (Fail th key t) key k n (ps @ [t]) t"
proof -
  have old: "\<forall>p \<in> set ps. p \<le> t" "n \<le> k" "0 < thr_max th" "0 < thr_window th" "0 < t"
    using inv t by (auto simp: crowd_inv_def)
  have "\<forall>x. int (recent (thr_window th) ps x) \<le> thr_max th + int k - 1"
  proof (cases "ps = []")
    case True
    then show ?thesis using old few by (simp add: recent_def)
  next
    case False
    then show ?thesis using inv by (force simp: crowd_inv_def)
  qed
  then have "int (recent (thr_window th) (ps @ [t]) x) \<le> thr_max th + int k - 1" for x
    using few by (intro recent_snoc old) auto
  then have "int (recent (thr_window th) (ps @ [t]) x) < thr_max th + int k" for x
    using zle_diff1_eq by blast
  then show ?thesis using old c few row by (auto simp: crowd_inv_def)
qed

lemma crowd_failed:
  assumes inv: "crowd_inv th key k (Suc n) ps now" and t: "now \<le> t"
  shows "crowd_inv (Fail th key t) key k n (ps @ [t]) t"
proof -
  have w: "0 < thr_window th" "0 < thr_max th" "Suc n \<le> k" using inv by (simp_all add: crowd_inv_def)
  have fresh: "crowd_inv (Fail th key t) key k n (ps @ [t]) t"
    if e: "filter (\<lambda>p. t - thr_window th < p) ps = []"
      and r: "Mapping.lookup (thr_m (Fail th key t)) key =
        Some \<lparr>a_count = 1, a_blocked = (if 1 \<ge> thr_max th then t + thr_window th else 0), a_last = t\<rparr>"
    by (rule crowd_inv_fail [OF inv t, where c = 0]) (use e r w in simp_all)
  show ?thesis
  proof (cases "Mapping.lookup (thr_m th) key")
    case None
    then have "\<forall>p \<in> set ps. p \<le> t - thr_window th" using inv t by (fastforce simp: crowd_inv_def)
    from filter_recent_empty [OF this, of "thr_window th" t] show ?thesis
      by (intro fresh) (simp_all add: Fail_def throttle_lookup Let_def None)
  next
    case (Some a)
    then have a: "\<forall>p \<in> set ps. p \<le> a_last a" "a_last a \<le> t"
      "int (length (filter (\<lambda>p. a_last a - thr_window th < p) ps)) \<le> a_count a"
      and state: "a_blocked a = 0 \<and> a_count a < thr_max th
        \<or> a_blocked a = a_last a + thr_window th \<and> thr_max th \<le> a_count a
          \<and> int (length (filter (\<lambda>p. a_last a - thr_window th < p) ps)) + int (Suc n) < thr_max th + int k"
      using inv t by (auto simp: crowd_inv_def)
    show ?thesis
    proof (cases "time_Sub t (a_last a) > thr_window th")
      case True
      then have "a_last a + thr_window th \<le> t"
        using time_Sub_greater [of "thr_window th" t "a_last a"] w by auto
      from filter_recent_empty [OF a(1) this] show ?thesis
        by (intro fresh) (simp_all add: Fail_def throttle_lookup Let_def Some True)
    next
      case False
      note mono = filter_recent_mono [OF a(2), of "thr_window th" ps]
      show ?thesis
        by (rule crowd_inv_fail [OF inv t, where c = "a_count a"])
          (use mono a(3) state w Some False in \<open>auto simp: Fail_def throttle_lookup Let_def\<close>)
    qed
  qed
qed

end
