(* ===== verification/Api_Base.thy ===== *)
theory Api_Base
  imports Model_Types
begin

section \<open>Requests, replies and errors of the API: internal/api/error.go\<close>

text \<open>
  What every handler of internal/api shares. A handler is a function from the parts of the
  parsed request it reads, and the state it works on, to its reply and the state afterwards.
  An error reply carries one constructor per error of the code; the text of an error of a
  library or of the database is kept as that library reports it.
\<close>

datatype api_error =
    InvalidCredentials
  | TooManyAttempts
  | NotFound
  | NoSearchFields
  | BadBody string
  | BadId string
  | DBFailure db_error
  | MergeFailure string
  | RandomFailure
  | Invalid string

datatype 'a reply = JSON (r_status: int) (r_body: 'a) | Error (r_status: int) (r_error: api_error) | NoContent

text \<open>A request body bound to the form a handler expects; \<open>None\<close> stands for the library's error.\<close>

type_synonym 'f bound = "string + 'f"

lemma reply_status_JSON [simp]: "r_status (JSON s b) = s" "r_status (Error s e) = s"
  by simp_all

end
