(* ===== verification/Auth.thy ===== *)
theory Auth
  imports Session_Store Throttle Api_Base
begin

section \<open>Logging in: internal/api/login.go and middleware.go\<close>

text \<open>
  The handlers over the session store and the throttle. The database is the query for a user
  by name and bcrypt the comparison of a stored hash with a password, both fields of an
  environment record; ShouldBind's decoding of the request body is an argument. Each
  handler takes the clock readings its calls make, in the order it makes them.
\<close>

record auth_env =
  find_user :: "string \<Rightarrow> db_error + user"
  bcrypt_matches :: "string \<Rightarrow> string \<Rightarrow> bool"

record auth_state =
  au_Sessions :: sessions
  au_Throttle :: throttle
  au_Secure :: bool

record cookie =
  ck_Name :: string
  ck_Value :: string
  ck_Path :: string
  ck_HttpOnly :: bool
  ck_Secure :: bool
  ck_StrictSameSite :: bool
  ck_MaxAge :: int

record SessionResponse =
  sr_Username :: string
  sr_MustChangePassword :: bool

definition CookieName :: string where
  "CookieName = ''go-via-session''"

definition throttleKey :: "string \<Rightarrow> string \<Rightarrow> string" where
  "throttleKey remoteAddr username =
     (let host = (case SplitHostPort remoteAddr of None \<Rightarrow> remoteAddr | Some (h, port) \<Rightarrow> h)
      in username @ ''|'' @ host)"

definition ComparePasswords :: "auth_env \<Rightarrow> string \<Rightarrow> string \<Rightarrow> bool" where
  "ComparePasswords env hashedPwd plainPwd = bcrypt_matches env hashedPwd plainPwd"

text \<open>\<^verbatim>\<open>verify\<close> returns the user it authenticated, if any.\<close>

definition verify :: "auth_env \<Rightarrow> auth_state \<Rightarrow> string \<Rightarrow> string \<Rightarrow> string \<Rightarrow> int \<Rightarrow> user option \<times> auth_state" where
  "verify env a username password key t =
     (case find_user env username of
        Inl e \<Rightarrow> (None, a\<lparr>au_Throttle := Fail (au_Throttle a) key t\<rparr>)
      | Inr user \<Rightarrow>
          if \<not> ComparePasswords env (u_Password user) password then
            (None, a\<lparr>au_Throttle := Fail (au_Throttle a) key t\<rparr>)
          else (Some user, a\<lparr>au_Throttle := Succeed (au_Throttle a) key\<rparr>))"

definition setCookie :: "auth_state \<Rightarrow> string \<Rightarrow> int \<Rightarrow> cookie" where
  "setCookie a token maxAge =
     \<lparr>ck_Name = CookieName, ck_Value = token, ck_Path = ''/'', ck_HttpOnly = True,
      ck_Secure = au_Secure a, ck_StrictSameSite = True, ck_MaxAge = maxAge\<rparr>"

text \<open>Binding the login form, whose two fields are required.\<close>

definition bind_login :: "(string \<times> string) bound \<Rightarrow> (string \<times> string) bound" where
  "bind_login body =
     (case body of
        Inl e \<Rightarrow> Inl e
      | Inr (username, password) \<Rightarrow>
          if username = [] then Inl ''Username required''
          else if password = [] then Inl ''Password required''
          else Inr (username, password))"

definition Login ::
    "auth_env \<Rightarrow> auth_state \<Rightarrow> string \<Rightarrow> (string \<times> string) bound \<Rightarrow> bytes option \<Rightarrow> int \<Rightarrow> int \<Rightarrow> int
     \<Rightarrow> (SessionResponse reply \<times> cookie option) \<times> auth_state" where
  "Login env a remoteAddr body random t1 t2 t3 =
     (case bind_login body of
        Inl e \<Rightarrow> ((Error 400 (BadBody e), None), a)
      | Inr (username, password) \<Rightarrow>
          (let key = throttleKey remoteAddr username;
               (allowed, th) = Allowed (au_Throttle a) key t1;
               a = a\<lparr>au_Throttle := th\<rparr>
           in if \<not> allowed then ((Error 429 TooManyAttempts, None), a)
              else
                (case verify env a username password key t2 of
                   (None, a) \<Rightarrow> ((Error 401 InvalidCredentials, None), a)
                 | (Some user, a) \<Rightarrow>
                     (case Create (au_Sessions a) (u_Username user) random t2 t3 of
                        (None, s) \<Rightarrow> ((Error 500 RandomFailure, None), a\<lparr>au_Sessions := s\<rparr>)
                      | (Some token, s) \<Rightarrow>
                          (let a = a\<lparr>au_Sessions := s\<rparr>
                           in ((JSON 200 \<lparr>sr_Username = u_Username user,
                                         sr_MustChangePassword = u_MustChangePassword user\<rparr>,
                                Some (setCookie a token (DefaultTTL div Second))), a))))))"

definition Logout :: "auth_state \<Rightarrow> string option \<Rightarrow> cookie \<times> auth_state" where
  "Logout a cookie1 =
     (let a = (case cookie1 of
                 None \<Rightarrow> a
               | Some token \<Rightarrow> a\<lparr>au_Sessions := Destroy (au_Sessions a) token\<rparr>)
      in (setCookie a [] (- 1), a))"

definition Session :: "auth_env \<Rightarrow> string \<Rightarrow> SessionResponse reply" where
  "Session env username =
     (case find_user env username of
        Inl e \<Rightarrow> Error 401 InvalidCredentials
      | Inr user \<Rightarrow> JSON 200 \<lparr>sr_Username = u_Username user,
                              sr_MustChangePassword = u_MustChangePassword user\<rparr>)"

text \<open>The middleware lets a request through under a name, or ends it with a status.\<close>

datatype verdict = Next string | AbortWithStatus int

definition basic_auth ::
    "auth_env \<Rightarrow> auth_state \<Rightarrow> string \<Rightarrow> (string \<times> string) option \<Rightarrow> int \<Rightarrow> int \<Rightarrow> verdict \<times> auth_state" where
  "basic_auth env a remoteAddr basic t1 t2 =
     (case basic of
        None \<Rightarrow> (AbortWithStatus 401, a)
      | Some (username, password) \<Rightarrow>
          (let key = throttleKey remoteAddr username;
               (allowed, th) = Allowed (au_Throttle a) key t1;
               a = a\<lparr>au_Throttle := th\<rparr>
           in if \<not> allowed then (AbortWithStatus 429, a)
              else
                (case verify env a username password key t2 of
                   (None, a) \<Rightarrow> (AbortWithStatus 401, a)
                 | (Some user, a) \<Rightarrow> (Next (u_Username user), a))))"

definition Middleware ::
    "auth_env \<Rightarrow> auth_state \<Rightarrow> string \<Rightarrow> string option \<Rightarrow> (string \<times> string) option
     \<Rightarrow> int \<Rightarrow> int \<Rightarrow> int \<Rightarrow> int \<Rightarrow> verdict \<times> auth_state" where
  "Middleware env a remoteAddr cookie1 basic t1 t2 t3 t4 =
     (case cookie1 of
        None \<Rightarrow> basic_auth env a remoteAddr basic t3 t4
      | Some token \<Rightarrow>
          (case Lookup (au_Sessions a) token t1 t2 of
             (Some username, s) \<Rightarrow> (Next username, a\<lparr>au_Sessions := s\<rparr>)
           | (None, s) \<Rightarrow> basic_auth env (a\<lparr>au_Sessions := s\<rparr>) remoteAddr basic t3 t4))"

subsection \<open>Facts\<close>

lemmas auth_defs = Login_def verify_def ComparePasswords_def bind_login_def Let_def

lemma bind_login_Inr: "bind_login body = Inr (u, p) \<longleftrightarrow> body = Inr (u, p) \<and> u \<noteq> [] \<and> p \<noteq> []"
  by (auto simp: bind_login_def split: sum.splits)

text \<open>Login, once the form is bound and the throttle lets the attempt through.\<close>

lemma Login_checked:
  assumes "bind_login body = Inr (username, password)"
    and "Allowed (au_Throttle a) (throttleKey r username) t1 = (True, th)"
  shows "Login env a r body random t1 t2 t3 =
    (case find_user env username of
       Inl e \<Rightarrow> ((Error 401 InvalidCredentials, None), a\<lparr>au_Throttle := Fail th (throttleKey r username) t2\<rparr>)
     | Inr user \<Rightarrow>
         if \<not> bcrypt_matches env (u_Password user) password
         then ((Error 401 InvalidCredentials, None), a\<lparr>au_Throttle := Fail th (throttleKey r username) t2\<rparr>)
         else (case Create (au_Sessions a) (u_Username user) random t2 t3 of
             (None, s) \<Rightarrow> ((Error 500 RandomFailure, None),
                a\<lparr>au_Throttle := Succeed th (throttleKey r username), au_Sessions := s\<rparr>)
           | (Some token, s) \<Rightarrow> ((JSON 200 \<lparr>sr_Username = u_Username user,
                  sr_MustChangePassword = u_MustChangePassword user\<rparr>,
                Some (setCookie a token (DefaultTTL div Second))),
              a\<lparr>au_Throttle := Succeed th (throttleKey r username), au_Sessions := s\<rparr>)))"
  using assms by (simp add: Login_def verify_def ComparePasswords_def setCookie_def Let_def
      split: sum.splits option.splits prod.splits)

lemma Login_blocked:
  assumes "bind_login body = Inr (username, password)"
    and "\<not> fst (Allowed (au_Throttle a) (throttleKey r username) t1)"
  shows "Login env a r body random t1 t2 t3 = ((Error 429 TooManyAttempts, None), a)"
  using assms by (auto simp: Login_def Allowed_def Let_def split: prod.splits option.splits if_splits)

lemma Login_unbound: "bind_login body = Inl e \<Longrightarrow>
    Login env a r body random t1 t2 t3 = ((Error 400 (BadBody e), None), a)"
  by (simp add: Login_def)

lemma Login_cases:
  obtains (unbound) e where "bind_login body = Inl e"
  | (blocked) u p where "bind_login body = Inr (u, p)" "\<not> fst (Allowed (au_Throttle a) (throttleKey r u) t1)"
  | (checked) u p th where "bind_login body = Inr (u, p)"
      "Allowed (au_Throttle a) (throttleKey r u) t1 = (True, th)"
proof (cases "bind_login body")
  case (Inl e)
  then show ?thesis by (rule unbound)
next
  case (Inr up)
  then obtain u p where up: "bind_login body = Inr (u, p)" by (cases up) simp
  obtain ok th where A: "Allowed (au_Throttle a) (throttleKey r u) t1 = (ok, th)" by fastforce
  then show ?thesis using blocked [OF up] checked [OF up] by (cases ok) simp_all
qed

lemma Login_granted:
  assumes "Login env a r body random t1 t2 t3 = ((JSON s sr, c), a')"
  obtains username password usr b th where "body = Inr (username, password)"
    and "username \<noteq> []" and "password \<noteq> []"
    and "Allowed (au_Throttle a) (throttleKey r username) t1 = (True, th)"
    and "find_user env username = Inr usr" and "bcrypt_matches env (u_Password usr) password"
    and "random = Some b" and "s = 200" and "sr_Username sr = u_Username usr"
    and "c = Some (setCookie a (RawURL_Encode b) 43200)"
    and "au_Throttle a' = Succeed th (throttleKey r username)"
    and "au_Sessions a' = snd (Create (au_Sessions a) (u_Username usr) random t2 t3)"
proof (cases rule: Login_cases [where body = body and a = a and r = r and ?t1.0 = t1])
  case (unbound e)
  then show ?thesis using assms by (simp add: Login_unbound)
next
  case (blocked u p)
  then show ?thesis using assms by (simp add: Login_blocked)
next
  case (checked u p th)
  from assms obtain usr where usr: "find_user env u = Inr usr" "bcrypt_matches env (u_Password usr) p"
    by (auto simp: Login_checked [OF checked] split: sum.splits if_splits)
  with assms obtain b where b: "random = Some b"
    by (cases random) (auto simp: Login_checked [OF checked] Create_def)
  have up: "body = Inr (u, p)" "u \<noteq> []" "p \<noteq> []" using checked(1) by (simp_all add: bind_login_Inr)
  show ?thesis
    by (rule that [OF up checked(2) usr b])
      (use assms usr b in \<open>auto simp: Login_checked [OF checked] Create_def Let_def DefaultTTL_def Hour_def
        Minute_def Second_def\<close>)
qed

subsection \<open>Properties\<close>

text \<open>a login succeeds exactly for a complete form, a key that is not blocked, a user on
  record and a password that matches the stored hash, given random bytes for the token.\<close>

theorem login_success_iff:
  "r_status (fst (fst (Login env a r body random t1 t2 t3))) = 200 \<longleftrightarrow>
    (\<exists>username password usr b. body = Inr (username, password) \<and> username \<noteq> [] \<and> password \<noteq> []
      \<and> fst (Allowed (au_Throttle a) (throttleKey r username) t1)
      \<and> find_user env username = Inr usr \<and> bcrypt_matches env (u_Password usr) password
      \<and> random = Some b)"
proof (cases rule: Login_cases [where body = body and a = a and r = r and ?t1.0 = t1])
  case (unbound e)
  then show ?thesis by (auto simp: Login_unbound bind_login_def)
next
  case (blocked u p)
  then show ?thesis by (auto simp: Login_blocked bind_login_Inr)
next
  case (checked u p th)
  then show ?thesis
    unfolding Login_checked [OF checked]
    by (auto simp: bind_login_Inr Create_def Let_def split: sum.splits option.splits)
qed

lemma Login_accepted:
  assumes "Login env a r body random t1 t2 t3 = ((JSON s sr, c), a')"
    and "random = Some b" and "length b = 32"
    and "t2 \<le> t3" and "t3 \<le> t" and "t \<le> t2 + sess_ttl (au_Sessions a)"
  shows "\<exists>ck. c = Some ck \<and> ck_HttpOnly ck \<and> ck_StrictSameSite ck \<and> ck_Secure ck = au_Secure a
    \<and> ck_Value ck = RawURL_Encode b
    \<and> fst (Middleware env' a' r' (Some (ck_Value ck)) basic t t4 t5 t6) = Next (sr_Username sr)"
proof (rule Login_granted [OF assms(1)])
  fix usr b'
  assume "random = Some b'" and u: "sr_Username sr = u_Username usr"
    "c = Some (setCookie a (RawURL_Encode b') 43200)"
    "au_Sessions a' = snd (Create (au_Sessions a) (u_Username usr) random t2 t3)"
  then have b: "b' = b" using assms(2) by simp
  have "RawURL_Encode b \<noteq> []"
    using assms(3) RawURL_Encode_length [of b] by (cases "RawURL_Encode b") simp_all
  then have "session_owner (session_step (au_Sessions a) (OpCreate (u_Username usr) random, t2, t3)) t
      (RawURL_Encode b) = Some (u_Username usr)"
    using store.owner_issue [OF assms(4,5), of "OpCreate (u_Username usr) random" "RawURL_Encode b"
        "u_Username usr" "au_Sessions a"] assms(2,6) by simp
  then have "fst (Lookup (au_Sessions a') (RawURL_Encode b) t t4) = Some (u_Username usr)"
    by (simp add: Lookup_owner u(3))
  then show ?thesis
    by (auto simp: u b Middleware_def setCookie_def split: prod.splits)
qed

text \<open>C26: the session a login opens is the user's own: its token, which only goes into a strict,
  script-proof cookie, is accepted for that user as long as the session lives.\<close>

theorem login_opens_session:
  assumes "Login env a r body random t1 t2 t3 = ((JSON s sr, c), a')"
    and "random = Some b" and "length b = 32"
    and "t2 \<le> t3" and "t3 \<le> t" and "t \<le> t2 + sess_ttl (au_Sessions a)"
  shows "\<exists>ck. c = Some ck \<and> ck_HttpOnly ck \<and> ck_StrictSameSite ck \<and> ck_Secure ck = au_Secure a
    \<and> ck_Value ck = RawURL_Encode b
    \<and> fst (Middleware env' a' r' (Some (ck_Value ck)) basic t t4 t5 t6) = Next (sr_Username sr)"
  using assms by (rule Login_accepted)

text \<open>failures cannot be told apart: an unknown user and a wrong password give the same reply
  and leave the same state behind.\<close>

theorem login_failures_alike:
  assumes "find_user env username = Inl e"
    and "find_user env' username = Inr usr" and "\<not> bcrypt_matches env' (u_Password usr) password"
  shows "Login env a r (Inr (username, password)) random t1 t2 t3
    = Login env' a r (Inr (username, password)) random t1 t2 t3"
proof (cases rule: Login_cases [where body = "Inr (username, password)" and a = a and r = r and ?t1.0 = t1])
  case (unbound e)
  then show ?thesis by (simp add: Login_unbound)
next
  case (blocked u p)
  then show ?thesis by (simp add: Login_blocked)
next
  case (checked u p th)
  then have "u = username" "p = password" by (simp_all add: bind_login_Inr)
  then show ?thesis using assms checked by (simp add: Login_checked [OF checked])
qed

text \<open>The records of the example: one user, whose password is \<^verbatim>\<open>s3cret\<close>.\<close>

definition example_user :: user where
  "example_user = zero_user\<lparr>u_Username := ''root'', u_Password := ''hash''\<rparr>"

definition example_auth_env :: auth_env where
  "example_auth_env =
     \<lparr>find_user = (\<lambda>n. if n = ''root'' then Inr example_user else Inl ErrRecordNotFound),
      bcrypt_matches = (\<lambda>h p. h = ''hash'' \<and> p = ''s3cret'')\<rparr>"

definition example_auth :: auth_state where
  "example_auth = \<lparr>au_Sessions = NewSessions 1000, au_Throttle = NewThrottle 3 100, au_Secure = True\<rparr>"

lemmas example_auth_defs = example_user_def example_auth_env_def example_auth_def

definition example_remote :: string where
  "example_remote = ''10.0.0.9:5123''"

lemma example_allowed:
  "Allowed (NewThrottle 3 100) k t = (True, NewThrottle 3 100)"
  by (simp add: Allowed_def NewThrottle_def)

lemma example_login:
  "\<exists>a' c. Login example_auth_env example_auth example_remote (Inr (''root'', ''s3cret''))
     (Some (replicate 32 7)) 5 6 7
   = ((JSON 200 \<lparr>sr_Username = ''root'', sr_MustChangePassword = False\<rparr>, c), a')"
proof -
  have b: "bind_login (Inr (''root'', ''s3cret'')) = Inr (''root'', ''s3cret'')"
    by (simp add: bind_login_Inr)
  have al: "Allowed (au_Throttle example_auth) (throttleKey example_remote ''root'') 5 = (True, NewThrottle 3 100)"
    by (simp add: example_auth_def example_allowed)
  show ?thesis
    unfolding Login_checked [OF b al]
    by (simp add: example_auth_env_def example_user_def zero_user_def Create_def Let_def)
qed

theorem login_opens_session_witness:
  "\<exists>a' k. fst (Middleware example_auth_env a' ''10.9.9.9:1'' (Some k) None 900 900 900 900) = Next ''root''"
proof -
  from example_login obtain a' c where l: "Login example_auth_env example_auth example_remote
      (Inr (''root'', ''s3cret'')) (Some (replicate 32 7)) 5 6 7
    = ((JSON 200 \<lparr>sr_Username = ''root'', sr_MustChangePassword = False\<rparr>, c), a')" by blast
  have "sess_ttl (au_Sessions example_auth) = 1000" by (simp add: example_auth_def NewSessions_def)
  with login_opens_session [OF l refl, of 900 example_auth_env "''10.9.9.9:1''" None 900 900 900]
  show ?thesis by auto
qed

theorem login_failures_alike_witness:
  "Login (example_auth_env\<lparr>find_user := \<lambda>_. Inl ErrRecordNotFound\<rparr>) example_auth example_remote
     (Inr (''root'', ''wrong'')) None 5 6 7
   = Login example_auth_env example_auth example_remote (Inr (''root'', ''wrong'')) None 5 6 7"
  by (rule login_failures_alike [where e = ErrRecordNotFound and usr = example_user])
    (simp_all add: example_auth_env_def)

text \<open>a blocked key gets nowhere, and nobody who guesses learns anything from it: whatever
  password is tried, and whatever the database holds, the reply is the same refusal and no
  session is opened; basic authentication is held to the same limit.\<close>

theorem auth_blocked:
  assumes "\<not> fst (Allowed (au_Throttle a) (throttleKey r username) t1)"
    and "username \<noteq> []" and "password \<noteq> []"
  shows "Login env a r (Inr (username, password)) random t1 t2 t3 = ((Error 429 TooManyAttempts, None), a)
    \<and> Middleware env a r None (Some (username, password)) t4 t5 t1 t2 = (AbortWithStatus 429, a)"
proof
  have "bind_login (Inr (username, password)) = Inr (username, password)"
    using assms(2,3) by (simp add: bind_login_Inr)
  from Login_blocked [OF this assms(1)]
  show "Login env a r (Inr (username, password)) random t1 t2 t3 = ((Error 429 TooManyAttempts, None), a)" .
  show "Middleware env a r None (Some (username, password)) t4 t5 t1 t2 = (AbortWithStatus 429, a)"
    using assms(1)
    by (auto simp: Middleware_def basic_auth_def Allowed_def Let_def split: option.splits if_splits)
qed

text \<open>What the middleware lets through.\<close>

lemma Middleware_Next:
  assumes "Middleware env a r ck basic t1 t2 t3 t4 = (Next u, a')"
  shows "(\<exists>token. ck = Some token \<and> fst (Lookup (au_Sessions a) token t1 t2) = Some u)
    \<or> (\<exists>username password usr. basic = Some (username, password)
         \<and> fst (Allowed (au_Throttle a) (throttleKey r username) t3)
         \<and> find_user env username = Inr usr \<and> bcrypt_matches env (u_Password usr) password
         \<and> u = u_Username usr)"
proof -
  have basic: "\<exists>username password usr. basic = Some (username, password)
      \<and> fst (Allowed (au_Throttle a) (throttleKey r username) t3)
      \<and> find_user env username = Inr usr \<and> bcrypt_matches env (u_Password usr) password
      \<and> u = u_Username usr"
    if "basic_auth env b r basic t3 t4 = (Next u, a')" "au_Throttle b = au_Throttle a" for b
    using that by (auto simp: basic_auth_def verify_def ComparePasswords_def Let_def
        split: option.splits prod.splits if_splits sum.splits)
  show ?thesis
  proof (cases ck)
    case None
    then show ?thesis using assms basic [of a] by (simp add: Middleware_def)
  next
    case (Some token)
    obtain res s where L: "Lookup (au_Sessions a) token t1 t2 = (res, s)" by fastforce
    then show ?thesis
      using assms basic [of "a\<lparr>au_Sessions := s\<rparr>"] Some by (cases res) (simp_all add: Middleware_def)
  qed
qed

theorem auth_blocked_witness:
  "\<exists>a. Login example_auth_env a example_remote (Inr (''root'', ''s3cret'')) None 50 50 50
      = ((Error 429 TooManyAttempts, None), a)
    \<and> Middleware example_auth_env a example_remote None (Some (''root'', ''s3cret'')) 50 50 50 50
      = (AbortWithStatus 429, a)"
proof -
  let ?a = "example_auth\<lparr>au_Throttle := Fail (NewThrottle 1 100) (throttleKey example_remote ''root'') 10\<rparr>"
  have "\<not> fst (Allowed (au_Throttle ?a) (throttleKey example_remote ''root'') 50)"
    by (simp add: throttle_defs NewThrottle_def throttle_lookup)
  from auth_blocked [OF this, of "''s3cret''"] show ?thesis by (intro exI [of _ ?a]) simp
qed

text \<open>Repeated logins for one account from one place: the passwords tried and when, and the
  status of each reply.\<close>

fun login_tries ::
    "auth_env \<Rightarrow> bytes option \<Rightarrow> auth_state \<Rightarrow> string \<Rightarrow> string \<Rightarrow> (string \<times> int) list \<Rightarrow> (int \<times> int) list \<times> auth_state" where
  "login_tries env random a r username [] = ([], a)"
| "login_tries env random a r username ((password, t) # tries) =
     (let ((res, c), a') = Login env a r (Inr (username, password)) random t t t;
          (replies, a'') = login_tries env random a' r username tries
      in ((t, r_status res) # replies, a''))"

definition checked_at :: "(int \<times> int) list \<Rightarrow> int list" where
  "checked_at replies = map fst (filter (\<lambda>(t, status). status = 401) replies)"

lemma guess_inv_later: "guess_inv th key ps now \<Longrightarrow> now \<le> t \<Longrightarrow> guess_inv th key ps t"
  by (fastforce simp: guess_inv_def split: option.splits)

lemma Login_try:
  assumes "r_status (fst (fst (Login env a r (Inr (username, password)) random t t t))) \<in> {400, 401, 429}"
    and "guess_inv (au_Throttle a) (throttleKey r username) ps now" and "now \<le> t"
  shows "guess_inv (au_Throttle (snd (Login env a r (Inr (username, password)) random t t t)))
    (throttleKey r username)
    (ps @ checked_at [(t, r_status (fst (fst (Login env a r (Inr (username, password)) random t t t))))]) t"
proof (cases rule: Login_cases [where body = "Inr (username, password)" and a = a and r = r and ?t1.0 = t])
  case (unbound e)
  then show ?thesis using guess_inv_later [OF assms(2,3)] by (simp add: Login_unbound checked_at_def)
next
  case (blocked u p)
  then show ?thesis
    using guess_inv_later [OF assms(2,3)] by (simp add: Login_blocked checked_at_def)
next
  case (checked u p th)
  then have "u = username" by (simp add: bind_login_Inr)
  with checked guess_inv_step(2) [OF assms(2,3)]
  have i: "guess_inv (Fail th (throttleKey r u) t) (throttleKey r u) (ps @ [t]) t" by simp
  then show ?thesis
    using assms(1) \<open>u = username\<close> unfolding Login_checked [OF checked]
    by (auto simp: checked_at_def split: sum.splits option.splits prod.splits if_splits)
qed

lemma login_tries_inv:
  assumes "guess_inv (au_Throttle a) (throttleKey r username) ps now"
    and "sorted (now # map snd tries)"
    and "\<forall>(t, status) \<in> set (fst (login_tries env random a r username tries)). status \<in> {400, 401, 429}"
  shows "\<exists>now'. guess_inv (au_Throttle (snd (login_tries env random a r username tries))) (throttleKey r username)
    (ps @ checked_at (fst (login_tries env random a r username tries))) now'"
  using assms
proof (induction tries arbitrary: a ps now)
  case Nil
  then show ?case by (auto simp: checked_at_def)
next
  case (Cons pt tries)
  obtain p t where pt: "pt = (p, t)" by fastforce
  obtain res c a' where L: "Login env a r (Inr (username, p)) random t t t = ((res, c), a')"
    by (metis prod.exhaust)
  obtain replies a'' where T: "login_tries env random a' r username tries = (replies, a'')" by fastforce
  have i: "guess_inv (au_Throttle a') (throttleKey r username) (ps @ checked_at [(t, r_status res)]) t"
    using Login_try [of env a r username p random t ps now] Cons.prems by (simp add: pt L T)
  from Cons.IH [OF i] show ?case
    using Cons.prems by (simp add: pt L T checked_at_def split: if_splits)
qed

lemma Login_throttle_fixed:
  "thr_max (au_Throttle (snd (Login env a r body random t1 t2 t3))) = thr_max (au_Throttle a)
    \<and> thr_window (au_Throttle (snd (Login env a r body random t1 t2 t3))) = thr_window (au_Throttle a)"
proof (cases rule: Login_cases [where body = body and a = a and r = r and ?t1.0 = t1])
  case (checked u p th)
  have "thr_max th = thr_max (au_Throttle a)" "thr_window th = thr_window (au_Throttle a)"
    using throttle_fixed(1,2) [of "au_Throttle a" "throttleKey r u" t1] checked(2) by simp_all
  then show ?thesis
    by (simp add: Login_checked [OF checked] split: sum.splits option.splits prod.splits)
qed (simp_all add: Login_unbound Login_blocked)

text \<open>C8: guessing through the login page is bounded for who waits for each reply before the next
  attempt: of logins for one account from one client address, one after the other, starting with a
  throttle without records and until a guess is right, at most \<open>max\<close> have the password checked in
  any span of one window, whatever is tried and however often.\<close>

theorem login_guess_bound:
  assumes "au_Throttle a = NewThrottle mx window"
    and "sorted (map snd tries)" and "\<forall>(password, t) \<in> set tries. 0 < t"
    and "replies = fst (login_tries env random a r username tries)"
    and "\<forall>(t, status) \<in> set replies. status \<in> {400, 401, 429}"
  shows "int (recent (thr_window (NewThrottle mx window)) (checked_at replies) t)
    \<le> thr_max (NewThrottle mx window)"
proof (cases tries)
  case Nil
  then show ?thesis
    using assms(4) by (simp add: checked_at_def recent_def NewThrottle_def Let_def)
next
  case (Cons pt ts)
  obtain p u where pt: "pt = (p, u)" by fastforce
  have "0 < u" "sorted (u # map snd tries)" using assms(2,3) Cons pt by auto
  moreover have "guess_inv (au_Throttle a) (throttleKey r username) [] u"
    using guess_inv_New calculation(1) by (simp add: assms(1))
  ultimately obtain now where "guess_inv (au_Throttle (snd (login_tries env random a r username tries)))
      (throttleKey r username) (checked_at replies) now"
    using login_tries_inv [of a r username "[]" u tries env random] assms(4,5) by auto
  then have "int (recent (thr_window th) (checked_at replies) t) \<le> thr_max th"
    if "th = au_Throttle (snd (login_tries env random a r username tries))" for th
    by (simp add: guess_inv_def that)
  moreover have "thr_max (au_Throttle (snd (login_tries env random a r username ts))) = thr_max (au_Throttle a)
      \<and> thr_window (au_Throttle (snd (login_tries env random a r username ts))) = thr_window (au_Throttle a)"
    for ts
  proof (induction ts arbitrary: a)
    case (Cons pt ts)
    obtain p t where pt: "pt = (p, t)" by fastforce
    have "thr_max (au_Throttle (snd (Login env a r (Inr (username, p)) random t t t))) = thr_max (au_Throttle a)
      \<and> thr_window (au_Throttle (snd (Login env a r (Inr (username, p)) random t t t))) = thr_window (au_Throttle a)"
      by (rule Login_throttle_fixed)
    then show ?case using Cons.IH by (simp add: pt split_def Let_def)
  qed simp
  ultimately show ?thesis using assms(1) by metis
qed

theorem login_guess_bound_witness:
  "int (recent 100 (checked_at (fst (login_tries example_auth_env None example_auth example_remote ''root''
     [(''a'', 10), (''b'', 20), (''c'', 30), (''d'', 40)]))) 50) \<le> 3"
proof -
  let ?tries = "[(''a'', 10), (''b'', 20), (''c'', 30), (''d'', 40 :: int)]"
  have "\<forall>(t, status) \<in> set (fst (login_tries example_auth_env None example_auth example_remote ''root'' ?tries)).
      status \<in> {400, 401, 429}"
    by (simp add: Login_def bind_login_def verify_def ComparePasswords_def example_auth_def
        NewThrottle_def throttle_defs throttle_lookup example_auth_env_def time_Sub_def)
  from login_guess_bound [OF _ _ _ refl this, of 3 100 50] show ?thesis
    by (simp add: example_auth_def NewThrottle_def)
qed

subsection \<open>Attempts that overlap\<close>

text \<open>
  Handlers run at the same time, and an attempt, through the login page or with basic credentials,
  takes the throttle's lock twice: it asks, and later its credentials are checked and fail.
  \<open>gu_flight\<close> counts the attempts in between for one key, \<open>gu_checked\<close> lists when credentials were found wrong.
  The database may change between any two steps, and so may whatever the throttle holds of other keys
  and the sessions. No guess is right.
\<close>

record guess_state =
  gu_auth :: auth_state
  gu_flight :: nat
  gu_now :: int
  gu_checked :: "int list"

inductive guess_step :: "string \<Rightarrow> nat \<Rightarrow> guess_state \<Rightarrow> guess_state \<Rightarrow> bool" for key k where
  asked: "Allowed (au_Throttle (gu_auth s)) key t = (True, th) \<Longrightarrow> gu_now s \<le> t \<Longrightarrow> gu_flight s < k \<Longrightarrow>
    guess_step key k s (s\<lparr>gu_auth := (gu_auth s)\<lparr>au_Throttle := th\<rparr>, gu_flight := Suc (gu_flight s), gu_now := t\<rparr>)"
| refused: "Allowed (au_Throttle (gu_auth s)) key t = (False, th) \<Longrightarrow> gu_now s \<le> t \<Longrightarrow>
    guess_step key k s (s\<lparr>gu_auth := (gu_auth s)\<lparr>au_Throttle := th\<rparr>, gu_now := t\<rparr>)"
| checked: "verify env (gu_auth s) username password key t = (None, a) \<Longrightarrow> gu_now s \<le> t \<Longrightarrow> gu_flight s = Suc n \<Longrightarrow>
    guess_step key k s (s\<lparr>gu_auth := a, gu_flight := n, gu_now := t, gu_checked := gu_checked s @ [t]\<rparr>)"
| other: "throttle_view (au_Throttle a) key = throttle_view (au_Throttle (gu_auth s)) key \<Longrightarrow>
    guess_step key k s (s\<lparr>gu_auth := a\<rparr>)"

inductive guess_run :: "string \<Rightarrow> nat \<Rightarrow> guess_state \<Rightarrow> guess_state \<Rightarrow> bool" for key k where
  still: "guess_run key k s s"
| further: "guess_run key k s s1 \<Longrightarrow> guess_step key k s1 s2 \<Longrightarrow> guess_run key k s s2"

definition fresh_guesses :: "int \<Rightarrow> int \<Rightarrow> auth_state \<Rightarrow> int \<Rightarrow> guess_state" where
  "fresh_guesses mx window a now =
     \<lparr>gu_auth = a\<lparr>au_Throttle := NewThrottle mx window\<rparr>, gu_flight = 0, gu_now = now, gu_checked = []\<rparr>"

lemma verify_None:
  "verify env a username password key t = (None, a') \<Longrightarrow> a' = a\<lparr>au_Throttle := Fail (au_Throttle a) key t\<rparr>"
  by (auto simp: verify_def Let_def split: sum.splits if_splits)

text \<open>A login that is refused, and one whose password is wrong, are such steps.\<close>

lemma Login_guesses:
  assumes "Login env a r (Inr (u, p)) random t1 t2 t3 = ((Error status e, c), a')" and "status = 401 \<or> status = 429"
    and "t1 \<le> t2" and "0 < k"
  shows "guess_run (throttleKey r u) k \<lparr>gu_auth = a, gu_flight = 0, gu_now = t1, gu_checked = ps\<rparr>
    \<lparr>gu_auth = a', gu_flight = 0, gu_now = (if status = 401 then t2 else t1),
     gu_checked = (if status = 401 then ps @ [t2] else ps)\<rparr>"
proof -
  let ?s = "\<lparr>gu_auth = a, gu_flight = 0, gu_now = t1, gu_checked = ps\<rparr>"
  have bound: "bind_login (Inr (u, p)) = Inr (u, p)"
    using assms(1,2) by (auto simp: Login_def split: sum.splits) (auto simp: bind_login_def split: if_splits)
  obtain ok th where A: "Allowed (au_Throttle a) (throttleKey r u) t1 = (ok, th)" by fastforce
  show ?thesis
  proof (cases ok)
    case False
    then have "status = 429" "a' = a\<lparr>au_Throttle := th\<rparr>"
      using assms(1) A bound by (auto simp: Login_def Let_def)
    moreover have "guess_step (throttleKey r u) k ?s (?s\<lparr>gu_auth := a\<lparr>au_Throttle := th\<rparr>, gu_now := t1\<rparr>)"
      using guess_step.refused [of ?s "throttleKey r u" t1 th k] A False by simp
    ultimately show ?thesis using guess_run.further [OF guess_run.still] by fastforce
  next
    case True
    let ?s1 = "\<lparr>gu_auth = a\<lparr>au_Throttle := th\<rparr>, gu_flight = 1, gu_now = t1, gu_checked = ps\<rparr>"
    have v: "verify env (a\<lparr>au_Throttle := th\<rparr>) u p (throttleKey r u) t2 = (None, a')" "status = 401"
      using assms(1,2) A bound True
      by (auto simp: Login_def Let_def split: prod.splits option.splits)
    have "guess_step (throttleKey r u) k ?s ?s1"
      using guess_step.asked [of ?s "throttleKey r u" t1 th k] A True assms(4) by simp
    moreover have "guess_step (throttleKey r u) k ?s1
        (?s1\<lparr>gu_auth := a', gu_flight := 0, gu_now := t2, gu_checked := ps @ [t2]\<rparr>)"
      using guess_step.checked [of env ?s1 u p "throttleKey r u" t2 a' 0 k] v(1) assms(3) by simp
    ultimately show ?thesis
      using v(2) guess_run.further [OF guess_run.further [OF guess_run.still]] by fastforce
  qed
qed

lemma crowd_step:
  assumes "guess_step key k s s'"
    and "crowd_inv (au_Throttle (gu_auth s)) key k (gu_flight s) (gu_checked s) (gu_now s)"
  shows "crowd_inv (au_Throttle (gu_auth s')) key k (gu_flight s') (gu_checked s') (gu_now s')"
  using assms
proof cases
  case (asked t th)
  then show ?thesis using assms(2) crowd_asked by simp
next
  case (refused t th)
  then show ?thesis using assms(2) crowd_refused by simp
next
  case (checked env username password t a n)
  then show ?thesis using assms(2) crowd_failed by (auto dest!: verify_None)
next
  case (other a)
  then show ?thesis using assms(2) crowd_inv_view [OF other(2)] by simp
qed

lemma guess_step_fixed:
  assumes "guess_step key k s s'"
  shows "thr_max (au_Throttle (gu_auth s')) = thr_max (au_Throttle (gu_auth s))
    \<and> thr_window (au_Throttle (gu_auth s')) = thr_window (au_Throttle (gu_auth s))"
  using assms
proof cases
  case (asked t th)
  then show ?thesis using throttle_fixed(1,2) [of "au_Throttle (gu_auth s)" key t] by simp
next
  case (refused t th)
  then show ?thesis using throttle_fixed(1,2) [of "au_Throttle (gu_auth s)" key t] by simp
qed (auto simp: throttle_view_def dest!: verify_None)

text \<open>C16: guessing is bounded for clients that do not wait, too: while at most \<open>k\<close> attempts for one account from
  one address are under way at once, through the login page or with basic credentials, the credentials
  checked in any span of one window are fewer than \<open>max + k\<close>, in whatever order the attempts ask
  and fail and whatever happens beside them; with one attempt at a time that is the limit itself.\<close>

theorem overlapping_guess_bound:
  assumes "guess_run key k (fresh_guesses mx window a now) s" and "0 < now" and "gu_checked s \<noteq> []"
  shows "int (recent (thr_window (NewThrottle mx window)) (gu_checked s) t)
    < thr_max (NewThrottle mx window) + int k"
proof -
  have "crowd_inv (au_Throttle (gu_auth s)) key k (gu_flight s) (gu_checked s) (gu_now s)
    \<and> thr_max (au_Throttle (gu_auth s)) = thr_max (NewThrottle mx window)
    \<and> thr_window (au_Throttle (gu_auth s)) = thr_window (NewThrottle mx window)"
    using assms(1)
  proof (induction "fresh_guesses mx window a now" s rule: guess_run.induct)
    case still
    then show ?case using crowd_inv_start [OF refl assms(2)] by (simp add: fresh_guesses_def)
  next
    case (further s1 s2)
    then show ?case using crowd_step [OF further(3)] guess_step_fixed [OF further(3)] by simp
  qed
  then show ?thesis using assms(3) unfolding crowd_inv_def by metis
qed

text \<open>The bound is reached: two attempts under way at once are both checked where the limit is one.\<close>

theorem overlapping_guess_bound_witness:
  "\<exists>s. guess_run ''root|10.0.0.9'' 2 (fresh_guesses 1 100 example_auth 10) s
     \<and> int (recent 100 (gu_checked s) 50) = 2 \<and> int (recent 100 (gu_checked s) 50) < 1 + int 2"
proof -
  let ?key = "''root|10.0.0.9''" and ?env = "example_auth_env\<lparr>find_user := \<lambda>_. Inl ErrRecordNotFound\<rparr>"
  let ?a = "example_auth\<lparr>au_Throttle := NewThrottle 1 100\<rparr>"
  let ?b = "?a\<lparr>au_Throttle := Fail (NewThrottle 1 100) ?key 11\<rparr>"
  let ?c = "?b\<lparr>au_Throttle := Fail (au_Throttle ?b) ?key 12\<rparr>"
  let ?st = "\<lambda>a n now ps. \<lparr>gu_auth = a, gu_flight = n, gu_now = now, gu_checked = ps\<rparr>"
  have ask: "guess_step ?key 2 (?st ?a n 10 []) (?st ?a (Suc n) 10 [])" if "n < 2" for n
    using guess_step.asked [of "?st ?a n 10 []" ?key 10 "NewThrottle 1 100" 2] that
    by (simp add: Allowed_def NewThrottle_def)
  have s3: "guess_step ?key 2 (?st ?a 2 10 []) (?st ?b 1 11 [11])"
    using guess_step.checked [of ?env "?st ?a 2 10 []" "''root''" "''x''" ?key 11 ?b 1 2] by (simp add: verify_def Let_def)
  have s4: "guess_step ?key 2 (?st ?b 1 11 [11]) (?st ?c 0 12 [11, 12])"
    using guess_step.checked [of ?env "?st ?b 1 11 [11]" "''root''" "''x''" ?key 12 ?c 0 2] by (simp add: verify_def Let_def)
  have s1: "guess_step ?key 2 (?st ?a 0 10 []) (?st ?a 1 10 [])"
    and s2: "guess_step ?key 2 (?st ?a 1 10 []) (?st ?a 2 10 [])"
    using ask [of 0] ask [of 1] by (simp_all add: numeral_2_eq_2)
  note guess_run.still [THEN guess_run.further, OF s1, THEN guess_run.further, OF s2,
      THEN guess_run.further, OF s3, THEN guess_run.further, OF s4]
  then have run: "guess_run ?key 2 (fresh_guesses 1 100 example_auth 10) (?st ?c 0 12 [11, 12])"
    by (simp add: fresh_guesses_def)
  have "int (recent 100 (gu_checked (?st ?c 0 12 [11, 12])) 50) < 1 + int 2"
    using overlapping_guess_bound [OF run, of 50] by (simp add: NewThrottle_def)
  with run show ?thesis by (intro exI [of _ "?st ?c 0 12 [11, 12]"]) (simp add: recent_def)
qed

text \<open>two accounts, or two client addresses, never share a record of the throttle.\<close>

theorem throttle_key_injective:
  assumes "SplitHostPort r = Some (host, port)" and "SplitHostPort r' = Some (host', port')"
    and "CHR ''|'' \<notin> set host" and "CHR ''|'' \<notin> set host'"
  shows "throttleKey r u = throttleKey r' u' \<longleftrightarrow> u = u' \<and> host = host'"
proof -
  have "split_last (CHR ''|'') (u @ CHR ''|'' # h) = Some (u, h)" if "CHR ''|'' \<notin> set h" for u h
    using that by (simp add: split_last_Some)
  then have "u @ CHR ''|'' # host = u' @ CHR ''|'' # host' \<longleftrightarrow> u = u' \<and> host = host'"
    using assms(3,4) by (metis option.inject prod.inject)
  then show ?thesis using assms by (simp add: throttleKey_def)
qed

theorem throttle_key_injective_witness:
  "throttleKey ''10.0.0.9:5123'' ''a|b'' \<noteq> throttleKey ''[fe80::1]:80'' ''a''"
proof -
  have "SplitHostPort ''10.0.0.9:5123'' = Some (''10.0.0.9'', ''5123'')"
    "SplitHostPort ''[fe80::1]:80'' = Some (''fe80::1'', ''80'')" by code_simp+
  from throttle_key_injective [OF this, of "''a|b''" "''a''"] show ?thesis by simp
qed

subsection \<open>Every accepted cookie goes back to a login\<close>

text \<open>
  What can happen to the session store through the API, as a step relation: a login that
  succeeds or not, a logout, a request that passes the middleware or not, and the end of all
  sessions of a user when their password changes. Each step carries what it does to sessions.
\<close>

datatype auth_event = Granted string string | Ended string | EndedAll string | Other

inductive auth_step :: "auth_state \<Rightarrow> auth_event \<Rightarrow> auth_state \<Rightarrow> bool" where
  logged_in: "Login env a r body random t1 t2 t3 = ((JSON s sr, Some ck), a') \<Longrightarrow>
    auth_step a (Granted (ck_Value ck) (sr_Username sr)) a'"
| not_logged_in: "Login env a r body random t1 t2 t3 = ((Error s e, c), a') \<Longrightarrow> auth_step a Other a'"
| logged_out: "Logout a (Some token) = (c, a') \<Longrightarrow> auth_step a (Ended token) a'"
| logged_out_nobody: "Logout a None = (c, a') \<Longrightarrow> auth_step a Other a'"
| requested: "Middleware env a r ck basic t1 t2 t3 t4 = (v, a') \<Longrightarrow> auth_step a Other a'"
| password_changed: "auth_step a (EndedAll u) (a\<lparr>au_Sessions := DestroyUser (au_Sessions a) u\<rparr>)"

inductive_cases auth_stepE: "auth_step a e b"

inductive auth_run :: "auth_state \<Rightarrow> auth_event list \<Rightarrow> auth_state \<Rightarrow> bool" where
  auth_nil: "auth_run a [] a"
| auth_snoc: "auth_run a es b \<Longrightarrow> auth_step b e c \<Longrightarrow> auth_run a (es @ [e]) c"

text \<open>The user a token stands for in the table, live or not.\<close>

definition holder :: "auth_state \<Rightarrow> string \<Rightarrow> string option" where
  "holder a token = map_option s_username (Mapping.lookup (sess_m (au_Sessions a)) token)"

lemma holder_Login_Error:
  assumes "Login env a r body random t1 t2 t3 = ((Error s e, c), a')"
  shows "au_Sessions a' = au_Sessions a"
proof (cases rule: Login_cases [where body = body and a = a and r = r and ?t1.0 = t1])
  case (checked u p th)
  then show ?thesis using assms unfolding Login_checked [OF checked]
    by (auto simp: Create_def Let_def split: sum.splits if_splits option.splits)
qed (use assms in \<open>simp_all add: Login_unbound Login_blocked\<close>)

lemma holder_Middleware:
  assumes "Middleware env a r ck basic t1 t2 t3 t4 = (v, a')" and "holder a' k = Some u"
  shows "holder a k = Some u"
proof -
  have basic: "au_Sessions a' = au_Sessions b" if "basic_auth env b r basic t3 t4 = (v, a')" for b
    using that by (auto simp: basic_auth_def verify_def Let_def split: option.splits prod.splits if_splits sum.splits)
  have L: "map_option s_username (Mapping.lookup (sess_m (snd (Lookup s token t1 t2))) k) = Some u \<Longrightarrow>
      map_option s_username (Mapping.lookup (sess_m s) k) = Some u" for s token
    by (auto simp: session_defs session_lookup split: option.splits if_splits)
  show ?thesis
  proof (cases ck)
    case None
    then show ?thesis using assms basic [of a] by (simp add: Middleware_def holder_def)
  next
    case (Some token)
    obtain res s where S: "Lookup (au_Sessions a) token t1 t2 = (res, s)" by fastforce
    then have "au_Sessions a' = s"
      using assms(1) basic [of "a\<lparr>au_Sessions := s\<rparr>"] Some by (cases res) (auto simp: Middleware_def)
    then show ?thesis using L [of "au_Sessions a" token] S assms(2) by (simp add: holder_def)
  qed
qed

lemma auth_step_holder:
  assumes "auth_step a e b" and "holder b k = Some u"
  shows "e = Granted k u \<or> (holder a k = Some u \<and> e \<noteq> Ended k \<and> e \<noteq> EndedAll u)"
  using assms(1)
proof cases
  case (logged_in env r body random t1 t2 t3 s sr ck)
  from logged_in(2) show ?thesis
  proof (rule Login_granted)
    fix usr bs
    assume "random = Some bs" "sr_Username sr = u_Username usr"
      "Some ck = Some (setCookie a (RawURL_Encode bs) 43200)"
      "au_Sessions b = snd (Create (au_Sessions a) (u_Username usr) random t2 t3)"
    then show ?thesis
      using assms(2) logged_in(1)
      by (auto simp: holder_def session_defs session_lookup setCookie_def split: if_splits option.splits)
  qed
next
  case (not_logged_in env r body random t1 t2 t3 s err c)
  then show ?thesis using assms(2) holder_Login_Error [OF not_logged_in(2)] by (simp add: holder_def)
next
  case (logged_out token c)
  then show ?thesis
    using assms(2) by (auto simp: Logout_def holder_def Destroy_def session_lookup Let_def split: if_splits)
next
  case (logged_out_nobody c)
  then show ?thesis using assms(2) by (simp add: Logout_def holder_def Let_def)
next
  case (requested env r ck basic t1 t2 t3 t4 v)
  then show ?thesis using assms(2) holder_Middleware [OF requested(2)] by simp
next
  case (password_changed u')
  then show ?thesis
    using assms(2) by (auto simp: holder_def DestroyUser_def session_lookup split: option.splits if_splits)
qed

definition granted_since :: "auth_event list \<Rightarrow> string \<Rightarrow> string \<Rightarrow> bool" where
  "granted_since es k u \<longleftrightarrow>
     (\<exists>before after. es = before @ Granted k u # after \<and> Ended k \<notin> set after \<and> EndedAll u \<notin> set after)"

lemma granted_since_snoc:
  "granted_since es k u \<Longrightarrow> e \<noteq> Ended k \<Longrightarrow> e \<noteq> EndedAll u \<Longrightarrow> granted_since (es @ [e]) k u"
  "granted_since (es @ [Granted k u]) k u"
  by (force simp: granted_since_def)+

lemma auth_run_holder:
  assumes "auth_run a es b" and "sess_m (au_Sessions a) = Mapping.empty" and "holder b k = Some u"
  shows "granted_since es k u"
  using assms
proof (induction arbitrary: k u rule: auth_run.induct)
  case (auth_nil a)
  then show ?case by (simp add: holder_def)
next
  case (auth_snoc a es b e c)
  from auth_step_holder [OF auth_snoc.hyps(2) auth_snoc.prems(2)] show ?case
    using auth_snoc.IH [OF auth_snoc.prems(1)] granted_since_snoc by auto
qed

text \<open>C6: whenever the middleware accepts a cookie, its token was issued by a successful login of
  that very user, and since then neither that session was logged out nor the user's sessions
  ended; this holds in every order of logins, logouts, requests and password changes.\<close>

theorem cookie_goes_back_to_login:
  assumes "auth_run a es b" and "sess_m (au_Sessions a) = Mapping.empty"
    and "Middleware env b r (Some k) None t1 t2 t3 t4 = (Next u, b')"
  shows "granted_since es k u"
proof -
  obtain res s where L: "Lookup (au_Sessions b) k t1 t2 = (res, s)" by fastforce
  with assms(3) have "res = Some u"
    by (cases res) (simp_all add: Middleware_def basic_auth_def)
  with L have "holder b k = Some u"
    by (auto simp: holder_def session_defs split: if_splits option.splits)
  with auth_run_holder [OF assms(1,2)] show ?thesis by simp
qed

lemmas session_response_name = SessionResponse.select_convs(1)

theorem cookie_goes_back_to_login_witness:
  "\<exists>k. granted_since [Granted k ''root''] k ''root''"
proof -
  from example_login obtain a' c where l: "Login example_auth_env example_auth example_remote
      (Inr (''root'', ''s3cret'')) (Some (replicate 32 7)) 5 6 7
    = ((JSON 200 \<lparr>sr_Username = ''root'', sr_MustChangePassword = False\<rparr>, c), a')" by blast
  have "sess_ttl (au_Sessions example_auth) = 1000" by (simp add: example_auth_def NewSessions_def)
  with Login_accepted [OF l refl, of 900 example_auth_env "''10.9.9.9:1''" None 900 900 900]
  obtain ck where c: "c = Some ck"
    and m: "fst (Middleware example_auth_env a' ''10.9.9.9:1'' (Some (ck_Value ck)) None 900 900 900 900) = Next ''root''"
    by auto
  obtain b' where m': "Middleware example_auth_env a' ''10.9.9.9:1'' (Some (ck_Value ck)) None 900 900 900 900
      = (Next ''root'', b')" using m by (metis prod.collapse)
  have "auth_run example_auth ([] @ [Granted (ck_Value ck) ''root'']) a'"
    using logged_in [OF l [unfolded c]] auth_snoc [OF auth_nil] by (simp only: session_response_name)
  moreover have "sess_m (au_Sessions example_auth) = Mapping.empty"
    by (simp add: example_auth_def NewSessions_def)
  ultimately show ?thesis using cookie_goes_back_to_login [OF _ _ m'] by fastforce
qed

end
