(* ===== verification/Boot.thy ===== *)
theory Boot
  imports Go_Regexp
begin

section \<open>The loader's files: internal/boot\<close>

text \<open>
  \<^verbatim>\<open>RenderConfig\<close> of internal/boot/bootcfg.go with its four expressions, the prefixes and URLs
  it is given, and the search for a loader file of internal/boot/image.go over what
  \<^verbatim>\<open>os.Stat\<close> says. The rendering is shown to be a line by line transformation.
\<close>

subsection \<open>bootcfg.go\<close>

record Params =
  p_Prefix :: string
  p_KickstartURL :: string
  p_Mac :: string
  p_IP :: string
  p_Netmask :: string
  p_Gateway :: string
  p_Vlan :: string
  p_AllowLegacyCPU :: bool

definition pathSeparator :: matcher where "pathSeparator = literal ''/''"

definition cdromBoot :: matcher where "cdromBoot = literal ''cdromBoot''"

definition kernelOpt :: matcher where "kernelOpt = literal_line ''kernelopt=''"

definition boot_prefix :: matcher where "boot_prefix = literal ''prefix=''"

definition appendKernelOpt :: "string \<Rightarrow> string \<Rightarrow> string" where
  "appendKernelOpt src s =
     (case regexp_Find kernelOpt src of
        None \<Rightarrow> src
      | Some o1 \<Rightarrow> ReplaceAllLiteral kernelOpt src (o1 @ s))"

definition RenderConfig :: "string \<Rightarrow> Params \<Rightarrow> string" where
  "RenderConfig src p =
     (let out = ReplaceAllLiteral pathSeparator src [];
          out = ReplaceAllLiteral cdromBoot out [];
          out = appendKernelOpt out ('' ks='' @ p_KickstartURL p);
          out = appendKernelOpt out ('' netdevice='' @ p_Mac p @ '' ip='' @ p_IP p @ '' netmask=''
                  @ p_Netmask p @ '' gateway='' @ p_Gateway p);
          out = (if p_Vlan p \<noteq> [] then appendKernelOpt out ('' vlanid='' @ p_Vlan p) else out);
          out = (if p_AllowLegacyCPU p then appendKernelOpt out '' allowLegacyCPU=true'' else out)
      in case regexp_Find boot_prefix out of
           Some o1 \<Rightarrow> ReplaceAllLiteral boot_prefix out (o1 @ p_Prefix p)
         | None \<Rightarrow> out)"

definition KickstartURL :: "string \<Rightarrow> int \<Rightarrow> string" where
  "KickstartURL host port = ''https://'' @ host @ '':'' @ Itoa port @ ''/ks.cfg''"

definition HTTPPrefix :: "string \<Rightarrow> string \<Rightarrow> int \<Rightarrow> string" where
  "HTTPPrefix scheme host port = scheme @ ''://'' @ host @ '':'' @ Itoa port @ ''/esx/''"

definition TFTPPrefix :: "string \<Rightarrow> string" where
  "TFTPPrefix imagePath =
     (let trimmed = TrimSuffix imagePath ''/''
      in case split_last (CHR ''/'') trimmed of Some (dir, name) \<Rightarrow> name | None \<Rightarrow> trimmed)"

subsection \<open>image.go\<close>

text \<open>\<^verbatim>\<open>filepath.Clean\<close>, element by element with the result reversed, and \<^verbatim>\<open>filepath.Join\<close> of two
  elements.\<close>

fun clean_elems :: "bool \<Rightarrow> string list \<Rightarrow> string list \<Rightarrow> string list" where
  "clean_elems rooted acc [] = rev acc"
| "clean_elems rooted acc (e # es) =
     (if e = [] \<or> e = ''.'' then clean_elems rooted acc es
      else if e = ''..'' then
        (case acc of
           [] \<Rightarrow> clean_elems rooted (if rooted then [] else [''..'']) es
         | a # as \<Rightarrow> clean_elems rooted (if a = ''..'' then ''..'' # acc else as) es)
      else clean_elems rooted (e # acc) es)"

definition Clean :: "string \<Rightarrow> string" where
  "Clean path =
     (let rooted = (path \<noteq> [] \<and> hd path = CHR ''/'');
          es = clean_elems rooted [] (Split path (CHR ''/''));
          s = Join es ''/''
      in if rooted then CHR ''/'' # s else if s = [] then ''.'' else s)"

definition Join2 :: "string \<Rightarrow> string \<Rightarrow> string" where
  "Join2 a b =
     (if a = [] then (if b = [] then [] else Clean b)
      else if b = [] then Clean a else Clean (a @ ''/'' @ b))"

definition mbootPaths :: "string list" where
  "mbootPaths = [''EFI/BOOT/BOOTX64.EFI'', ''EFI/BOOT/BOOTAA64.EFI'', ''MBOOT.EFI'', ''mboot.efi'',
     ''efi/boot/bootx64.efi'', ''efi/boot/bootaa64.efi'']"

definition crypto64Paths :: "string list" where
  "crypto64Paths = [''EFI/BOOT/CRYPTO64.EFI'', ''efi/boot/crypto64.efi'']"

definition configPaths :: "string list" where
  "configPaths = [''BOOT.CFG'', ''boot.cfg'']"

datatype boot_error = CouldNotLocate string string

fun boot_find :: "(string \<Rightarrow> bool) \<Rightarrow> string \<Rightarrow> string list \<Rightarrow> string \<Rightarrow> boot_error + string" where
  "boot_find stat_ok imagePath [] what = Inl (CouldNotLocate what imagePath)"
| "boot_find stat_ok imagePath (c # cs) what =
     (let p = Join2 imagePath c
      in if stat_ok p then Inr p else boot_find stat_ok imagePath cs what)"

definition Mboot :: "(string \<Rightarrow> bool) \<Rightarrow> string \<Rightarrow> boot_error + string" where
  "Mboot stat_ok imagePath = boot_find stat_ok imagePath mbootPaths ''mboot.efi''"

definition Crypto64 :: "(string \<Rightarrow> bool) \<Rightarrow> string \<Rightarrow> boot_error + string" where
  "Crypto64 stat_ok imagePath = boot_find stat_ok imagePath crypto64Paths ''crypto64.efi''"

definition Config :: "(string \<Rightarrow> bool) \<Rightarrow> string \<Rightarrow> boot_error + string" where
  "Config stat_ok imagePath = boot_find stat_ok imagePath configPaths ''boot.cfg''"

subsection \<open>Rendering is done line by line\<close>

interpretation slash: line_matcher pathSeparator
  unfolding pathSeparator_def by (rule literal_line_matcher) (simp_all add: newline_def)

interpretation cdrom: line_matcher cdromBoot
  unfolding cdromBoot_def by (rule literal_line_matcher) (simp_all add: newline_def)

interpretation kopt: line_matcher kernelOpt
  unfolding kernelOpt_def by (rule literal_line_line_matcher) (simp_all add: newline_def)

interpretation pref: line_matcher boot_prefix
  unfolding boot_prefix_def by (rule literal_line_matcher) (simp_all add: newline_def)

definition has_kernelopt :: "string \<Rightarrow> bool" where
  "has_kernelopt l \<longleftrightarrow> regexp_Find kernelOpt l \<noteq> None"

definition flattened :: "string \<Rightarrow> string" where
  "flattened src = ReplaceAllLiteral cdromBoot (filter (\<lambda>c. c \<noteq> CHR ''/'') src) []"

text \<open>What the rendering adds to the kernel's line.\<close>

definition kernel_options :: "Params \<Rightarrow> string" where
  "kernel_options p =
     '' ks='' @ p_KickstartURL p @ '' netdevice='' @ p_Mac p @ '' ip='' @ p_IP p @ '' netmask=''
     @ p_Netmask p @ '' gateway='' @ p_Gateway p
     @ (if p_Vlan p \<noteq> [] then '' vlanid='' @ p_Vlan p else [])
     @ (if p_AllowLegacyCPU p then '' allowLegacyCPU=true'' else [])"

definition render_line :: "Params \<Rightarrow> string \<Rightarrow> string" where
  "render_line p l =
     ReplaceAllLiteral boot_prefix (if has_kernelopt l then l @ kernel_options p else l)
       (''prefix='' @ p_Prefix p)"

text \<open>At most one line of a file gives kernel options.\<close>

definition one_kernelopt :: "string list \<Rightarrow> bool" where
  "one_kernelopt ls \<longleftrightarrow> length (filter has_kernelopt ls) \<le> 1"

definition append_line :: "string \<Rightarrow> string \<Rightarrow> string" where
  "append_line s l = (if has_kernelopt l then l @ s else l)"

lemma append_line_has:
  "newline \<notin> set l \<Longrightarrow> has_kernelopt (append_line s l) \<longleftrightarrow> has_kernelopt l"
  using Find_literal_line(2) [of l "''kernelopt=''"]
  by (auto simp: append_line_def has_kernelopt_def kernelOpt_def)

lemma append_line_append:
  "newline \<notin> set l \<Longrightarrow> append_line s' (append_line s l) = append_line (s @ s') l"
  using append_line_has [of l s] by (simp add: append_line_def split: if_splits)

lemma one_kernelopt_append:
  "\<forall>l \<in> set ls. newline \<notin> set l \<Longrightarrow> one_kernelopt (map (append_line s) ls) \<longleftrightarrow> one_kernelopt ls"
  by (simp add: one_kernelopt_def filter_map comp_def append_line_has cong: filter_cong)

lemma append_line_newline:
  "newline \<notin> set s \<Longrightarrow> newline \<notin> set l \<Longrightarrow> newline \<notin> set (append_line s l)"
  by (simp add: append_line_def)

lemma appendKernelOpt_lines:
  assumes "\<forall>l \<in> set ls. newline \<notin> set l" and "one_kernelopt ls"
  shows "appendKernelOpt (Join ls [newline]) s = Join (map (append_line s) ls) [newline]"
proof (cases "List.map_filter (regexp_Find kernelOpt) ls")
  case Nil
  then have "\<forall>l \<in> set ls. regexp_Find kernelOpt l = None"
    by (auto simp: List.map_filter_def filter_empty_conv)
  then have "map (append_line s) ls = ls" by (intro map_idI) (simp add: append_line_def has_kernelopt_def)
  then show ?thesis using Nil kopt.Find_Join [OF assms(1)] by (simp add: appendKernelOpt_def)
next
  case (Cons x xs)
  have "length (List.map_filter (regexp_Find kernelOpt) ls) \<le> 1"
    using assms(2) by (simp add: one_kernelopt_def has_kernelopt_def [abs_def] List.map_filter_def)
  with Cons have x: "List.map_filter (regexp_Find kernelOpt) ls = [x]" by simp
  have f: "regexp_Find kernelOpt (Join ls [newline]) = Some x"
    using kopt.Find_Join [OF assms(1)] x by simp
  have "ReplaceAllLiteral kernelOpt l (x @ s) = append_line s l" if "l \<in> set ls" for l
  proof (cases "regexp_Find kernelOpt l")
    case None
    then show ?thesis by (simp add: append_line_def has_kernelopt_def Find_None_Replace)
  next
    case (Some y)
    then have "y \<in> set (List.map_filter (regexp_Find kernelOpt) ls)"
      using that by (auto simp: set_map_filter)
    then have "y = x" using x by simp
    then show ?thesis
      using Some Find_literal_line(1) [of l "''kernelopt=''" x s] assms(1) that
      by (simp add: append_line_def has_kernelopt_def kernelOpt_def)
  qed
  then have "map (\<lambda>l. ReplaceAllLiteral kernelOpt l (x @ s)) ls = map (append_line s) ls" by simp
  then show ?thesis
    by (simp only: appendKernelOpt_def f option.case kopt.Replace_Join [OF assms(1)])
qed

lemma Find_literal: "regexp_Find (literal p) s = Some x \<Longrightarrow> x = p"
  by (induction s) (auto simp: literal_def split: option.splits)

lemma set_Replace: "set (ReplaceAllLiteral m s repl) \<subseteq> set s \<union> set repl"
proof (induction m s repl rule: ReplaceAllLiteral.induct)
  case (2 m c cs repl)
  then show ?case
    using set_drop_subset by (fastforce split: option.splits)
qed simp

text \<open>The rendering before the prefix goes in: it does not depend on the prefix.\<close>

definition render_common :: "string \<Rightarrow> Params \<Rightarrow> string" where
  "render_common src p =
     (let out = appendKernelOpt (flattened src) ('' ks='' @ p_KickstartURL p);
          out = appendKernelOpt out ('' netdevice='' @ p_Mac p @ '' ip='' @ p_IP p @ '' netmask=''
                  @ p_Netmask p @ '' gateway='' @ p_Gateway p);
          out = (if p_Vlan p \<noteq> [] then appendKernelOpt out ('' vlanid='' @ p_Vlan p) else out)
      in if p_AllowLegacyCPU p then appendKernelOpt out '' allowLegacyCPU=true'' else out)"

lemma RenderConfig_common:
  "RenderConfig src p = ReplaceAllLiteral boot_prefix (render_common src p) (''prefix='' @ p_Prefix p)"
  using Find_literal [of "''prefix=''" "render_common src p"]
  by (auto simp: RenderConfig_def render_common_def flattened_def pathSeparator_def Replace_char
      boot_prefix_def Let_def Find_None_Replace split: option.splits)

definition clean_params :: "Params \<Rightarrow> bool" where
  "clean_params p \<longleftrightarrow> newline \<notin> set (kernel_options p)"

lemma Join_map_append_line:
  assumes "\<forall>l \<in> set ls. newline \<notin> set l" and "one_kernelopt ls" and "newline \<notin> set s"
  shows "appendKernelOpt (Join (map (append_line s) ls) [newline]) s'
    = Join (map (append_line (s @ s')) ls) [newline]"
proof -
  have "\<forall>l \<in> set (map (append_line s) ls). newline \<notin> set l" "one_kernelopt (map (append_line s) ls)"
    using assms append_line_newline one_kernelopt_append by auto
  from appendKernelOpt_lines [OF this] have
    "appendKernelOpt (Join (map (append_line s) ls) [newline]) s'
      = Join (map (\<lambda>l. append_line s' (append_line s l)) ls) [newline]" by (simp add: comp_def)
  also have "map (\<lambda>l. append_line s' (append_line s l)) ls = map (append_line (s @ s')) ls"
    using assms(1) append_line_append by (intro map_cong) auto
  finally show ?thesis .
qed

lemma render_common_lines:
  assumes "\<forall>l \<in> set ls. newline \<notin> set l" and "one_kernelopt ls" and "clean_params p"
    and "flattened src = Join ls [newline]"
  shows "render_common src p = Join (map (append_line (kernel_options p)) ls) [newline]"
proof -
  have n: "newline \<notin> set ('' ks='' @ p_KickstartURL p)"
    "newline \<notin> set (('' ks='' @ p_KickstartURL p) @ '' netdevice='' @ p_Mac p @ '' ip='' @ p_IP p
      @ '' netmask='' @ p_Netmask p @ '' gateway='' @ p_Gateway p)"
    "p_Vlan p \<noteq> [] \<Longrightarrow> newline \<notin> set ((('' ks='' @ p_KickstartURL p) @ '' netdevice='' @ p_Mac p
      @ '' ip='' @ p_IP p @ '' netmask='' @ p_Netmask p @ '' gateway='' @ p_Gateway p)
      @ '' vlanid='' @ p_Vlan p)"
    using assms(3) by (auto simp: clean_params_def kernel_options_def split: if_splits)
  note step = Join_map_append_line [OF assms(1,2)]
  show ?thesis
    using n unfolding render_common_def Let_def assms(4) appendKernelOpt_lines [OF assms(1,2)]
    by (simp add: step kernel_options_def)
qed

lemma RenderConfig_lines:
  assumes "one_kernelopt (Split (flattened src) newline)" and "clean_params p"
  shows "RenderConfig src p = Join (map (render_line p) (Split (flattened src) newline)) [newline]"
proof -
  let ?ls = "Split (flattened src) newline"
  have n: "\<forall>l \<in> set ?ls. newline \<notin> set l" using Split_no_sep by blast
  have "render_common src p = Join (map (append_line (kernel_options p)) ?ls) [newline]"
    by (rule render_common_lines [OF n assms]) (simp add: Join_Split)
  moreover have "\<forall>l \<in> set (map (append_line (kernel_options p)) ?ls). newline \<notin> set l"
    using n assms(2) append_line_newline by (auto simp: clean_params_def)
  moreover have "(\<lambda>l. ReplaceAllLiteral boot_prefix (append_line (kernel_options p) l) (''prefix='' @ p_Prefix p))
      = render_line p" by (rule ext) (simp add: append_line_def render_line_def)
  ultimately show ?thesis
    by (simp only: RenderConfig_common pref.Replace_Join map_map comp_def)
qed

subsection \<open>Properties\<close>

text \<open>C12: rendering is a line by line transformation of the file without its slashes and
  \<^verbatim>\<open>cdromBoot\<close>: the line that gives kernel options has exactly the host's options appended,
  the prefix is filled in where a line asks for it, and every other line stays as it is and
  where it is.\<close>

theorem render_config_lines:
  assumes "one_kernelopt (Split (flattened src) newline)" and "clean_params p"
    and "newline \<notin> set (p_Prefix p)"
  shows "Split (RenderConfig src p) newline = map (render_line p) (Split (flattened src) newline)
    \<and> CHR ''/'' \<notin> set (flattened src)"
proof
  have "newline \<notin> set (render_line p l)" if "newline \<notin> set l" for l
    using that assms(2,3)
    by (auto simp: render_line_def clean_params_def newline_def dest!: set_Replace [THEN subsetD])
  then have "\<forall>l \<in> set (map (render_line p) (Split (flattened src) newline)). newline \<notin> set l"
    using Split_no_sep by fastforce
  then show "Split (RenderConfig src p) newline = map (render_line p) (Split (flattened src) newline)"
    unfolding RenderConfig_lines [OF assms(1,2)] by (intro Split_Join) simp_all
  show "CHR ''/'' \<notin> set (flattened src)"
    by (auto simp: flattened_def dest!: set_Replace [THEN subsetD])
qed

definition example_params :: Params where
  "example_params = \<lparr>p_Prefix = ''img'', p_KickstartURL = ''https://h/ks.cfg'', p_Mac = ''m'', p_IP = ''i'',
     p_Netmask = ''n'', p_Gateway = ''g'', p_Vlan = [], p_AllowLegacyCPU = False\<rparr>"

definition example_cfg :: string where
  "example_cfg = ''kernel=/b.b00'' @ [newline] @ ''kernelopt=cdromBoot x'' @ [newline] @ ''prefix=''"

theorem render_config_lines_witness:
  "Split (RenderConfig example_cfg example_params) newline =
     [''kernel=b.b00'',
      ''kernelopt= x ks=https://h/ks.cfg netdevice=m ip=i netmask=n gateway=g'', ''prefix=img'']"
proof -
  have f: "Split (flattened example_cfg) newline = [''kernel=b.b00'', ''kernelopt= x'', ''prefix='']"
    by code_simp
  have "one_kernelopt [''kernel=b.b00'', ''kernelopt= x'', ''prefix='']" by code_simp
  moreover have "clean_params example_params" by code_simp
  moreover have "newline \<notin> set (p_Prefix example_params)" by code_simp
  moreover have "map (render_line example_params) [''kernel=b.b00'', ''kernelopt= x'', ''prefix=''] =
     [''kernel=b.b00'',
      ''kernelopt= x ks=https://h/ks.cfg netdevice=m ip=i netmask=n gateway=g'', ''prefix=img'']"
    by code_simp
  ultimately show ?thesis using render_config_lines [of example_cfg example_params] f by simp
qed

text \<open>the transports differ in one respect: for two sets of parameters that agree but for
  the prefix, the rendered files come from one and the same text, in which every
  \<^verbatim>\<open>prefix=\<close> is followed by the respective prefix.\<close>

theorem render_config_prefix_only:
  assumes "p' = p\<lparr>p_Prefix := x\<rparr>"
  shows "\<exists>text. RenderConfig src p = ReplaceAllLiteral boot_prefix text (''prefix='' @ p_Prefix p)
    \<and> RenderConfig src p' = ReplaceAllLiteral boot_prefix text (''prefix='' @ x)"
proof -
  have "render_common src p' = render_common src p" unfolding assms by (simp add: render_common_def Let_def)
  then show ?thesis
    using RenderConfig_common [of src p] RenderConfig_common [of src p'] by (auto simp: assms)
qed

theorem render_config_prefix_only_witness:
  "\<exists>text. RenderConfig example_cfg example_params
      = ReplaceAllLiteral boot_prefix text (''prefix='' @ p_Prefix example_params)
    \<and> RenderConfig example_cfg (example_params\<lparr>p_Prefix := ''https://h:443/esx/''\<rparr>)
      = ReplaceAllLiteral boot_prefix text (''prefix='' @ ''https://h:443/esx/'')"
  by (rule render_config_prefix_only) (rule refl)

text \<open>the prefix of a host that boots over TFTP is the last element of the image's path,
  with or without a slash at the end, however the path begins.\<close>

theorem tftp_prefix_last_element:
  assumes "CHR ''/'' \<notin> set name" and "name \<noteq> []"
  shows "TFTPPrefix (dir @ ''/'' @ name) = name \<and> TFTPPrefix (dir @ ''/'' @ name @ ''/'') = name
    \<and> TFTPPrefix name = name"
proof -
  obtain c cs where n: "rev name = c # cs" using assms(2) by (cases "rev name") auto
  then have c: "c \<noteq> CHR ''/''" using assms(1) by (metis list.set_intros(1) set_rev)
  have "TrimSuffix (s @ name) ''/'' = s @ name" for s
    using n c by (simp add: TrimSuffix_def)
  moreover have "TrimSuffix (s @ name @ ''/'') ''/'' = s @ name" for s
    by (simp add: TrimSuffix_def)
  moreover have "split_last (CHR ''/'') (dir @ CHR ''/'' # name) = Some (dir, name)"
    using assms(1) by (simp add: split_last_Some)
  moreover have "split_last (CHR ''/'') name = None" using assms(1) by (simp add: split_last_None)
  ultimately show ?thesis
    using \<open>\<And>s. TrimSuffix (s @ name) ''/'' = s @ name\<close> [of "[]"]
      \<open>\<And>s. TrimSuffix (s @ name) ''/'' = s @ name\<close> [of "dir @ ''/''"]
      \<open>\<And>s. TrimSuffix (s @ name @ ''/'') ''/'' = s @ name\<close> [of "dir @ ''/''"]
    by (simp add: TFTPPrefix_def)
qed

theorem tftp_prefix_last_element_witness:
  "TFTPPrefix ''./images/esx8'' = ''esx8'' \<and> TFTPPrefix ''./images/esx8/'' = ''esx8''"
  using tftp_prefix_last_element [of "''esx8''" "''./images''"] by simp

text \<open>the search for a loader file returns the first candidate that exists, in the order of
  the list, and fails exactly when there is none.\<close>

theorem boot_find_first:
  "case boot_find stat_ok imagePath cs what of
     Inr p \<Rightarrow> (\<exists>pre c post. cs = pre @ c # post \<and> p = Join2 imagePath c \<and> stat_ok p
                  \<and> \<not> (\<exists>x \<in> set pre. stat_ok (Join2 imagePath x)))
   | Inl e \<Rightarrow> e = CouldNotLocate what imagePath \<and> \<not> (\<exists>x \<in> set cs. stat_ok (Join2 imagePath x))"
proof (induction cs)
  case (Cons c cs)
  show ?case
  proof (cases "stat_ok (Join2 imagePath c)")
    case True
    then show ?thesis by (force simp: Let_def intro: exI [of _ "[]"])
  next
    case False
    show ?thesis
    proof (cases "boot_find stat_ok imagePath cs what")
      case (Inl e)
      then show ?thesis using Cons False by simp
    next
      case (Inr p)
      with Cons obtain pre d post where "cs = pre @ d # post" "p = Join2 imagePath d" "stat_ok p"
        "\<not> (\<exists>x \<in> set pre. stat_ok (Join2 imagePath x))" by auto
      then have "c # cs = (c # pre) @ d # post" "\<not> (\<exists>x \<in> set (c # pre). stat_ok (Join2 imagePath x))"
        using False by auto
      then have "\<exists>pre c' post. c # cs = pre @ c' # post \<and> p = Join2 imagePath c' \<and> stat_ok p
          \<and> \<not> (\<exists>x \<in> set pre. stat_ok (Join2 imagePath x))"
        using \<open>p = Join2 imagePath d\<close> \<open>stat_ok p\<close> by blast
      moreover have "boot_find stat_ok imagePath (c # cs) what = Inr p"
        using Inr False by (simp add: Let_def)
      ultimately show ?thesis by (simp only: sum.case)
    qed
  qed
qed simp

end
