(* ===== verification/Boot_Serve.thy ===== *)
theory Boot_Serve
  imports Boot Model_Types
begin

section \<open>Serving the loader: internal/tftp and internal/server/uefi.go\<close>

text \<open>
  The two transports a host boots over. Each is a function from the request to what is sent
  and the hosts that are saved on the way, which is how the progress of an installation is
  recorded. The database and the file system are the queries the code makes, as fields of an
  environment: \<^verbatim>\<open>First\<close> leaves the zero value behind when it finds nothing, and the code does
  not look at its error. The transfer of the bytes is the library's.
\<close>

record serve_env =
  host_by_ip :: "string \<Rightarrow> db_error + host"
  image_by_id :: "int \<Rightarrow> db_error + image"
  group_by_ref :: "NullInt32 \<Rightarrow> db_error + group"
  stat_ok :: "string \<Rightarrow> bool"
  read_file :: "string \<Rightarrow> string option"
  unicode_upper :: "string \<Rightarrow> string"
  conf_port :: int

definition host_for :: "serve_env \<Rightarrow> string \<Rightarrow> host" where
  "host_for env ip = (case host_by_ip env ip of Inl e \<Rightarrow> zero_host | Inr h \<Rightarrow> h)"

definition image_for :: "serve_env \<Rightarrow> host \<Rightarrow> image" where
  "image_for env host =
     (case image_by_id env (g_ImageID (h_Group host)) of Inl e \<Rightarrow> zero_image | Inr i \<Rightarrow> i)"

definition group_for :: "serve_env \<Rightarrow> host \<Rightarrow> group" where
  "group_for env host = (case group_by_ref env (h_GroupID host) of Inl e \<Rightarrow> zero_group | Inr g \<Rightarrow> g)"

text \<open>The address part of a remote address; the error is dropped, which leaves it empty.\<close>

definition host_part :: "string \<Rightarrow> string" where
  "host_part addr = (case SplitHostPort addr of None \<Rightarrow> [] | Some (h, p) \<Rightarrow> h)"

definition at_stage :: "host \<Rightarrow> int \<Rightarrow> string \<Rightarrow> host" where
  "at_stage host progress name = host\<lparr>h_Progress := progress, h_Progresstext := name\<rparr>"

text \<open>The parameters of a host's boot.cfg, but for the prefix.\<close>

definition boot_params :: "serve_env \<Rightarrow> host \<Rightarrow> string \<Rightarrow> string \<Rightarrow> Params" where
  "boot_params env host localip prefix =
     (let group = group_for env host
      in \<lparr>p_Prefix = prefix, p_KickstartURL = KickstartURL localip (conf_port env),
          p_Mac = h_Mac host, p_IP = h_IP host, p_Netmask = g_Netmask group,
          p_Gateway = g_Gateway group, p_Vlan = g_Vlan (h_Group host), p_AllowLegacyCPU = True\<rparr>)"

datatype serve_error = NotLocated boot_error | Unreadable string

subsection \<open>TFTP\<close>

datatype tftp_reply = Sent string | Failed serve_error

definition tftp_serveBootCfg ::
    "serve_env \<Rightarrow> host \<Rightarrow> image \<Rightarrow> string \<Rightarrow> tftp_reply \<times> host list" where
  "tftp_serveBootCfg env host img localip =
     (let host = at_stage host 15 ''installation''
      in case Config (stat_ok env) (i_Path img) of
           Inl e \<Rightarrow> (Failed (NotLocated e), [host])
         | Inr path \<Rightarrow>
             (case read_file env path of
                None \<Rightarrow> (Failed (Unreadable path), [host])
              | Some bc \<Rightarrow>
                  (Sent (RenderConfig bc (boot_params env host localip (TFTPPrefix (i_Path img)))), [host])))"

definition send_file :: "serve_env \<Rightarrow> string \<Rightarrow> tftp_reply" where
  "send_file env filename =
     (if \<not> stat_ok env filename then Failed (Unreadable filename)
      else case read_file env filename of None \<Rightarrow> Failed (Unreadable filename) | Some bs \<Rightarrow> Sent bs)"

text \<open>\<^verbatim>\<open>path.Split\<close>: up to and including the last slash, and what follows it.\<close>

definition path_Split :: "string \<Rightarrow> string \<times> string" where
  "path_Split p = (case split_last (CHR ''/'') p of None \<Rightarrow> ([], p) | Some (d, f) \<Rightarrow> (d @ ''/'', f))"

definition tftp_default :: "serve_env \<Rightarrow> string \<Rightarrow> string" where
  "tftp_default env filename =
     (if stat_ok env (''images/'' @ filename) then ''images/'' @ filename
      else (case path_Split filename of
              (dir, file) \<Rightarrow> ''images/'' @ dir @ ToUpper (unicode_upper env) file))"

definition readHandler ::
    "serve_env \<Rightarrow> string \<Rightarrow> string \<Rightarrow> string \<Rightarrow> tftp_reply \<times> host list" where
  "readHandler env raddr laddr filename =
     (let ip = host_part raddr;
          host = host_for env ip;
          img = image_for env host
      in if filename = ''mboot.efi'' then
           (case Mboot (stat_ok env) (i_Path img) of
              Inl e \<Rightarrow> (Failed (NotLocated e), [])
            | Inr mboot \<Rightarrow> (send_file env mboot, [at_stage host 10 ''mboot.efi'']))
         else if filename = ''crypto64.efi'' then
           (case Crypto64 (stat_ok env) (i_Path img) of
              Inl e \<Rightarrow> (Failed (NotLocated e), [])
            | Inr crypto \<Rightarrow> (send_file env crypto, [at_stage host 12 ''crypto64.efi'']))
         else if filename = ''boot.cfg'' \<or> filename = ''/boot.cfg'' then
           tftp_serveBootCfg env host img laddr
         else (send_file env (tftp_default env filename), []))"

subsection \<open>HTTP\<close>

datatype http_reply = File string | Data string | ServerError string

definition serveLoader ::
    "host \<Rightarrow> (string \<Rightarrow> boot_error + string) \<Rightarrow> string \<Rightarrow> string \<Rightarrow> int \<Rightarrow> http_reply \<times> host list" where
  "serveLoader host locate imagePath name progress =
     (case locate imagePath of
        Inl e \<Rightarrow> (ServerError (''could not locate '' @ name), [])
      | Inr path \<Rightarrow> (File path, [at_stage host progress name]))"

definition uefi_serveBootCfg ::
    "serve_env \<Rightarrow> host \<Rightarrow> image \<Rightarrow> string \<Rightarrow> (serve_error + string) \<times> host list" where
  "uefi_serveBootCfg env host img localip =
     (let host = at_stage host 15 ''installation''
      in case Config (stat_ok env) (i_Path img) of
           Inl e \<Rightarrow> (Inl (NotLocated e), [host])
         | Inr path \<Rightarrow>
             (case read_file env path of
                None \<Rightarrow> (Inl (Unreadable path), [host])
              | Some bc \<Rightarrow>
                  (Inr (RenderConfig bc (boot_params env host localip
                          (HTTPPrefix ''https'' localip (conf_port env)))), [host])))"

definition Files ::
    "serve_env \<Rightarrow> string \<Rightarrow> string \<Rightarrow> string \<Rightarrow> http_reply \<times> host list" where
  "Files env remoteAddr localAddr filepath =
     (let ip = host_part remoteAddr;
          host = host_for env ip;
          img = image_for env host
      in if filepath = ''/mboot.efi'' then
           serveLoader host (Mboot (stat_ok env)) (i_Path img) ''mboot.efi'' 10
         else if filepath = ''/crypto64.efi'' then
           serveLoader host (Crypto64 (stat_ok env)) (i_Path img) ''crypto64.efi'' 12
         else if filepath = ''boot.cfg'' \<or> filepath = ''/boot.cfg'' then
           (case uefi_serveBootCfg env host img (host_part localAddr) of
              (Inl e, hs) \<Rightarrow> (ServerError ''failed to generate boot.cfg'', hs)
            | (Inr bootconfig, hs) \<Rightarrow> (Data bootconfig, hs))
         else
           (File (if stat_ok env (i_Path img @ filepath) then i_Path img @ filepath
                  else i_Path img @ ToUpper (unicode_upper env) filepath), []))"

subsection \<open>Properties\<close>

lemma boot_params_stage [simp]:
  "boot_params env (at_stage host n s) localip prefix = boot_params env host localip prefix"
  by (simp add: boot_params_def at_stage_def group_for_def)

lemma boot_params_prefix:
  "boot_params env host localip x = (boot_params env host localip y)\<lparr>p_Prefix := x\<rparr>"
  by (simp add: boot_params_def Let_def)

text \<open>C25: a host gets the same boot.cfg over both transports but for the prefix: both render one
  and the same text, made from the host's own address, network and kickstart, the one with
  the name of the image directory and the other with a URL on this server; both record the
  same progress, and one fails exactly when the other does.\<close>

theorem boot_cfg_same_over_transports:
  "case (readHandler env raddr (host_part localAddr) ''boot.cfg'', Files env raddr localAddr ''/boot.cfg'') of
      ((Sent t, hs), (Data h, hs')) \<Rightarrow>
         hs = hs' \<and> (\<exists>text. t = ReplaceAllLiteral boot_prefix text (''prefix='' @
             TFTPPrefix (i_Path (image_for env (host_for env (host_part raddr)))))
           \<and> h = ReplaceAllLiteral boot_prefix text (''prefix='' @
             HTTPPrefix ''https'' (host_part localAddr) (conf_port env)))
    | ((Failed e, hs), (ServerError m, hs')) \<Rightarrow> hs = hs'
    | _ \<Rightarrow> False"
proof -
  let ?host = "host_for env (host_part raddr)" and ?l = "host_part localAddr"
  have c: "render_common src (boot_params env ?host ?l x) = render_common src (boot_params env ?host ?l y)"
    for src x y by (simp add: render_common_def boot_params_def Let_def)
  have p: "p_Prefix (boot_params env ?host ?l x) = x" for x by (simp add: boot_params_def Let_def)
  have "RenderConfig src (boot_params env ?host ?l x) = ReplaceAllLiteral boot_prefix
      (render_common src (boot_params env ?host ?l [])) (''prefix='' @ x)" for src x
    using RenderConfig_common [of src "boot_params env ?host ?l x"] c [of src x "[]"] p by simp
  then show ?thesis
    by (auto simp: readHandler_def Files_def tftp_serveBootCfg_def uefi_serveBootCfg_def Let_def
        split: sum.splits option.splits)
qed

text \<open>the progress of a host moves only when it fetches one of the three loader files, to 10
  for the loader, 12 for the verifier and 15 for its configuration, and only for the host on
  record at the address that asks; in every other respect the record stays as it is.\<close>

theorem boot_progress:
  assumes "snd (readHandler env raddr laddr f) = hs \<or> snd (Files env raddr localAddr (''/'' @ f)) = hs"
  shows "hs = []
    \<or> (f = ''mboot.efi'' \<and> hs = [at_stage (host_for env (host_part raddr)) 10 ''mboot.efi''])
    \<or> (f = ''crypto64.efi'' \<and> hs = [at_stage (host_for env (host_part raddr)) 12 ''crypto64.efi''])
    \<or> (f \<in> {''boot.cfg'', ''/boot.cfg''}
        \<and> hs = [at_stage (host_for env (host_part raddr)) 15 ''installation''])"
  using assms
  by (auto simp: readHandler_def Files_def serveLoader_def tftp_serveBootCfg_def uefi_serveBootCfg_def Let_def
      split: sum.splits option.splits if_splits)

definition example_serve :: serve_env where
  "example_serve = \<lparr>host_by_ip = (\<lambda>_. Inl ErrRecordNotFound), image_by_id = (\<lambda>_. Inl ErrRecordNotFound),
     group_by_ref = (\<lambda>_. Inl ErrRecordNotFound), stat_ok = (\<lambda>p. Clean p = ''secret/secret.key''),
     read_file = (\<lambda>p. if Clean p = ''secret/secret.key'' then Some ''00ff'' else None),
     unicode_upper = (\<lambda>s. s), conf_port = 443\<rparr>"

theorem boot_progress_witness:
  "snd (readHandler example_serve ''10.0.0.9:4011'' ''10.0.0.1'' ''b.b00'') = []"
  using boot_progress [OF disjI1 [OF refl], of example_serve "''10.0.0.9:4011''" "''10.0.0.1''" "''b.b00''"]
  by simp

text \<open>C38: a file name is put behind the image directory unchecked: on a file system that resolves
  paths by their elements, any client of the TFTP server is sent the key that encrypts the
  stored passwords.\<close>

theorem tftp_serves_secret_key:
  assumes "\<And>p q. Clean p = Clean q \<Longrightarrow> stat_ok env p = stat_ok env q"
    and "\<And>p q. Clean p = Clean q \<Longrightarrow> read_file env p = read_file env q"
    and "stat_ok env ''secret/secret.key''" and "read_file env ''secret/secret.key'' = Some key"
  shows "readHandler env raddr laddr ''../secret/secret.key'' = (Sent key, [])"
proof -
  have c: "Clean ''images/../secret/secret.key'' = Clean ''secret/secret.key''" by code_simp
  have "stat_ok env ''images/../secret/secret.key''" "read_file env ''images/../secret/secret.key'' = Some key"
    using assms(1,2) [OF c] assms(3,4) by simp_all
  then show ?thesis by (simp add: readHandler_def tftp_default_def send_file_def Let_def)
qed

theorem tftp_serves_secret_key_witness:
  "readHandler example_serve ''10.0.0.9:4011'' ''10.0.0.1'' ''../secret/secret.key'' = (Sent ''00ff'', [])"
proof -
  have "Clean ''secret/secret.key'' = ''secret/secret.key''" by code_simp
  then show ?thesis by (intro tftp_serves_secret_key) (simp_all add: example_serve_def)
qed

end
