(* ===== verification/Secrets.thy ===== *)
theory Secrets
  imports Go_Crypto
begin

section \<open>Passwords at rest: internal/secrets/main.go\<close>

text \<open>
  The key file and the encryption of ESXi passwords. The random bytes a call draws are an
  argument, \<open>None\<close> when the generator fails; \<^verbatim>\<open>Init\<close> works on what each call to the file
  system returns, in the order of the calls, and yields the content of the key file
  afterwards, which only the final rename changes.
\<close>

datatype secret_error =
    BadKeyHex
  | BadKeySize nat
  | NonceFailure
  | BadCiphertextHex
  | CiphertextTooShort nat
  | AuthenticationFailed
  | ReadFailed
  | StatFailed
  | CreateDirFailed
  | GenerateFailed
  | CreateTempFailed
  | ChmodFailed
  | WriteFailed
  | CloseFailed
  | PersistFailed

definition keySize :: nat where
  "keySize = 32"

text \<open>An AES-GCM cipher is its key.\<close>

definition newGCM :: "string \<Rightarrow> secret_error + bytes" where
  "newGCM keyString =
     (case hex_DecodeString keyString of
        None \<Rightarrow> Inl BadKeyHex
      | Some key \<Rightarrow> if aes_key key then Inr key else Inl (BadKeySize (length key)))"

definition Encrypt :: "string \<Rightarrow> string \<Rightarrow> bytes option \<Rightarrow> secret_error + string" where
  "Encrypt plaintext keyString random =
     (case newGCM keyString of
        Inl e \<Rightarrow> Inl e
      | Inr key \<Rightarrow>
          (case random of
             None \<Rightarrow> Inl NonceFailure
           | Some nonce \<Rightarrow>
               (let ciphertext = gcm_Seal key nonce nonce (bytes_of plaintext)
                in Inr (hex_EncodeToString ciphertext))))"

definition Decrypt :: "string \<Rightarrow> string \<Rightarrow> secret_error + string" where
  "Decrypt encrypted keyString =
     (case newGCM keyString of
        Inl e \<Rightarrow> Inl e
      | Inr key \<Rightarrow>
          (case hex_DecodeString encrypted of
             None \<Rightarrow> Inl BadCiphertextHex
           | Some enc \<Rightarrow>
               if length enc < NonceSize + Overhead then Inl (CiphertextTooShort (length enc))
               else
                 (let nonce = take NonceSize enc; ciphertext = drop NonceSize enc
                  in case gcm_Open key nonce ciphertext of
                       None \<Rightarrow> Inl AuthenticationFailed
                     | Some plaintext \<Rightarrow> Inr (string_of plaintext))))"

datatype stat_result = Found | NotExist | StatError

record key_io =
  k_stat :: stat_result
  k_read :: "string option"
  k_mkdir :: bool
  k_random :: "bytes option"
  k_create :: bool
  k_chmod :: bool
  k_write :: bool
  k_close :: bool
  k_rename :: bool

definition Init :: "key_io \<Rightarrow> string option \<Rightarrow> (secret_error + string) \<times> string option" where
  "Init io file =
     (case k_stat io of
        Found \<Rightarrow> (case k_read io of None \<Rightarrow> (Inl ReadFailed, file) | Some key \<Rightarrow> (Inr key, file))
      | StatError \<Rightarrow> (Inl StatFailed, file)
      | NotExist \<Rightarrow>
          if \<not> k_mkdir io then (Inl CreateDirFailed, file)
          else
            (case k_random io of
               None \<Rightarrow> (Inl GenerateFailed, file)
             | Some b \<Rightarrow>
                 (let hexkey = hex_EncodeToString b
                  in if \<not> k_create io then (Inl CreateTempFailed, file)
                     else if \<not> k_chmod io then (Inl ChmodFailed, file)
                     else if \<not> k_write io then (Inl WriteFailed, file)
                     else if \<not> k_close io then (Inl CloseFailed, file)
                     else if \<not> k_rename io then (Inl PersistFailed, file)
                     else (Inr hexkey, Some hexkey))))"

subsection \<open>Properties\<close>

lemma newGCM_hex: "length b = keySize \<Longrightarrow> newGCM (hex_EncodeToString b) = Inr b"
  by (simp add: newGCM_def hex.dec_enc aes_key_def keySize_def)

lemma newGCM_key: "newGCM k = Inr key \<Longrightarrow> aes_key key"
  by (auto simp: newGCM_def split: option.splits if_splits)

lemma gcm_Seal_append: "gcm_Seal key d n p = d @ gcm_Seal key [] n p"
  by (simp add: gcm_Seal_def Let_def)

lemma gcm_Seal_length:
  assumes "aes_key key" and "length n = NonceSize"
  shows "length (gcm_Seal key d n p) = length d + length p + Overhead"
  using key_stream_length [OF assms] gcm_tag_length
  by (simp add: gcm_Seal_def xor_bytes_length Let_def)

lemma Decrypt_Inr:
  assumes "newGCM k = Inr key"
  shows "Decrypt e k = Inr p \<longleftrightarrow> (\<exists>nonce. length nonce = NonceSize
    \<and> hex_DecodeString e = Some (gcm_Seal key nonce nonce (bytes_of p)))"
proof
  assume "\<exists>nonce. length nonce = NonceSize
    \<and> hex_DecodeString e = Some (gcm_Seal key nonce nonce (bytes_of p))"
  then obtain n where n: "length n = NonceSize"
      "hex_DecodeString e = Some (n @ gcm_Seal key [] n (bytes_of p))"
    using gcm_Seal_append by metis
  moreover have "\<not> length (n @ gcm_Seal key [] n (bytes_of p)) < NonceSize + Overhead"
    using gcm_Seal_length [OF newGCM_key [OF assms] n(1), of "[]"] n(1) by simp
  ultimately show "Decrypt e k = Inr p"
    using gcm_Open_Seal [OF newGCM_key [OF assms] n(1)] by (simp add: Decrypt_def assms Let_def)
next
  assume "Decrypt e k = Inr p"
  then obtain enc q where e: "hex_DecodeString e = Some enc" "\<not> length enc < NonceSize + Overhead"
      "gcm_Open key (take NonceSize enc) (drop NonceSize enc) = Some q" "p = string_of q"
    by (auto simp: Decrypt_def assms Let_def split: option.splits if_splits)
  have l: "length (take NonceSize enc) = NonceSize" using e(2) by simp
  have "enc = gcm_Seal key (take NonceSize enc) (take NonceSize enc) q"
    using gcm_Open_Some [OF newGCM_key [OF assms] l e(3)] gcm_Seal_append append_take_drop_id by metis
  then show "\<exists>nonce. length nonce = NonceSize
      \<and> hex_DecodeString e = Some (gcm_Seal key nonce nonce (bytes_of p))"
    using e(1,4) l by (intro exI [of _ "take NonceSize enc"]) simp
qed

lemma Decrypt_Encrypt:
  assumes "Encrypt password key (Some nonce) = Inr c" and "length nonce = NonceSize"
  shows "Decrypt c key = Inr password"
proof -
  obtain k where k: "newGCM key = Inr k" using assms(1) by (auto simp: Encrypt_def split: sum.splits)
  then have "c = hex_EncodeToString (gcm_Seal k nonce nonce (bytes_of password))"
    using assms(1) by (simp add: Encrypt_def Let_def)
  then show ?thesis using Decrypt_Inr [OF k] assms(2) hex.dec_enc by auto
qed

text \<open>C18: with a key that is accepted at all, a password that was encrypted is decrypted to
  itself, whatever it is and whatever nonce was drawn.\<close>

theorem secrets_roundtrip:
  assumes "newGCM key = Inr k" and "length nonce = NonceSize"
  shows "\<exists>c. Encrypt password key (Some nonce) = Inr c \<and> Decrypt c key = Inr password"
proof -
  have "Encrypt password key (Some nonce)
      = Inr (hex_EncodeToString (gcm_Seal k nonce nonce (bytes_of password)))"
    by (simp add: Encrypt_def assms(1) Let_def)
  with Decrypt_Encrypt [OF this assms(2)] show ?thesis by blast
qed

theorem secrets_roundtrip_witness:
  "\<exists>c. Encrypt ''VMware1!'' (hex_EncodeToString (replicate 32 7)) (Some (replicate 12 9)) = Inr c
     \<and> Decrypt c (hex_EncodeToString (replicate 32 7)) = Inr ''VMware1!''"
  by (rule secrets_roundtrip [OF newGCM_hex]) (simp_all add: keySize_def NonceSize_def)

text \<open>C37: nothing but an output of the encryption under the same key is decrypted; every other
  stored value, short and empty ones included, is an error.\<close>

theorem secrets_authentic:
  assumes "Decrypt e key = Inr password"
  shows "\<exists>nonce c. length nonce = NonceSize \<and> Encrypt password key (Some nonce) = Inr c
    \<and> hex_DecodeString e = hex_DecodeString c"
proof -
  obtain k where k: "newGCM key = Inr k"
    using assms by (cases "newGCM key") (simp_all add: Decrypt_def)
  from assms Decrypt_Inr [OF k] obtain n where n: "length n = NonceSize"
    "hex_DecodeString e = Some (gcm_Seal k n n (bytes_of password))" by blast
  show ?thesis
    by (rule exI [of _ n], rule exI [of _ "hex_EncodeToString (gcm_Seal k n n (bytes_of password))"])
      (simp add: n Encrypt_def k hex.dec_enc Let_def)
qed

theorem secrets_authentic_witness:
  "\<exists>e nonce c. length nonce = NonceSize
     \<and> Encrypt ''pw'' (hex_EncodeToString (replicate 32 7)) (Some nonce) = Inr c
     \<and> hex_DecodeString e = hex_DecodeString c"
proof -
  have k: "newGCM (hex_EncodeToString (replicate 32 7)) = Inr (replicate 32 7)"
    by (rule newGCM_hex) (simp add: keySize_def)
  let ?e = "hex_EncodeToString (gcm_Seal (replicate 32 7) (replicate 12 9) (replicate 12 9) (bytes_of ''pw''))"
  have "Decrypt ?e (hex_EncodeToString (replicate 32 7)) = Inr ''pw''"
    unfolding Decrypt_Inr [OF k]
    by (rule exI [of _ "replicate 12 9"]) (simp add: hex.dec_enc NonceSize_def)
  from secrets_authentic [OF this] show ?thesis by blast
qed

text \<open>starting the server leaves a usable key or the key file as it was: a key that \<^verbatim>\<open>Init\<close>
  makes is in the file, whole, and encrypts; if any step fails, the file is untouched.\<close>

theorem key_init:
  assumes "\<And>b. k_random io = Some b \<Longrightarrow> length b = keySize"
    and "k_stat io = Found \<Longrightarrow> k_read io = None \<or> k_read io = file"
  shows "case Init io file of
      (Inr key, file') \<Rightarrow> file' = Some key \<and> (file' \<noteq> file \<longrightarrow> (\<exists>k. newGCM key = Inr k))
    | (Inl e, file') \<Rightarrow> file' = file"
  using assms newGCM_hex by (auto simp: Init_def Let_def split: stat_result.splits option.splits)

theorem key_init_witness:
  "case Init \<lparr>k_stat = NotExist, k_read = None, k_mkdir = True, k_random = Some (replicate 32 7),
       k_create = True, k_chmod = True, k_write = True, k_close = True, k_rename = True\<rparr> None of
      (Inr key, file') \<Rightarrow> file' = Some key \<and> (file' \<noteq> None \<longrightarrow> (\<exists>k. newGCM key = Inr k))
    | (Inl e, file') \<Rightarrow> file' = None"
  by (rule key_init) (simp_all add: keySize_def)

end
