(* ===== verification/Crud.thy ===== *)
theory Crud
  imports Api_Base
begin

section \<open>The handlers all resources share: internal/api/crud.go\<close>

text \<open>
  The generic handlers, over the operations of the database they call. The database is gorm
  over SQLite, which is not part of the program: a table is a record of operations on an
  unspecified state. \<^verbatim>\<open>Find\<close> returns all rows, \<^verbatim>\<open>First\<close> the row with a key, \<^verbatim>\<open>Where\<close> the
  first row that matches a map from columns to values; \<^verbatim>\<open>Create\<close> and \<^verbatim>\<open>Save\<close> return the row as
  stored. The library that merges a form over a row is an argument too.
\<close>

record ('st, 'a) table =
  tb_Find :: "'st \<Rightarrow> db_error + 'a list"
  tb_First :: "'st \<Rightarrow> int \<Rightarrow> db_error + 'a"
  tb_Where :: "'st \<Rightarrow> (string \<times> string) list \<Rightarrow> db_error + 'a"
  tb_Create :: "'st \<Rightarrow> 'a \<Rightarrow> db_error + 'a \<times> 'st"
  tb_Save :: "'st \<Rightarrow> 'a \<Rightarrow> db_error + 'a \<times> 'st"
  tb_Delete :: "'st \<Rightarrow> 'a \<Rightarrow> db_error + 'st"

text \<open>What the library that merges structs does with a field of type string when it overrides:
  an empty source field leaves the destination alone.\<close>

definition or_else :: "string \<Rightarrow> string \<Rightarrow> string" where
  "or_else s d = (if s = [] then d else s)"

definition pathID :: "string \<Rightarrow> api_error + int" where
  "pathID param = (case Atoi param of None \<Rightarrow> Inl (BadId param) | Some i \<Rightarrow> Inr i)"

text \<open>\<^verbatim>\<open>load\<close> writes its error itself: the result is the reply that ends the request, or the row.\<close>

definition load :: "('st, 'a) table \<Rightarrow> 'st \<Rightarrow> int \<Rightarrow> 'b reply + 'a" where
  "load tb st i =
     (case tb_First tb st i of
        Inl ErrRecordNotFound \<Rightarrow> Inl (Error 404 NotFound)
      | Inl e \<Rightarrow> Inl (Error 500 (DBFailure e))
      | Inr item \<Rightarrow> Inr item)"

text \<open>The end of the handlers of groups and hosts: the row is read again for the reply.\<close>

definition reload :: "('st, 'a) table \<Rightarrow> ('a \<Rightarrow> int) \<Rightarrow> 'a \<Rightarrow> 'st \<Rightarrow> 'a reply \<times> 'st" where
  "reload tb key item st =
     (case tb_First tb st (key item) of
        Inl e \<Rightarrow> (Error 500 (DBFailure e), st)
      | Inr item \<Rightarrow> (JSON 200 item, st))"

definition crud_List :: "('st, 'a) table \<Rightarrow> 'st \<Rightarrow> 'a list reply" where
  "crud_List tb st =
     (case tb_Find tb st of Inl e \<Rightarrow> Error 500 (DBFailure e) | Inr items \<Rightarrow> JSON 200 items)"

definition crud_Get :: "('st, 'a) table \<Rightarrow> 'st \<Rightarrow> string \<Rightarrow> 'a reply" where
  "crud_Get tb st param =
     (case pathID param of
        Inl e \<Rightarrow> Error 400 e
      | Inr i \<Rightarrow> (case load tb st i of Inl r \<Rightarrow> r | Inr item \<Rightarrow> JSON 200 item))"

definition crud_Search :: "('st, 'a) table \<Rightarrow> 'st \<Rightarrow> (string \<times> string) list bound \<Rightarrow> 'a reply" where
  "crud_Search tb st body =
     (case body of
        Inl e \<Rightarrow> Error 400 (BadBody e)
      | Inr form \<Rightarrow>
          if length form = 0 then Error 400 NoSearchFields
          else
            (case tb_Where tb st form of
               Inl ErrRecordNotFound \<Rightarrow> Error 404 NotFound
             | Inl e \<Rightarrow> Error 400 (DBFailure e)
             | Inr item \<Rightarrow> JSON 200 item))"

definition crud_Create :: "('st, 'a) table \<Rightarrow> ('f \<Rightarrow> 'a) \<Rightarrow> 'st \<Rightarrow> 'f bound \<Rightarrow> 'a reply \<times> 'st" where
  "crud_Create tb assemble st body =
     (case body of
        Inl e \<Rightarrow> (Error 400 (BadBody e), st)
      | Inr form \<Rightarrow>
          (case tb_Create tb st (assemble form) of
             Inl e \<Rightarrow> (Error 500 (DBFailure e), st)
           | Inr (item, st) \<Rightarrow> (JSON 200 item, st)))"

definition crud_Update ::
    "('st, 'a) table \<Rightarrow> ('a \<Rightarrow> 'a \<Rightarrow> string + 'a) \<Rightarrow> ('f \<Rightarrow> 'a) \<Rightarrow> 'st \<Rightarrow> string \<Rightarrow> 'f bound \<Rightarrow> 'a reply \<times> 'st"
  where
  "crud_Update tb merge assemble st param body =
     (case pathID param of
        Inl e \<Rightarrow> (Error 400 e, st)
      | Inr i \<Rightarrow>
          (case body of
             Inl e \<Rightarrow> (Error 400 (BadBody e), st)
           | Inr form \<Rightarrow>
               (case load tb st i of
                  Inl r \<Rightarrow> (r, st)
                | Inr item \<Rightarrow>
                    (case merge item (assemble form) of
                       Inl e \<Rightarrow> (Error 500 (MergeFailure e), st)
                     | Inr item \<Rightarrow>
                         (case tb_Save tb st item of
                            Inl e \<Rightarrow> (Error 500 (DBFailure e), st)
                          | Inr (item, st) \<Rightarrow> (JSON 200 item, st))))))"

definition crud_Delete :: "('st, 'a) table \<Rightarrow> 'st \<Rightarrow> string \<Rightarrow> 'a reply \<times> 'st" where
  "crud_Delete tb st param =
     (case pathID param of
        Inl e \<Rightarrow> (Error 400 e, st)
      | Inr i \<Rightarrow>
          (case load tb st i of
             Inl r \<Rightarrow> (r, st)
           | Inr item \<Rightarrow>
               (case tb_Delete tb st item of
                  Inl e \<Rightarrow> (Error 500 (DBFailure e), st)
                | Inr st \<Rightarrow> (NoContent, st))))"

subsection \<open>What is documented of the database\<close>

text \<open>
  The behaviour of gorm the handlers rely on. Keys count from one: no row has the key zero, and a
  row with the key zero is one that is not stored yet. A created row is given a key that was
  free, and is found under it; a saved row replaces the row with its key, or is created when it
  has none; a deleted row is gone; other rows are left alone. A lookup of a key returns the row
  with that key.
\<close>

definition created :: "('st, 'a) table \<Rightarrow> (int \<Rightarrow> 'a \<Rightarrow> 'a) \<Rightarrow> 'st \<Rightarrow> 'a \<Rightarrow> 'a \<Rightarrow> 'st \<Rightarrow> bool" where
  "created tb with_key st a b st' \<longleftrightarrow>
     (\<exists>k. b = with_key k a \<and> tb_First tb st k = Inl ErrRecordNotFound \<and> tb_First tb st' k = Inr b
        \<and> (\<forall>k'. k' \<noteq> k \<longrightarrow> tb_First tb st' k' = tb_First tb st k'))"

definition table_laws :: "('st, 'a) table \<Rightarrow> ('a \<Rightarrow> int) \<Rightarrow> (int \<Rightarrow> 'a \<Rightarrow> 'a) \<Rightarrow> bool" where
  "table_laws tb key with_key \<longleftrightarrow>
     (\<forall>st k a. tb_First tb st k = Inr a \<longrightarrow> key a = k \<and> k \<noteq> 0)
   \<and> (\<forall>st a b st'. tb_Create tb st a = Inr (b, st') \<longrightarrow> created tb with_key st a b st')
   \<and> (\<forall>st a b st'. tb_Save tb st a = Inr (b, st') \<longrightarrow>
        (if key a = 0 then created tb with_key st a b st'
         else b = a \<and> tb_First tb st' (key a) = Inr a
           \<and> (\<forall>k'. k' \<noteq> key a \<longrightarrow> tb_First tb st' k' = tb_First tb st k')))
   \<and> (\<forall>st a st'. tb_Delete tb st a = Inr st' \<longrightarrow>
        tb_First tb st' (key a) = Inl ErrRecordNotFound
        \<and> (\<forall>k'. k' \<noteq> key a \<longrightarrow> tb_First tb st' k' = tb_First tb st k'))"

lemma table_lawsD:
  assumes "table_laws tb key with_key"
  shows "tb_First tb st k = Inr a \<Longrightarrow> key a = k"
    and "tb_Create tb st a = Inr (b, st') \<Longrightarrow>
      \<exists>k. b = with_key k a \<and> tb_First tb st k = Inl ErrRecordNotFound \<and> tb_First tb st' k = Inr b
        \<and> (\<forall>k'. k' \<noteq> k \<longrightarrow> tb_First tb st' k' = tb_First tb st k')"
    and "tb_Save tb st a = Inr (b, st') \<Longrightarrow> key a \<noteq> 0 \<Longrightarrow>
      b = a \<and> tb_First tb st' (key a) = Inr a
      \<and> (\<forall>k'. k' \<noteq> key a \<longrightarrow> tb_First tb st' k' = tb_First tb st k')"
    and "tb_Delete tb st a = Inr st' \<Longrightarrow>
      tb_First tb st' (key a) = Inl ErrRecordNotFound
      \<and> (\<forall>k'. k' \<noteq> key a \<longrightarrow> tb_First tb st' k' = tb_First tb st k')"
    and "tb_First tb st k = Inr a \<Longrightarrow> k \<noteq> 0"
    and "tb_Save tb st a = Inr (b, st') \<Longrightarrow> key a = 0 \<Longrightarrow> created tb with_key st a b st'"
  using assms unfolding table_laws_def created_def by (blast | metis)+

text \<open>A row that was loaded, changed and saved under its key.\<close>

lemma table_saved:
  assumes "table_laws tb key with_key" and "tb_First tb st k = Inr old"
    and "tb_Save tb st0 new = Inr (item, st')" and "key new = key old"
  shows "item = new" and "tb_First tb st' k = Inr new" and "key new = k"
    and "k' \<noteq> k \<Longrightarrow> tb_First tb st' k' = tb_First tb st0 k'"
proof -
  have "key new = k" "k \<noteq> 0" using assms(4) table_lawsD(1,5) [OF assms(1,2)] by simp_all
  then show "item = new" "tb_First tb st' k = Inr new" "key new = k"
      "k' \<noteq> k \<Longrightarrow> tb_First tb st' k' = tb_First tb st0 k'"
    using table_lawsD(3) [OF assms(1,3)] by simp_all
qed

text \<open>A table that keeps its rows in a list, the newest first: the instance of the witnesses.\<close>

definition list_table :: "('a \<Rightarrow> int) \<Rightarrow> (int \<Rightarrow> 'a \<Rightarrow> 'a) \<Rightarrow> ('a list, 'a) table" where
  "list_table key with_key =
     (let create = (\<lambda>st a. let b = with_key (Max (insert 0 (key ` set st)) + 1) a in Inr (b, b # st)) in
      \<lparr>tb_Find = (\<lambda>st. Inr st),
       tb_First = (\<lambda>st k. case List.find (\<lambda>a. key a = k \<and> k \<noteq> 0) st of
          None \<Rightarrow> Inl ErrRecordNotFound | Some a \<Rightarrow> Inr a),
       tb_Where = (\<lambda>st form. Inl ErrRecordNotFound),
       tb_Create = create,
       tb_Save = (\<lambda>st a. if key a = 0 then create st a else Inr (a, a # filter (\<lambda>b. key b \<noteq> key a) st)),
       tb_Delete = (\<lambda>st a. Inr (filter (\<lambda>b. key b \<noteq> key a) st))\<rparr>)"

lemma find_filter_key: "List.find (\<lambda>a. key a = k \<and> Q) (filter (\<lambda>b. key b \<noteq> k') st)
    = (if k = k' then None else List.find (\<lambda>a. key a = k \<and> Q) st)"
  by (induction st) auto

lemma find_absent:
  assumes "k \<notin> key ` set st"
  shows "List.find (\<lambda>a. key a = k \<and> Q) st = None" and "List.find (\<lambda>a. key a = k) st = None"
  using assms by (induction st) auto

lemma find_key: "List.find (\<lambda>a. key a = k \<and> k \<noteq> 0) st = Some a \<Longrightarrow> key a = k \<and> k \<noteq> 0"
  by (induction st) (auto split: if_splits)

lemma list_table_created:
  assumes "\<And>k a. key (with_key k a) = k"
  defines "tb \<equiv> list_table key with_key"
  shows "created tb with_key st a (with_key (Max (insert 0 (key ` set st)) + 1) a)
    (with_key (Max (insert 0 (key ` set st)) + 1) a # st)"
proof -
  let ?k = "Max (insert 0 (key ` set st)) + 1"
  have le: "x \<le> Max (insert 0 (key ` set st))" if "x \<in> insert 0 (key ` set st)" for x
    using that by (intro Max_ge) auto
  have "?k \<notin> key ` set st" using le [of ?k] by auto
  moreover have "?k \<noteq> 0" using le [OF insertI1] by linarith
  ultimately show ?thesis
    unfolding created_def tb_def
    by (intro exI [of _ ?k]) (auto simp: list_table_def find_absent assms(1) Let_def)
qed

lemma list_table_laws:
  assumes "\<And>k a. key (with_key k a) = k"
  shows "table_laws (list_table key with_key) key with_key"
proof -
  let ?tb = "list_table key with_key"
  have first: "tb_First ?tb st k = Inr a \<longleftrightarrow> List.find (\<lambda>a. key a = k \<and> k \<noteq> 0) st = Some a"
    "tb_First ?tb st k = Inl ErrRecordNotFound \<longleftrightarrow> List.find (\<lambda>a. key a = k \<and> k \<noteq> 0) st = None"
    for st k a by (simp_all add: list_table_def Let_def split: option.splits)
  have same: "tb_First ?tb st k = tb_First ?tb st' k"
    if "List.find (\<lambda>a. key a = k \<and> k \<noteq> 0) st = List.find (\<lambda>a. key a = k \<and> k \<noteq> 0) st'" for st st' k
    using that by (simp add: list_table_def Let_def)
  note new = list_table_created [of key with_key, OF assms]
  have "created ?tb with_key st a b st'" if "tb_Create ?tb st a = Inr (b, st')" for st a b st'
    using that new [of st a] by (auto simp: list_table_def Let_def)
  moreover have "if key a = 0 then created ?tb with_key st a b st'
      else b = a \<and> tb_First ?tb st' (key a) = Inr a
        \<and> (\<forall>k'. k' \<noteq> key a \<longrightarrow> tb_First ?tb st' k' = tb_First ?tb st k')"
    if s: "tb_Save ?tb st a = Inr (b, st')" for st a b st'
  proof (cases "key a = 0")
    case True
    then show ?thesis using s new [of st a] by (auto simp: list_table_def Let_def)
  next
    case False
    then have "b = a" "st' = a # filter (\<lambda>b. key b \<noteq> key a) st" using s by (auto simp: list_table_def Let_def)
    then show ?thesis using False by (auto simp: first find_filter_key intro!: same)
  qed
  moreover have "tb_First ?tb st' (key a) = Inl ErrRecordNotFound
      \<and> (\<forall>k'. k' \<noteq> key a \<longrightarrow> tb_First ?tb st' k' = tb_First ?tb st k')"
    if "tb_Delete ?tb st a = Inr st'" for st a st'
  proof -
    have "st' = filter (\<lambda>b. key b \<noteq> key a) st" using that by (simp add: list_table_def Let_def)
    then show ?thesis by (auto simp: first find_filter_key intro!: same)
  qed
  moreover have "key a = k \<and> k \<noteq> 0" if "tb_First ?tb st k = Inr a" for st k a
    using that first find_key by metis
  ultimately show ?thesis unfolding table_laws_def by blast
qed

subsection \<open>Properties\<close>

lemma pathID_Itoa: "int_fits 64 k \<Longrightarrow> pathID (Itoa k) = Inr k"
  by (simp add: pathID_def dec64.dec_enc)

lemma crud_Get_found: "int_fits 64 k \<Longrightarrow> tb_First tb st k = Inr a \<Longrightarrow> crud_Get tb st (Itoa k) = JSON 200 a"
  by (simp add: crud_Get_def pathID_Itoa load_def)

lemma crud_Get_missing:
  "int_fits 64 k \<Longrightarrow> tb_First tb st k = Inl ErrRecordNotFound \<Longrightarrow> crud_Get tb st (Itoa k) = Error 404 NotFound"
  by (simp add: crud_Get_def pathID_Itoa load_def)

lemma load_Inr: "load tb st i = Inr a \<longleftrightarrow> tb_First tb st i = Inr a"
  by (auto simp: load_def split: sum.splits db_error.splits)

lemma load_Inl_not_JSON: "load tb st i = Inl r \<Longrightarrow> r \<noteq> JSON s a \<and> r \<noteq> NoContent"
  by (auto simp: load_def split: sum.splits db_error.splits)

text \<open>what is created is read back, as assembled and under a key that was free before.\<close>

theorem crud_create_get:
  assumes "table_laws tb key with_key" and "int_fits 64 (key item)"
    and "crud_Create tb assemble st (Inr form) = (JSON s item, st')"
  shows "crud_Get tb st' (Itoa (key item)) = JSON 200 item
    \<and> crud_Get tb st (Itoa (key item)) = Error 404 NotFound
    \<and> item = with_key (key item) (assemble form)
    \<and> (\<forall>k. int_fits 64 k \<and> k \<noteq> key item \<longrightarrow> crud_Get tb st' (Itoa k) = crud_Get tb st (Itoa k))"
proof -
  have "tb_Create tb st (assemble form) = Inr (item, st')"
    using assms(3) by (auto simp: crud_Create_def split: sum.splits)
  with table_lawsD(2) [OF assms(1)] obtain k where k: "item = with_key k (assemble form)"
    "tb_First tb st k = Inl ErrRecordNotFound" "tb_First tb st' k = Inr item"
    "\<forall>k'. k' \<noteq> k \<longrightarrow> tb_First tb st' k' = tb_First tb st k'" by blast
  then have key: "key item = k" using table_lawsD(1) [OF assms(1)] by blast
  have "crud_Get tb st' (Itoa k') = crud_Get tb st (Itoa k')" if "int_fits 64 k'" "k' \<noteq> k" for k'
    using that k(4) by (simp add: crud_Get_def pathID_Itoa load_def)
  then show ?thesis
    using crud_Get_found [OF _ k(3)] crud_Get_missing [OF _ k(2)] assms(2) key k(1) by simp
qed

lemma crud_Update_JSON:
  "crud_Update tb merge assemble st param body = (JSON s item, st') \<Longrightarrow>
    \<exists>i form old new. pathID param = Inr i \<and> body = Inr form \<and> tb_First tb st i = Inr old
      \<and> merge old (assemble form) = Inr new \<and> tb_Save tb st new = Inr (item, st')"
  by (auto simp: crud_Update_def load_def split: sum.splits db_error.splits)

lemma crud_Delete_NoContent:
  "crud_Delete tb st param = (NoContent, st') \<Longrightarrow>
    \<exists>i old. pathID param = Inr i \<and> tb_First tb st i = Inr old \<and> tb_Delete tb st old = Inr st'"
  by (auto simp: crud_Delete_def load_def split: sum.splits db_error.splits)

text \<open>an update answers with the stored row merged with the form and stores exactly that, a
  deleted row is not found again, and a request that ends in an error changes nothing.\<close>

theorem crud_update_delete:
  assumes "table_laws tb key with_key" and "int_fits 64 k"
  shows "(crud_Update tb merge assemble st (Itoa k) (Inr form) = (JSON s item, st1) \<longrightarrow>
      (\<exists>old new. crud_Get tb st (Itoa k) = JSON 200 old \<and> merge old (assemble form) = Inr new
         \<and> (key new = k \<longrightarrow> item = new \<and> crud_Get tb st1 (Itoa k) = JSON 200 item)))
    \<and> (crud_Delete tb st (Itoa k) = (NoContent, st2) \<longrightarrow>
      (\<exists>old. crud_Get tb st (Itoa k) = JSON 200 old) \<and> crud_Get tb st2 (Itoa k) = Error 404 NotFound)
    \<and> (crud_Update tb merge assemble st param body = (Error c e, st3) \<longrightarrow> st3 = st)
    \<and> (crud_Delete tb st param = (Error c e, st4) \<longrightarrow> st4 = st)"
proof (intro conjI impI)
  assume "crud_Update tb merge assemble st (Itoa k) (Inr form) = (JSON s item, st1)"
  from crud_Update_JSON [OF this] pathID_Itoa [OF assms(2)] obtain old new where o:
      "tb_First tb st k = Inr old" "merge old (assemble form) = Inr new" "tb_Save tb st new = Inr (item, st1)"
    by auto
  have "k \<noteq> 0" using table_lawsD(5) [OF assms(1) o(1)] .
  then have "key new = k \<Longrightarrow> item = new \<and> crud_Get tb st1 (Itoa k) = JSON 200 item"
    using table_lawsD(3) [OF assms(1) o(3)] crud_Get_found [OF assms(2)] by auto
  with o(2) crud_Get_found [OF assms(2) o(1)]
  show "\<exists>old new. crud_Get tb st (Itoa k) = JSON 200 old \<and> merge old (assemble form) = Inr new
         \<and> (key new = k \<longrightarrow> item = new \<and> crud_Get tb st1 (Itoa k) = JSON 200 item)"
    by (intro exI [of _ old] exI [of _ new]) simp
next
  assume "crud_Delete tb st (Itoa k) = (NoContent, st2)"
  from crud_Delete_NoContent [OF this] pathID_Itoa [OF assms(2)] obtain old where o:
      "tb_First tb st k = Inr old" "tb_Delete tb st old = Inr st2" by auto
  then have "key old = k" using table_lawsD(1) [OF assms(1)] by blast
  then have "tb_First tb st2 k = Inl ErrRecordNotFound" using table_lawsD(4) [OF assms(1) o(2)] by blast
  then show "crud_Get tb st2 (Itoa k) = Error 404 NotFound" by (rule crud_Get_missing [OF assms(2)])
  show "\<exists>old. crud_Get tb st (Itoa k) = JSON 200 old"
    using crud_Get_found [OF assms(2) o(1)] by (intro exI [of _ old])
next
  assume "crud_Update tb merge assemble st param body = (Error c e, st3)"
  then show "st3 = st" by (auto simp: crud_Update_def split: sum.splits)
next
  assume "crud_Delete tb st param = (Error c e, st4)"
  then show "st4 = st" by (auto simp: crud_Delete_def split: sum.splits)
qed

subsection \<open>Device classes\<close>

text \<open>The handlers of internal/api/device_classes.go are the shared ones at their type.\<close>

definition newDeviceClass :: "device_class_form \<Rightarrow> device_class" where
  "newDeviceClass f = \<lparr>dc_Name = dc_Name f, dc_VendorClass = dc_VendorClass f, dc_ID = 0\<rparr>"

definition ListDeviceClasses :: "('st, device_class) table \<Rightarrow> 'st \<Rightarrow> device_class list reply" where
  "ListDeviceClasses tb st = crud_List tb st"

definition GetDeviceClass :: "('st, device_class) table \<Rightarrow> 'st \<Rightarrow> string \<Rightarrow> device_class reply" where
  "GetDeviceClass tb st param = crud_Get tb st param"

definition SearchDeviceClass ::
    "('st, device_class) table \<Rightarrow> 'st \<Rightarrow> (string \<times> string) list bound \<Rightarrow> device_class reply" where
  "SearchDeviceClass tb st body = crud_Search tb st body"

definition CreateDeviceClass ::
    "('st, device_class) table \<Rightarrow> 'st \<Rightarrow> device_class_form bound \<Rightarrow> device_class reply \<times> 'st" where
  "CreateDeviceClass tb st body = crud_Create tb newDeviceClass st body"

definition UpdateDeviceClass ::
    "('st, device_class) table \<Rightarrow> (device_class \<Rightarrow> device_class \<Rightarrow> string + device_class) \<Rightarrow> 'st \<Rightarrow> string
     \<Rightarrow> device_class_form bound \<Rightarrow> device_class reply \<times> 'st" where
  "UpdateDeviceClass tb merge st param body = crud_Update tb merge newDeviceClass st param body"

definition DeleteDeviceClass :: "('st, device_class) table \<Rightarrow> 'st \<Rightarrow> string \<Rightarrow> device_class reply \<times> 'st" where
  "DeleteDeviceClass tb st param = crud_Delete tb st param"

definition example_classes :: "(device_class list, device_class) table" where
  "example_classes = list_table dc_ID (\<lambda>k a. a\<lparr>dc_ID := k\<rparr>)"

lemma example_classes_laws: "table_laws example_classes dc_ID (\<lambda>k a. a\<lparr>dc_ID := k\<rparr>)"
  unfolding example_classes_def by (rule list_table_laws) simp

definition example_class :: device_class where
  "example_class = \<lparr>dc_Name = ''pxe'', dc_VendorClass = ''PXEClient'', dc_ID = 1\<rparr>"

theorem crud_create_get_witness:
  "crud_Get example_classes [example_class] (Itoa 1) = JSON 200 example_class
    \<and> crud_Get example_classes [] (Itoa 1) = Error 404 NotFound"
proof -
  have c: "crud_Create example_classes newDeviceClass [] (Inr \<lparr>dc_Name = ''pxe'', dc_VendorClass = ''PXEClient''\<rparr>)
      = (JSON 200 example_class, [example_class])"
    by (simp add: crud_Create_def example_classes_def list_table_def newDeviceClass_def example_class_def Let_def)
  have "int_fits 64 (dc_ID example_class)" by (simp add: int_fits_def example_class_def)
  from crud_create_get [OF example_classes_laws this c] have
    "crud_Get example_classes [example_class] (Itoa (dc_ID example_class)) = JSON 200 example_class
      \<and> crud_Get example_classes [] (Itoa (dc_ID example_class)) = Error 404 NotFound" by blast
  moreover have "dc_ID example_class = 1" by (simp add: example_class_def)
  ultimately show ?thesis by simp
qed

theorem crud_update_delete_witness:
  "crud_Get example_classes [] (Itoa 1) = Error 404 NotFound"
proof -
  have k: "int_fits 64 1" by (simp add: int_fits_def)
  have "crud_Delete example_classes [example_class] (Itoa 1) = (NoContent, [])"
    by (simp add: crud_Delete_def pathID_Itoa [OF k] load_def example_classes_def list_table_def example_class_def)
  with crud_update_delete [OF example_classes_laws k, where st = "[example_class]" and ?st2.0 = "[]",
      THEN conjunct2, THEN conjunct1]
  show ?thesis by simp
qed

end
