(* ===== verification/Users.thy ===== *)
theory Users
  imports Crud Auth
begin

section \<open>User accounts: internal/api/users.go\<close>

text \<open>
  Creating and changing accounts. bcrypt is a parameter: what hashing a password yields,
  \<open>None\<close> for an error, and the comparison of the environment of the login handlers. The
  library that merges structs is another; its documented behaviour, that non-empty fields
  override, is \<open>override_user\<close>.
\<close>

record UserRequest =
  ur_Username :: string
  ur_Email :: string
  ur_Comment :: string
  ur_Password :: string

definition user_of_form :: "UserRequest \<Rightarrow> user" where
  "user_of_form form = zero_user\<lparr>u_Username := ur_Username form, u_Email := ur_Email form,
     u_Comment := ur_Comment form\<rparr>"

definition HashAndSalt :: "(string \<Rightarrow> string option) \<Rightarrow> string \<Rightarrow> string" where
  "HashAndSalt generate pwd = (case generate pwd of None \<Rightarrow> [] | Some hash \<Rightarrow> hash)"

definition ListUsers :: "('st, user) table \<Rightarrow> 'st \<Rightarrow> user list reply" where
  "ListUsers tb st = crud_List tb st"

definition GetUser :: "('st, user) table \<Rightarrow> 'st \<Rightarrow> string \<Rightarrow> user reply" where
  "GetUser tb st param = crud_Get tb st param"

definition SearchUser :: "('st, user) table \<Rightarrow> 'st \<Rightarrow> (string \<times> string) list bound \<Rightarrow> user reply" where
  "SearchUser tb st body = crud_Search tb st body"

definition DeleteUser :: "('st, user) table \<Rightarrow> 'st \<Rightarrow> string \<Rightarrow> user reply \<times> 'st" where
  "DeleteUser tb st param = crud_Delete tb st param"

definition CreateUser ::
    "('st, user) table \<Rightarrow> (string \<Rightarrow> string option) \<Rightarrow> 'st \<Rightarrow> UserRequest bound \<Rightarrow> user reply \<times> 'st" where
  "CreateUser tb generate st body =
     (case body of
        Inl e \<Rightarrow> (Error 400 (BadBody e), st)
      | Inr form \<Rightarrow>
          (let item = (user_of_form form)\<lparr>u_Password := HashAndSalt generate (ur_Password form)\<rparr>
           in case tb_Create tb st item of
                Inl e \<Rightarrow> (Error 500 (DBFailure e), st)
              | Inr (item, st) \<Rightarrow> (JSON 200 item, st)))"

definition UpdateUser ::
    "('st, user) table \<Rightarrow> (user \<Rightarrow> user \<Rightarrow> string + user) \<Rightarrow> (string \<Rightarrow> string option)
     \<Rightarrow> 'st \<Rightarrow> auth_state \<Rightarrow> string \<Rightarrow> UserRequest bound \<Rightarrow> user reply \<times> 'st \<times> auth_state" where
  "UpdateUser tb merge generate st a param body =
     (case pathID param of
        Inl e \<Rightarrow> (Error 400 e, st, a)
      | Inr i \<Rightarrow>
          (case body of
             Inl e \<Rightarrow> (Error 400 (BadBody e), st, a)
           | Inr form \<Rightarrow>
               (case load tb st i of
                  Inl r \<Rightarrow> (r, st, a)
                | Inr item \<Rightarrow>
                    (case merge item (user_of_form form) of
                       Inl e \<Rightarrow> (Error 500 (MergeFailure e), st, a)
                     | Inr item \<Rightarrow>
                         (let (item, a) =
                            (if ur_Password form \<noteq> [] then
                               (item\<lparr>u_Password := HashAndSalt generate (ur_Password form),
                                     u_MustChangePassword := False\<rparr>,
                                a\<lparr>au_Sessions := DestroyUser (au_Sessions a) (u_Username item)\<rparr>)
                             else (item, a))
                          in case tb_Save tb st item of
                               Inl e \<Rightarrow> (Error 500 (DBFailure e), st, a)
                             | Inr (item, st) \<Rightarrow> (JSON 200 item, st, a))))))"

subsection \<open>Facts\<close>

definition override_user :: "user \<Rightarrow> user \<Rightarrow> user" where
  "override_user d s =
     \<lparr>u_ID = (if u_ID s = 0 then u_ID d else u_ID s), u_Username = or_else (u_Username s) (u_Username d),
      u_Email = or_else (u_Email s) (u_Email d), u_Comment = or_else (u_Comment s) (u_Comment d),
      u_Password = or_else (u_Password s) (u_Password d),
      u_MustChangePassword = (u_MustChangePassword s \<or> u_MustChangePassword d)\<rparr>"

definition changed_user :: "(string \<Rightarrow> string option) \<Rightarrow> UserRequest \<Rightarrow> user \<Rightarrow> user" where
  "changed_user generate form old =
     (let item = override_user old (user_of_form form)
      in if ur_Password form = [] then item
         else item\<lparr>u_Password := HashAndSalt generate (ur_Password form), u_MustChangePassword := False\<rparr>)"

lemma UpdateUser_JSON:
  assumes "UpdateUser tb (\<lambda>d s. Inr (override_user d s)) generate st a param (Inr form) = (JSON c item, st', a')"
  obtains i old where "pathID param = Inr i" and "tb_First tb st i = Inr old"
    and "tb_Save tb st (changed_user generate form old) = Inr (item, st')"
    and "a' = (if ur_Password form = [] then a
               else a\<lparr>au_Sessions := DestroyUser (au_Sessions a) (or_else (ur_Username form) (u_Username old))\<rparr>)"
proof -
  obtain i where i: "pathID param = Inr i" using assms by (auto simp: UpdateUser_def split: sum.splits)
  obtain old where old: "tb_First tb st i = Inr old"
    using assms i by (auto simp: UpdateUser_def load_def split: sum.splits db_error.splits)
  have name: "u_Username (override_user old (user_of_form form)) = or_else (ur_Username form) (u_Username old)"
    by (simp add: override_user_def user_of_form_def)
  show ?thesis
    using assms i old name
    by (cases "ur_Password form = []")
      (auto simp: UpdateUser_def load_def changed_user_def Let_def intro!: that [OF i old] split: sum.splits)
qed

lemma override_user_facts:
  "u_Password (override_user old (user_of_form form)) = u_Password old"
  "u_MustChangePassword (override_user old (user_of_form form)) = u_MustChangePassword old"
  "u_ID (override_user old (user_of_form form)) = u_ID old"
  "u_Username (override_user old (user_of_form form)) = or_else (ur_Username form) (u_Username old)"
  by (simp_all add: override_user_def user_of_form_def zero_user_def or_else_def)

subsection \<open>Properties\<close>

text \<open>C32: an update without a password leaves the stored hash, the duty to change it and all
  sessions alone; one with a password stores the hash of the new one, lifts the duty and ends
  every session under the account's name for good.\<close>

theorem update_user_password:
  assumes "table_laws tb u_ID with_key"
    and "UpdateUser tb (\<lambda>d s. Inr (override_user d s)) generate st a param (Inr form) = (JSON c item, st', a')"
  shows "\<exists>i old. pathID param = Inr i \<and> tb_First tb st i = Inr old \<and> u_ID item = i
    \<and> tb_First tb st' i = Inr item
    \<and> u_Username item = or_else (ur_Username form) (u_Username old)
    \<and> (if ur_Password form = [] then u_Password item = u_Password old
         \<and> u_MustChangePassword item = u_MustChangePassword old \<and> a' = a
       else u_Password item = HashAndSalt generate (ur_Password form) \<and> \<not> u_MustChangePassword item
         \<and> (\<forall>k t1 t2. fst (Lookup (au_Sessions a') k t1 t2) \<noteq> Some (u_Username item)))"
proof (rule UpdateUser_JSON [OF assms(2)])
  fix i old
  assume i: "pathID param = Inr i" and old: "tb_First tb st i = Inr old"
    and save: "tb_Save tb st (changed_user generate form old) = Inr (item, st')"
    and a': "a' = (if ur_Password form = [] then a
               else a\<lparr>au_Sessions := DestroyUser (au_Sessions a) (or_else (ur_Username form) (u_Username old))\<rparr>)"
  have "u_ID (changed_user generate form old) = u_ID old"
    by (simp add: changed_user_def override_user_facts Let_def)
  note item = table_saved [OF assms(1) old save this]
  have "fst (Lookup (DestroyUser s u) k t1 t2) \<noteq> Some u" for s u k t1 t2
    by (auto simp: session_defs session_lookup split: option.splits if_splits)
  then show ?thesis
    using i old item(1-3) a'
    by (intro exI [of _ i] exI [of _ old])
      (simp add: changed_user_def override_user_facts Let_def)
qed

text \<open>but the name whose sessions end is the new one: whoever changes the name and the
  password of an account at once leaves the sessions of the old name open, and a cookie of a
  deleted account is still accepted, whatever the database holds.\<close>

theorem renamed_user_keeps_sessions:
  assumes "UpdateUser tb (\<lambda>d s. Inr (override_user d s)) generate st a param (Inr form) = (JSON c item, st', a')"
    and "fst (Lookup (au_Sessions a) k t1 t2) = Some u" and "ur_Username form \<noteq> []" and "ur_Username form \<noteq> u"
  shows "fst (Middleware env a' r (Some k) basic t1 t2 t3 t4) = Next u"
proof (rule UpdateUser_JSON [OF assms(1)])
  fix i old
  assume a': "a' = (if ur_Password form = [] then a
               else a\<lparr>au_Sessions := DestroyUser (au_Sessions a) (or_else (ur_Username form) (u_Username old))\<rparr>)"
  have "fst (Lookup (DestroyUser s v) k t1 t2) = Some u" if "fst (Lookup s k t1 t2) = Some u" "v \<noteq> u" for s v
    using that by (auto simp: session_defs session_lookup split: option.splits if_splits)
  then have "fst (Lookup (au_Sessions a') k t1 t2) = Some u"
    using assms(2-4) a' by (simp add: or_else_def)
  then show ?thesis by (auto simp: Middleware_def split: prod.splits)
qed

text \<open>a new account works: whoever is given it can log in with the password it was created
  with, which is stored as a hash only.\<close>

theorem created_user_can_log_in:
  assumes "table_laws tb u_ID (\<lambda>k u. u\<lparr>u_ID := k\<rparr>)"
    and "CreateUser tb generate st (Inr form) = (JSON c item, st')"
    and "generate (ur_Password form) = Some hash" and "bcrypt_matches env hash (ur_Password form)"
    and "find_user env (ur_Username form) = Inr item"
    and "ur_Username form \<noteq> []" and "ur_Password form \<noteq> []"
    and "fst (Allowed (au_Throttle a) (throttleKey r (ur_Username form)) t1)"
  shows "u_Password item = hash \<and> \<not> u_MustChangePassword item
    \<and> r_status (fst (fst (Login env a r (Inr (ur_Username form, ur_Password form)) (Some b) t1 t2 t3))) = 200"
proof -
  have "tb_Create tb st ((user_of_form form)\<lparr>u_Password := hash\<rparr>) = Inr (item, st')"
    using assms(2,3) by (auto simp: CreateUser_def HashAndSalt_def Let_def split: sum.splits)
  from table_lawsD(2) [OF assms(1) this] have item: "u_Password item = hash" "\<not> u_MustChangePassword item"
    by (auto simp: user_of_form_def zero_user_def)
  obtain th where "Allowed (au_Throttle a) (throttleKey r (ur_Username form)) t1 = (True, th)"
    using assms(8) by (metis (full_types) prod.collapse)
  moreover have "bind_login (Inr (ur_Username form, ur_Password form)) = Inr (ur_Username form, ur_Password form)"
    using assms(6,7) by (simp add: bind_login_Inr)
  ultimately show ?thesis
    using item assms(4,5) by (simp add: Login_checked Create_def Let_def)
qed

subsection \<open>The properties at work\<close>

definition example_users :: "(user list, user) table" where
  "example_users = list_table u_ID (\<lambda>k u. u\<lparr>u_ID := k\<rparr>)"

lemma example_users_laws: "table_laws example_users u_ID (\<lambda>k u. u\<lparr>u_ID := k\<rparr>)"
  unfolding example_users_def by (rule list_table_laws) simp

definition example_account :: user where
  "example_account = zero_user\<lparr>u_ID := 1, u_Username := ''bob'', u_Password := ''old'', u_MustChangePassword := True\<rparr>"

text \<open>A store in which a session of bob is open, under the token \<^verbatim>\<open>AQID\<close>.\<close>

definition example_open :: auth_state where
  "example_open = \<lparr>au_Sessions = foldl session_step (NewSessions 100) [(OpCreate ''bob'' (Some [1, 2, 3]), 0, 0)],
     au_Throttle = NewThrottle 3 100, au_Secure = True\<rparr>"

definition example_change :: "string \<Rightarrow> UserRequest" where
  "example_change name = \<lparr>ur_Username = name, ur_Email = [], ur_Comment = [], ur_Password = ''n3wpass''\<rparr>"

lemma example_update:
  "\<exists>item st' a'. UpdateUser example_users (\<lambda>d s. Inr (override_user d s)) (\<lambda>p. Some (''h'' @ p))
     [example_account] example_open (Itoa 1) (Inr (example_change name)) = (JSON 200 item, st', a')"
proof -
  have "pathID (Itoa 1) = Inr 1" by (rule pathID_Itoa) (simp add: int_fits_def)
  then show ?thesis
    by (simp add: UpdateUser_def load_def example_users_def list_table_def example_account_def
        example_change_def Let_def)
qed

theorem update_user_password_witness:
  "\<exists>(item :: user) (a' :: auth_state). u_Password item = ''hn3wpass'' \<and> \<not> u_MustChangePassword item \<and> u_ID item = 1
     \<and> fst (Lookup (au_Sessions a') ''AQID'' 5 5) \<noteq> Some (u_Username item)"
proof -
  from example_update [of "[]"] obtain item st' a' where u:
    "UpdateUser example_users (\<lambda>d s. Inr (override_user d s)) (\<lambda>p. Some (''h'' @ p))
     [example_account] example_open (Itoa 1) (Inr (example_change [])) = (JSON 200 item, st', a')" by blast
  have "pathID (Itoa 1) = Inr 1" by (rule pathID_Itoa) (simp add: int_fits_def)
  with update_user_password [OF example_users_laws u] show ?thesis
    by (intro exI [of _ item] exI [of _ a']) (auto simp: example_change_def HashAndSalt_def)
qed

theorem renamed_user_keeps_sessions_witness:
  "\<exists>a'. fst (Middleware example_auth_env a' ''10.0.0.9:1'' (Some ''AQID'') None 5 5 5 5) = Next ''bob''"
proof -
  from example_update [of "''rob''"] obtain item st' a' where u:
    "UpdateUser example_users (\<lambda>d s. Inr (override_user d s)) (\<lambda>p. Some (''h'' @ p))
     [example_account] example_open (Itoa 1) (Inr (example_change ''rob'')) = (JSON 200 item, st', a')" by blast
  have "fst (Lookup (au_Sessions example_open) ''AQID'' 5 5) = Some ''bob''"
    using example_session by (simp add: example_open_def)
  from renamed_user_keeps_sessions [OF u this] show ?thesis
    by (intro exI [of _ a']) (simp add: example_change_def)
qed

theorem created_user_can_log_in_witness:
  "\<exists>st'. CreateUser example_users (\<lambda>p. Some ''hash'') [] (Inr (example_change ''bob''))
       = (JSON 200 (example_account\<lparr>u_Password := ''hash'', u_MustChangePassword := False\<rparr>), st')
    \<and> r_status (fst (fst (Login
        \<lparr>find_user = (\<lambda>_. Inr (example_account\<lparr>u_Password := ''hash'', u_MustChangePassword := False\<rparr>)),
         bcrypt_matches = (\<lambda>h p. h = ''hash'' \<and> p = ''n3wpass'')\<rparr>
        example_auth example_remote (Inr (''bob'', ''n3wpass'')) (Some [1]) 1 1 1))) = 200"
proof -
  let ?u = "example_account\<lparr>u_Password := ''hash'', u_MustChangePassword := False\<rparr>"
  have c: "CreateUser example_users (\<lambda>p. Some ''hash'') [] (Inr (example_change ''bob'')) = (JSON 200 ?u, [?u])"
    by (simp add: CreateUser_def HashAndSalt_def example_users_def list_table_def example_change_def
        user_of_form_def example_account_def zero_user_def Let_def)
  have "fst (Allowed (au_Throttle example_auth) (throttleKey example_remote (ur_Username (example_change ''bob''))) 1)"
    by (simp add: example_auth_def example_allowed)
  from created_user_can_log_in [OF example_users_laws c refl _ _ _ _ this,
      where env = "\<lparr>find_user = (\<lambda>_. Inr ?u), bcrypt_matches = (\<lambda>h p. h = ''hash'' \<and> p = ''n3wpass'')\<rparr>" and b = "[1]" and ?t2.0 = 1 and ?t3.0 = 1]
  show ?thesis using c by (simp add: example_change_def)
qed

end
