(* ===== verification/Host_Groups.thy ===== *)
theory Host_Groups
  imports Crud Secrets
begin

section \<open>Groups: internal/api/groups.go\<close>

text \<open>
  Creating and changing a group, whose ESXi root password is checked, encrypted and stored.
  The parameters are the table, the merging of structs, the random bytes of the encryption,
  and the classes of the characters of a password that is not ASCII, which the Unicode tables
  decide.
\<close>

record GroupRequest =
  gr_Form :: group
  gr_Password :: string

subsection \<open>The complexity of a password\<close>

record classes =
  has_number :: bool
  has_upper :: bool
  has_special :: bool
  has_lower :: bool

definition IsNumber :: "char \<Rightarrow> bool" where
  "IsNumber c \<longleftrightarrow> (let n = of_char c :: nat in 48 \<le> n \<and> n \<le> 57)"

definition IsUpper :: "char \<Rightarrow> bool" where
  "IsUpper c \<longleftrightarrow> (let n = of_char c :: nat in 65 \<le> n \<and> n \<le> 90)"

definition IsLetter :: "char \<Rightarrow> bool" where
  "IsLetter c \<longleftrightarrow> (let n = of_char c :: nat in 65 \<le> n \<and> n \<le> 90 \<or> 97 \<le> n \<and> n \<le> 122)"

text \<open>Punctuation or symbol: every other printing character of ASCII but the space.\<close>

definition IsPunctOrSymbol :: "char \<Rightarrow> bool" where
  "IsPunctOrSymbol c \<longleftrightarrow>
     (let n = of_char c :: nat in 33 \<le> n \<and> n \<le> 126 \<and> \<not> IsNumber c \<and> \<not> IsLetter c)"

definition class_step :: "classes \<Rightarrow> char \<Rightarrow> classes" where
  "class_step k c =
     (if IsNumber c then k\<lparr>has_number := True\<rparr>
      else if IsUpper c then k\<lparr>has_upper := True\<rparr>
      else if IsPunctOrSymbol c then k\<lparr>has_special := True\<rparr>
      else if IsLetter c \<or> c = CHR '' '' then k\<lparr>has_lower := True\<rparr>
      else k)"

definition b2i :: "bool \<Rightarrow> int" where
  "b2i b = (if b then 1 else 0)"

datatype password_error = TooFewClasses | TooShort

definition verifyPassword :: "(string \<Rightarrow> classes) \<Rightarrow> string \<Rightarrow> password_error option" where
  "verifyPassword unicode_classes s =
     (let k = (if is_ascii s
               then foldl class_step \<lparr>has_number = False, has_upper = False, has_special = False, has_lower = False\<rparr> s
               else unicode_classes s);
          n = b2i (has_number k) + b2i (has_upper k) + b2i (has_special k) + b2i (has_lower k)
      in if n < 3 then Some TooFewClasses
         else if length s < 7 then Some TooShort
         else None)"

subsection \<open>Handlers\<close>

definition ListGroups :: "('st, group) table \<Rightarrow> 'st \<Rightarrow> group list reply" where
  "ListGroups tb st = crud_List tb st"

definition GetGroup :: "('st, group) table \<Rightarrow> 'st \<Rightarrow> string \<Rightarrow> group reply" where
  "GetGroup tb st param = crud_Get tb st param"

definition DeleteGroup :: "('st, group) table \<Rightarrow> 'st \<Rightarrow> string \<Rightarrow> group reply \<times> 'st" where
  "DeleteGroup tb st param = crud_Delete tb st param"

text \<open>\<^verbatim>\<open>strings.Join(strings.Fields(s), "")\<close>.\<close>

definition strip_spaces :: "string \<Rightarrow> string" where
  "strip_spaces s = Join (Fields s) []"

definition strip_lists :: "group \<Rightarrow> group" where
  "strip_lists g = g\<lparr>g_DNS := strip_spaces (g_DNS g), g_NTP := strip_spaces (g_NTP g),
     g_Syslog := strip_spaces (g_Syslog g)\<rparr>"

record group_env =
  ge_key :: string
  ge_random :: "bytes option"
  ge_classes :: "string \<Rightarrow> classes"

definition CreateGroup ::
    "('st, group) table \<Rightarrow> group_env \<Rightarrow> 'st \<Rightarrow> GroupRequest bound \<Rightarrow> group reply \<times> 'st" where
  "CreateGroup tb env st body =
     (case body of
        Inl e \<Rightarrow> (Error 400 (BadBody e), st)
      | Inr form \<Rightarrow>
          (let item = (gr_Form form)\<lparr>g_ID := 0, g_Password := []\<rparr>;
               item = strip_lists item
           in case verifyPassword (ge_classes env) (gr_Password form) of
                Some e \<Rightarrow> (Error 400 (Invalid ''password''), st)
              | None \<Rightarrow>
                  (case Encrypt (gr_Password form) (ge_key env) (ge_random env) of
                     Inl e \<Rightarrow> (Error 500 (Invalid ''encrypt''), st)
                   | Inr encrypted \<Rightarrow>
                       (let item = item\<lparr>g_Password := encrypted\<rparr>
                        in case tb_Create tb st item of
                             Inl e \<Rightarrow> (Error 500 (DBFailure e), st)
                           | Inr (item, st) \<Rightarrow> reload tb g_ID item st))))"

text \<open>\<^verbatim>\<open>UpdateGroup\<close>. When the merge fails the handler writes a reply and carries on with the row
  as loaded, so that a second reply follows: the list holds every reply that is written.\<close>

definition overwrite_fields :: "group \<Rightarrow> group \<Rightarrow> group" where
  "overwrite_fields form item = item\<lparr>g_Vlan := g_Vlan form, g_DNS := g_DNS form, g_NTP := g_NTP form,
     g_Syslog := g_Syslog form, g_BootDisk := g_BootDisk form\<rparr>"

definition finish_update ::
    "('st, group) table \<Rightarrow> group \<Rightarrow> 'st \<Rightarrow> group \<Rightarrow> group reply \<times> 'st" where
  "finish_update tb form st item =
     (case tb_Save tb st (overwrite_fields form item) of
        Inl e \<Rightarrow> (Error 500 (DBFailure e), st)
      | Inr (item, st) \<Rightarrow> reload tb g_ID item st)"

definition UpdateGroup ::
    "('st, group) table \<Rightarrow> (group \<Rightarrow> group \<Rightarrow> string + group) \<Rightarrow> group_env \<Rightarrow> 'st \<Rightarrow> string
     \<Rightarrow> GroupRequest bound \<Rightarrow> group reply list \<times> 'st" where
  "UpdateGroup tb merge env st param body =
     (case pathID param of
        Inl e \<Rightarrow> ([Error 400 e], st)
      | Inr i \<Rightarrow>
          (case body of
             Inl e \<Rightarrow> ([Error 400 (BadBody e)], st)
           | Inr form \<Rightarrow>
               (case load tb st i of
                  Inl r \<Rightarrow> ([r], st)
                | Inr item \<Rightarrow>
                    (let (replies, item) =
                       (case merge item ((gr_Form form)\<lparr>g_ID := 0, g_Password := []\<rparr>) of
                          Inl e \<Rightarrow> ([Error 500 (MergeFailure e)], item)
                        | Inr item \<Rightarrow> ([], item));
                         item = strip_lists item
                     in if gr_Password form \<noteq> [] then
                          (case verifyPassword (ge_classes env) (gr_Password form) of
                             Some e \<Rightarrow> (replies @ [Error 400 (Invalid ''password'')], st)
                           | None \<Rightarrow>
                               (case Encrypt (gr_Password form) (ge_key env) (ge_random env) of
                                  Inl e \<Rightarrow> (replies @ [Error 500 (Invalid ''encrypt'')], st)
                                | Inr encrypted \<Rightarrow>
                                    (let (r, st) = finish_update tb (gr_Form form) st (item\<lparr>g_Password := encrypted\<rparr>)
                                     in (replies @ [r], st))))
                        else
                          (let (r, st) = finish_update tb (gr_Form form) st item
                           in (replies @ [r], st))))))"

subsection \<open>Facts\<close>

text \<open>The reference for the complexity check: the class each character of ASCII belongs to.\<close>

datatype char_class = Number | Upper | Special | Lower

definition class_of :: "char \<Rightarrow> char_class option" where
  "class_of c =
     (if IsNumber c then Some Number else if IsUpper c then Some Upper
      else if IsPunctOrSymbol c then Some Special
      else if IsLetter c \<or> c = CHR '' '' then Some Lower else None)"

definition classes_in :: "string \<Rightarrow> char_class set" where
  "classes_in s = {k. \<exists>c \<in> set s. class_of c = Some k}"

definition classes_of_set :: "char_class set \<Rightarrow> classes" where
  "classes_of_set K = \<lparr>has_number = Number \<in> K, has_upper = Upper \<in> K, has_special = Special \<in> K,
     has_lower = Lower \<in> K\<rparr>"

lemma class_step_class_of:
  "class_step (classes_of_set K) c
     = classes_of_set (case class_of c of None \<Rightarrow> K | Some k \<Rightarrow> insert k K)"
  by (simp add: class_step_def class_of_def classes_of_set_def)

lemma foldl_class_step: "foldl class_step (classes_of_set K) s = classes_of_set (K \<union> classes_in s)"
proof (induction s arbitrary: K)
  case Nil
  then show ?case by (simp add: classes_in_def)
next
  case (Cons c s)
  have "classes_in (c # s) = (case class_of c of None \<Rightarrow> {} | Some k \<Rightarrow> {k}) \<union> classes_in s"
    by (auto simp: classes_in_def split: option.splits)
  then show ?case by (simp add: class_step_class_of Cons split: option.splits)
qed

lemma UNIV_char_class: "UNIV = {Number, Upper, Special, Lower}"
  using char_class.exhaust by blast

lemma count_classes:
  "b2i (Number \<in> K) + b2i (Upper \<in> K) + b2i (Special \<in> K) + b2i (Lower \<in> K) = int (card K)"
proof -
  have "K = {k \<in> {Number, Upper, Special, Lower}. k \<in> K}"
    using UNIV_char_class by blast
  also have "\<dots> = (if Number \<in> K then {Number} else {}) \<union> (if Upper \<in> K then {Upper} else {})
      \<union> (if Special \<in> K then {Special} else {}) \<union> (if Lower \<in> K then {Lower} else {})"
    by auto
  finally have K: "K = \<dots>" .
  show ?thesis by (subst (5) K) (simp add: b2i_def)
qed

lemma verifyPassword_ascii:
  assumes "is_ascii s"
  shows "verifyPassword u s =
    (if card (classes_in s) < 3 then Some TooFewClasses else if length s < 7 then Some TooShort else None)"
proof -
  have "\<lparr>has_number = False, has_upper = False, has_special = False, has_lower = False\<rparr> = classes_of_set {}"
    by (simp add: classes_of_set_def)
  then have "verifyPassword u s = (let n = int (card (classes_in s))
      in if n < 3 then Some TooFewClasses else if length s < 7 then Some TooShort else None)"
    using assms count_classes [of "classes_in s"]
    by (simp add: verifyPassword_def foldl_class_step) (simp add: classes_of_set_def)
  then show ?thesis by (simp add: Let_def)
qed

lemma CreateGroup_JSON:
  assumes "CreateGroup tb env st (Inr form) = (JSON c item, st')"
  obtains e row where "verifyPassword (ge_classes env) (gr_Password form) = None"
    and "Encrypt (gr_Password form) (ge_key env) (ge_random env) = Inr e"
    and "tb_Create tb st ((strip_lists ((gr_Form form)\<lparr>g_ID := 0, g_Password := []\<rparr>))\<lparr>g_Password := e\<rparr>) = Inr (row, st')"
    and "tb_First tb st' (g_ID row) = Inr item" and "c = 200"
  using assms by (auto simp: CreateGroup_def reload_def Let_def split: option.splits sum.splits)

text \<open>The documented merge of groups: fields that are set override.\<close>

definition override_group :: "group \<Rightarrow> group \<Rightarrow> group" where
  "override_group d s =
     \<lparr>g_ID = (if g_ID s = 0 then g_ID d else g_ID s), g_Name = or_else (g_Name s) (g_Name d),
      g_DNS = or_else (g_DNS s) (g_DNS d), g_NTP = or_else (g_NTP s) (g_NTP d),
      g_Netmask = or_else (g_Netmask s) (g_Netmask d), g_Gateway = or_else (g_Gateway s) (g_Gateway d),
      g_Device = or_else (g_Device s) (g_Device d),
      g_ImageID = (if g_ImageID s = 0 then g_ImageID d else g_ImageID s),
      g_Ks = or_else (g_Ks s) (g_Ks d), g_Syslog = or_else (g_Syslog s) (g_Syslog d),
      g_Vlan = or_else (g_Vlan s) (g_Vlan d), g_CallbackURL = or_else (g_CallbackURL s) (g_CallbackURL d),
      g_BootDisk = or_else (g_BootDisk s) (g_BootDisk d), g_Options = or_else (g_Options s) (g_Options d),
      g_BootMethod = or_else (g_BootMethod s) (g_BootMethod d),
      g_Password = or_else (g_Password s) (g_Password d)\<rparr>"

lemma finish_update_JSON:
  "finish_update tb form st item = (r, st') \<Longrightarrow> r = JSON c res \<Longrightarrow>
     \<exists>row. tb_Save tb st (overwrite_fields form item) = Inr (row, st') \<and> tb_First tb st' (g_ID row) = Inr res \<and> c = 200"
  by (auto simp: finish_update_def reload_def split: sum.splits)

lemma strip_lists_password: "(strip_lists g)\<lparr>g_Password := g_Password g\<rparr> = strip_lists g"
  by (simp add: strip_lists_def)

lemma UpdateGroup_merged:
  assumes "UpdateGroup tb (\<lambda>d s. Inr (override_group d s)) env st param (Inr form) = (rs, st')"
    and "JSON c item \<in> set rs"
  obtains i old new pw row where "pathID param = Inr i" and "tb_First tb st i = Inr old"
    and "new = override_group old ((gr_Form form)\<lparr>g_ID := 0, g_Password := []\<rparr>)"
    and "gr_Password form = [] \<and> pw = g_Password new
      \<or> gr_Password form \<noteq> [] \<and> verifyPassword (ge_classes env) (gr_Password form) = None
        \<and> Encrypt (gr_Password form) (ge_key env) (ge_random env) = Inr pw"
    and "tb_Save tb st (overwrite_fields (gr_Form form) ((strip_lists new)\<lparr>g_Password := pw\<rparr>)) = Inr (row, st')"
    and "tb_First tb st' (g_ID row) = Inr item" and "rs = [JSON 200 item]"
proof -
  obtain i where i: "pathID param = Inr i" using assms by (auto simp: UpdateGroup_def split: sum.splits)
  obtain old where old: "tb_First tb st i = Inr old"
    using assms i by (auto simp: UpdateGroup_def load_def split: sum.splits db_error.splits)
  define new where "new = override_group old ((gr_Form form)\<lparr>g_ID := 0, g_Password := []\<rparr>)"
  note up = assms(1) [unfolded UpdateGroup_def, simplified i sum.case, simplified load_def old sum.case,
      simplified new_def [symmetric] Let_def prod.case append_Nil, folded new_def]
  show ?thesis
  proof (cases "gr_Password form = []")
    case True
    obtain r where r: "finish_update tb (gr_Form form) st (strip_lists new) = (r, st')" "rs = [r]"
      using up True by (auto simp: new_def split: prod.splits)
    with assms(2) have "r = JSON c item" by simp
    from finish_update_JSON [OF r(1) this] r(2) this obtain row where
      "tb_Save tb st (overwrite_fields (gr_Form form) (strip_lists new)) = Inr (row, st')"
      "tb_First tb st' (g_ID row) = Inr item" "rs = [JSON 200 item]" by auto
    then show ?thesis using that [OF i old new_def, of "g_Password new" row] True
      by (simp add: strip_lists_password)
  next
    case False
    obtain pw where pw: "Encrypt (gr_Password form) (ge_key env) (ge_random env) = Inr pw"
      and ok: "verifyPassword (ge_classes env) (gr_Password form) = None"
      using up assms(2) False by (auto split: option.splits sum.splits)
    obtain r where r: "finish_update tb (gr_Form form) st ((strip_lists new)\<lparr>g_Password := pw\<rparr>) = (r, st')" "rs = [r]"
      using up False pw ok by (auto simp: new_def split: prod.splits)
    with assms(2) have "r = JSON c item" by simp
    from finish_update_JSON [OF r(1) this] r(2) this obtain row where
      "tb_Save tb st (overwrite_fields (gr_Form form) ((strip_lists new)\<lparr>g_Password := pw\<rparr>)) = Inr (row, st')"
      "tb_First tb st' (g_ID row) = Inr item" "rs = [JSON 200 item]" by auto
    then show ?thesis using that [OF i old new_def, of pw row] False pw ok by simp
  qed
qed

subsection \<open>Properties\<close>

text \<open>C31: a password of ASCII characters is accepted exactly when it has at least seven characters
  and characters of at least three of the four classes, in whatever order they come; too few
  classes are reported before the length.\<close>

theorem verify_password_spec:
  assumes "is_ascii s"
  shows "(verifyPassword u s = None \<longleftrightarrow> 7 \<le> length s \<and> 3 \<le> card (classes_in s))
    \<and> (verifyPassword u s = Some TooFewClasses \<longleftrightarrow> card (classes_in s) < 3)
    \<and> (mset t = mset s \<longrightarrow> verifyPassword u t = verifyPassword u s)"
proof -
  have "is_ascii t \<and> classes_in t = classes_in s \<and> length t = length s" if "mset t = mset s"
  proof -
    have "set t = set s" "length t = length s"
      using that by (metis set_mset_mset, metis size_mset)
    then show ?thesis using assms by (simp add: is_ascii_def classes_in_def list_all_iff)
  qed
  then show ?thesis using assms by (auto simp: verifyPassword_ascii not_less)
qed

theorem verify_password_spec_witness:
  "verifyPassword (\<lambda>_. classes_of_set {}) ''VMware1!'' = None \<and> verifyPassword (\<lambda>_. classes_of_set {}) ''!1erawMV'' = None
    \<and> verifyPassword (\<lambda>_. classes_of_set {}) ''vmware12'' = Some TooFewClasses \<and> verifyPassword (\<lambda>_. classes_of_set {}) ''Vm1!'' = Some TooShort"
proof -
  have c: "verifyPassword (\<lambda>_. classes_of_set {}) ''VMware1!'' = None" "verifyPassword (\<lambda>_. classes_of_set {}) ''vmware12'' = Some TooFewClasses"
      "verifyPassword (\<lambda>_. classes_of_set {}) ''Vm1!'' = Some TooShort"
    by (simp_all add: verifyPassword_def is_ascii_def class_step_def b2i_def IsNumber_def IsUpper_def
        IsLetter_def IsPunctOrSymbol_def Let_def)
  moreover have "verifyPassword (\<lambda>_. classes_of_set {}) ''!1erawMV'' = None"
    using verify_password_spec [of "''VMware1!''" "\<lambda>_. classes_of_set {}" "''!1erawMV''"] c(1) by (simp add: is_ascii_def)
  ultimately show ?thesis by blast
qed

text \<open>C29: a new group is stored with a password that passed the check, only in a form that
  decrypts to it under the key of the installation, and with no white space in its lists of
  servers; everything else is stored as sent.\<close>

theorem created_group:
  assumes "table_laws tb g_ID (\<lambda>k g. g\<lparr>g_ID := k\<rparr>)"
    and "CreateGroup tb env st (Inr form) = (JSON c item, st')"
    and "ge_random env = Some nonce" and "length nonce = NonceSize"
  shows "verifyPassword (ge_classes env) (gr_Password form) = None
    \<and> Decrypt (g_Password item) (ge_key env) = Inr (gr_Password form)
    \<and> tb_First tb st (g_ID item) = Inl ErrRecordNotFound \<and> tb_First tb st' (g_ID item) = Inr item
    \<and> item\<lparr>g_ID := g_ID (gr_Form form), g_Password := g_Password (gr_Form form)\<rparr> = strip_lists (gr_Form form)
    \<and> (\<forall>s \<in> {g_DNS item, g_NTP item, g_Syslog item}. \<forall>x. [x] \<in> set space_encodings \<longrightarrow> x \<notin> set s)"
proof (rule CreateGroup_JSON [OF assms(2)])
  fix e row
  let ?new = "(strip_lists ((gr_Form form)\<lparr>g_ID := 0, g_Password := []\<rparr>))\<lparr>g_Password := e\<rparr>"
  assume ok: "verifyPassword (ge_classes env) (gr_Password form) = None"
    and e: "Encrypt (gr_Password form) (ge_key env) (ge_random env) = Inr e"
    and row: "tb_Create tb st ?new = Inr (row, st')" and first: "tb_First tb st' (g_ID row) = Inr item"
  from table_lawsD(2) [OF assms(1) row] obtain k where k: "row = ?new\<lparr>g_ID := k\<rparr>"
    "tb_First tb st k = Inl ErrRecordNotFound" "tb_First tb st' k = Inr row" by auto
  then have item: "item = ?new\<lparr>g_ID := k\<rparr>" using first by simp
  have "Decrypt e (ge_key env) = Inr (gr_Password form)"
    using e assms(3,4) Decrypt_Encrypt [of "gr_Password form" "ge_key env" nonce e] by simp
  then show ?thesis
    using ok k item Join_Fields_no_space by (auto simp: strip_lists_def strip_spaces_def)
qed

text \<open>C30: an update keeps the stored password unless the request has one, which is then checked
  and stored encrypted. The lists of servers, the VLAN and the boot disk become those of the
  request byte for byte: that white space is removed from the lists first has no effect, unlike
  in a new group.\<close>

theorem updated_group:
  assumes "table_laws tb g_ID (\<lambda>k g. g\<lparr>g_ID := k\<rparr>)"
    and "UpdateGroup tb (\<lambda>d s. Inr (override_group d s)) env st param (Inr form) = (rs, st')"
    and "JSON c item \<in> set rs"
    and "ge_random env = Some nonce" and "length nonce = NonceSize"
  shows "\<exists>i old. pathID param = Inr i \<and> tb_First tb st i = Inr old \<and> rs = [JSON 200 item]
    \<and> g_ID item = i \<and> tb_First tb st' i = Inr item
    \<and> g_DNS item = g_DNS (gr_Form form) \<and> g_NTP item = g_NTP (gr_Form form)
    \<and> g_Syslog item = g_Syslog (gr_Form form) \<and> g_Vlan item = g_Vlan (gr_Form form)
    \<and> g_BootDisk item = g_BootDisk (gr_Form form)
    \<and> g_Name item = or_else (g_Name (gr_Form form)) (g_Name old)
    \<and> g_Netmask item = or_else (g_Netmask (gr_Form form)) (g_Netmask old)
    \<and> (if gr_Password form = [] then g_Password item = g_Password old
       else verifyPassword (ge_classes env) (gr_Password form) = None
         \<and> Decrypt (g_Password item) (ge_key env) = Inr (gr_Password form))"
proof (rule UpdateGroup_merged [OF assms(2,3)])
  fix i old new pw row
  assume i: "pathID param = Inr i" and old: "tb_First tb st i = Inr old"
    and new: "new = override_group old ((gr_Form form)\<lparr>g_ID := 0, g_Password := []\<rparr>)"
    and pw: "gr_Password form = [] \<and> pw = g_Password new
      \<or> gr_Password form \<noteq> [] \<and> verifyPassword (ge_classes env) (gr_Password form) = None
        \<and> Encrypt (gr_Password form) (ge_key env) (ge_random env) = Inr pw"
    and save: "tb_Save tb st (overwrite_fields (gr_Form form) ((strip_lists new)\<lparr>g_Password := pw\<rparr>)) = Inr (row, st')"
    and first: "tb_First tb st' (g_ID row) = Inr item" and rs: "rs = [JSON 200 item]"
  have "g_ID (overwrite_fields (gr_Form form) ((strip_lists new)\<lparr>g_Password := pw\<rparr>)) = g_ID old"
    by (simp add: new override_group_def overwrite_fields_def strip_lists_def)
  note row = table_saved [OF assms(1) old save this]
  then have item: "item = row" using first by simp
  have "gr_Password form \<noteq> [] \<Longrightarrow> Decrypt pw (ge_key env) = Inr (gr_Password form)"
    using pw assms(4,5) Decrypt_Encrypt [of "gr_Password form" "ge_key env" nonce pw] by simp
  then show ?thesis
    using i old rs pw row(1-3) item
    by (intro exI [of _ i] exI [of _ old])
      (auto simp: new override_group_def overwrite_fields_def strip_lists_def or_else_def)
qed

text \<open>when the merge fails the client is told so, and the handler goes on all the same: the
  row is saved with the fields of the request that are always overwritten, and a second reply
  follows.\<close>

theorem failed_merge_is_saved:
  assumes "table_laws tb g_ID (\<lambda>k g. g\<lparr>g_ID := k\<rparr>)"
    and "merge old ((gr_Form form)\<lparr>g_ID := 0, g_Password := []\<rparr>) = Inl e"
    and "pathID param = Inr i" and "tb_First tb st i = Inr old" and "gr_Password form = []"
    and "tb_Save tb st (overwrite_fields (gr_Form form) (strip_lists old)) = Inr (row, st')"
  shows "UpdateGroup tb merge env st param (Inr form) = ([Error 500 (MergeFailure e), JSON 200 row], st')
    \<and> tb_First tb st' i = Inr row \<and> g_DNS row = g_DNS (gr_Form form)"
proof -
  have same: "g_ID (overwrite_fields (gr_Form form) (strip_lists old)) = g_ID old"
    by (simp add: overwrite_fields_def strip_lists_def)
  note row = table_saved [OF assms(1,4,6) this]
  have "g_ID row = i" "g_DNS row = g_DNS (gr_Form form)"
    using row(1,3) by (simp_all add: overwrite_fields_def)
  then show ?thesis
    using assms(2-6) row(1,2)
    by (simp add: UpdateGroup_def load_def finish_update_def reload_def Let_def)
qed

subsection \<open>The properties at work\<close>

definition example_groups :: "(group list, group) table" where
  "example_groups = list_table g_ID (\<lambda>k g. g\<lparr>g_ID := k\<rparr>)"

lemma example_groups_laws: "table_laws example_groups g_ID (\<lambda>k g. g\<lparr>g_ID := k\<rparr>)"
  unfolding example_groups_def by (rule list_table_laws) simp

definition example_group_env :: group_env where
  "example_group_env = \<lparr>ge_key = hex_EncodeToString (replicate 32 7), ge_random = Some (replicate 12 9),
     ge_classes = (\<lambda>_. classes_of_set {})\<rparr>"

definition example_request :: GroupRequest where
  "example_request = \<lparr>gr_Form = zero_group\<lparr>g_Name := ''lab'', g_DNS := ''10.0.0.1, 10.0.0.2''\<rparr>,
     gr_Password = ''VMware1!''\<rparr>"

lemma example_password: "verifyPassword u ''VMware1!'' = None"
  by (simp add: verifyPassword_def is_ascii_def class_step_def b2i_def IsNumber_def IsUpper_def
      IsLetter_def IsPunctOrSymbol_def Let_def)

lemma example_encrypt: "\<exists>e. Encrypt p (hex_EncodeToString (replicate 32 7)) r = Inr e"
  if "r = Some (replicate 12 9)" for p
proof -
  have "newGCM (hex_EncodeToString (replicate 32 7)) = Inr (replicate 32 7)"
    by (rule newGCM_hex) (simp add: keySize_def)
  then show ?thesis using that by (simp add: Encrypt_def Let_def)
qed

theorem created_group_witness:
  "\<exists>(item :: group) st'. CreateGroup example_groups example_group_env [] (Inr example_request) = (JSON 200 item, st')
     \<and> Decrypt (g_Password item) (ge_key example_group_env) = Inr ''VMware1!'' \<and> CHR '' '' \<notin> set (g_DNS item)"
proof -
  obtain e where e: "Encrypt ''VMware1!'' (hex_EncodeToString (replicate 32 7)) (Some (replicate 12 9)) = Inr e"
    using example_encrypt by blast
  obtain item st' where c:
    "CreateGroup example_groups example_group_env [] (Inr example_request) = (JSON 200 item, st')"
    by (simp add: CreateGroup_def example_group_env_def example_request_def example_password e
        example_groups_def list_table_def reload_def Let_def)
  have "ge_random example_group_env = Some (replicate 12 9)" "length (replicate 12 (9 :: byte)) = NonceSize"
    by (simp_all add: example_group_env_def NonceSize_def)
  from created_group [OF example_groups_laws c this] c show ?thesis
    by (intro exI [of _ item] exI [of _ st']) (auto simp: example_request_def space_encodings_def)
qed

theorem updated_group_witness:
  "\<exists>(item :: group) st'. UpdateGroup example_groups (\<lambda>d s. Inr (override_group d s)) example_group_env
       [zero_group\<lparr>g_ID := 1, g_Password := ''kept''\<rparr>] (Itoa 1) (Inr (example_request\<lparr>gr_Password := []\<rparr>))
       = ([JSON 200 item], st')
     \<and> g_Password item = ''kept'' \<and> g_DNS item = ''10.0.0.1, 10.0.0.2''"
proof -
  have i: "pathID (Itoa 1) = Inr 1" by (rule pathID_Itoa) (simp add: int_fits_def)
  obtain item st' where c: "UpdateGroup example_groups (\<lambda>d s. Inr (override_group d s)) example_group_env
       [zero_group\<lparr>g_ID := 1, g_Password := ''kept''\<rparr>] (Itoa 1) (Inr (example_request\<lparr>gr_Password := []\<rparr>))
       = ([JSON 200 item], st')"
    by (simp add: UpdateGroup_def i load_def example_groups_def list_table_def finish_update_def reload_def
        overwrite_fields_def strip_lists_def override_group_def zero_group_def Let_def)
  have r: "ge_random example_group_env = Some (replicate 12 9)" "length (replicate 12 (9 :: byte)) = NonceSize"
    by (simp_all add: example_group_env_def NonceSize_def)
  have "JSON 200 item \<in> set [JSON 200 item]" by simp
  from updated_group [OF example_groups_laws c this r] i c show ?thesis
    by (intro exI [of _ item] exI [of _ st']) (auto simp: example_request_def example_groups_def list_table_def)
qed

theorem failed_merge_is_saved_witness:
  "\<exists>(row :: group) st'. UpdateGroup example_groups (\<lambda>d s. Inl ''types differ'') example_group_env
       [zero_group\<lparr>g_ID := 1, g_DNS := ''old''\<rparr>] (Itoa 1) (Inr (example_request\<lparr>gr_Password := []\<rparr>))
       = ([Error 500 (MergeFailure ''types differ''), JSON 200 row], st') \<and> g_DNS row = ''10.0.0.1, 10.0.0.2''"
proof -
  have i: "pathID (Itoa 1) = Inr 1" by (rule pathID_Itoa) (simp add: int_fits_def)
  let ?old = "zero_group\<lparr>g_ID := 1, g_DNS := ''old''\<rparr>"
  have old: "tb_First example_groups [?old] 1 = Inr ?old"
    by (simp add: example_groups_def list_table_def)
  let ?new = "overwrite_fields (gr_Form example_request) (strip_lists ?old)"
  have "tb_Save example_groups [?old] ?new = Inr (?new, [?new])"
    by (simp add: example_groups_def list_table_def overwrite_fields_def strip_lists_def)
  with failed_merge_is_saved [OF example_groups_laws _ i old,
      where merge = "\<lambda>d s. Inl ''types differ''" and e = "''types differ''" and form = "example_request\<lparr>gr_Password := []\<rparr>"]
  show ?thesis
    by (intro exI [of _ ?new] exI [of _ "[?new]"]) (simp add: example_request_def)
qed

end
