(* ===== verification/Hosts.thy ===== *)
theory Hosts
  imports Host_Groups Dhcp
begin

section \<open>Hosts: internal/api/hosts.go\<close>

text \<open>
  Creating and changing a host. A new host names its group, its hardware address is brought
  into one form, and its address has to lie in the network of the group; none of this is done
  when a host is changed. The parameters are the table of hosts, the query for a group, and
  the merging of structs.
\<close>

definition ListHosts :: "('st, host) table \<Rightarrow> 'st \<Rightarrow> host list reply" where
  "ListHosts tb st = crud_List tb st"

definition GetHost :: "('st, host) table \<Rightarrow> 'st \<Rightarrow> string \<Rightarrow> host reply" where
  "GetHost tb st param = crud_Get tb st param"

definition SearchHost :: "('st, host) table \<Rightarrow> 'st \<Rightarrow> (string \<times> string) list bound \<Rightarrow> host reply" where
  "SearchHost tb st body = crud_Search tb st body"

definition DeleteHost :: "('st, host) table \<Rightarrow> 'st \<Rightarrow> string \<Rightarrow> host reply \<times> 'st" where
  "DeleteHost tb st param = crud_Delete tb st param"

text \<open>The address of the form, if it has one, against the network of the group: the reply that
  refuses it, or \<open>None\<close>.\<close>

definition check_ip :: "host \<Rightarrow> group \<Rightarrow> host reply option" where
  "check_ip item g =
     (if TrimSpace (h_IP item) \<noteq> [] then
        (case ParseAddr (h_IP item) of
           None \<Rightarrow> Some (Error 400 (Invalid ''invalid IP address''))
         | Some ipAddr \<Rightarrow>
             (case NetmaskToCIDR (g_Netmask g) of
                Inl e \<Rightarrow> Some (Error 500 (Invalid ''invalid group netmask''))
              | Inr cidr \<Rightarrow>
                  (case NetworkAddress (g_Gateway g) (g_Netmask g) of
                     Inl e \<Rightarrow> Some (Error 500 (Invalid ''invalid group gateway/netmask''))
                   | Inr networkAddr \<Rightarrow>
                       (case ParsePrefix (networkAddr @ ''/'' @ Itoa cidr) of
                          None \<Rightarrow> Some (Error 500 (Invalid ''failed to parse network prefix''))
                        | Some pfx \<Rightarrow>
                            if \<not> Prefix_Contains pfx ipAddr
                            then Some (Error 400 (Invalid ''ip is not in the network of the group''))
                            else None))))
      else None)"

definition CreateHost ::
    "('st, host) table \<Rightarrow> ('st \<Rightarrow> NullInt32 \<Rightarrow> db_error + group) \<Rightarrow> 'st \<Rightarrow> host bound \<Rightarrow> host reply \<times> 'st" where
  "CreateHost tb find_group st body =
     (case body of
        Inl e \<Rightarrow> (Error 400 (BadBody e), st)
      | Inr form \<Rightarrow>
          (let item = form\<lparr>h_ID := 0, h_Group := zero_group\<rparr>
           in case find_group st (h_GroupID form) of
                Inl e \<Rightarrow> (Error 500 (DBFailure e), st)
              | Inr g \<Rightarrow>
                  (let mac = (case ParseMAC (h_Mac item) of None \<Rightarrow> [] | Some hw \<Rightarrow> hw);
                       item = item\<lparr>h_Mac := HW_String mac\<rparr>
                   in case check_ip item g of
                        Some r \<Rightarrow> (r, st)
                      | None \<Rightarrow>
                          (case (if h_ID item \<noteq> 0 then tb_Save tb st item else tb_Create tb st item) of
                             Inl e \<Rightarrow> (Error 500 (DBFailure e), st)
                           | Inr (item, st) \<Rightarrow> reload tb h_ID item st))))"

text \<open>As in \<^verbatim>\<open>UpdateGroup\<close>, a failed merge is reported and the handler goes on: the list holds
  every reply.\<close>

definition force_fields :: "host \<Rightarrow> host \<Rightarrow> host" where
  "force_fields form item = item\<lparr>h_Reimage := h_Reimage form, h_Progress := h_Progress form\<rparr>"

definition UpdateHost ::
    "('st, host) table \<Rightarrow> (host \<Rightarrow> host \<Rightarrow> string + host) \<Rightarrow> 'st \<Rightarrow> string \<Rightarrow> host bound
     \<Rightarrow> host reply list \<times> 'st" where
  "UpdateHost tb merge st param body =
     (case pathID param of
        Inl e \<Rightarrow> ([Error 400 e], st)
      | Inr i \<Rightarrow>
          (case body of
             Inl e \<Rightarrow> ([Error 400 (BadBody e)], st)
           | Inr form \<Rightarrow>
               (case load tb st i of
                  Inl r \<Rightarrow> ([r], st)
                | Inr item \<Rightarrow>
                    (let (replies, item) =
                       (case merge item (form\<lparr>h_ID := 0, h_Group := zero_group\<rparr>) of
                          Inl e \<Rightarrow> ([Error 500 (MergeFailure e)], item)
                        | Inr item \<Rightarrow> ([], item));
                         item = force_fields form item
                     in case tb_Save tb st item of
                          Inl e \<Rightarrow> (replies @ [Error 500 (DBFailure e)], st)
                        | Inr (item, st) \<Rightarrow>
                            (let (r, st) = reload tb h_ID item st in (replies @ [r], st))))))"

subsection \<open>Facts\<close>

text \<open>The documented merge of hosts: fields that are set override, also within the reference
  to the group.\<close>

definition override_host :: "host \<Rightarrow> host \<Rightarrow> host" where
  "override_host d s =
     \<lparr>h_ID = (if h_ID s = 0 then h_ID d else h_ID s), h_Group = override_group (h_Group d) (h_Group s),
      h_IP = or_else (h_IP s) (h_IP d), h_Mac = or_else (h_Mac s) (h_Mac d),
      h_Hostname = or_else (h_Hostname s) (h_Hostname d), h_Domain = or_else (h_Domain s) (h_Domain d),
      h_Reimage = (h_Reimage s \<or> h_Reimage d),
      h_GroupID = \<lparr>Int32 = (if Int32 (h_GroupID s) = 0 then Int32 (h_GroupID d) else Int32 (h_GroupID s)),
                   Valid = (Valid (h_GroupID s) \<or> Valid (h_GroupID d))\<rparr>,
      h_Progress = (if h_Progress s = 0 then h_Progress d else h_Progress s),
      h_Progresstext = or_else (h_Progresstext s) (h_Progresstext d), h_Ks = or_else (h_Ks s) (h_Ks d)\<rparr>"

text \<open>What it means that a text is an IPv4 address of a group's network.\<close>

definition in_network :: "string \<Rightarrow> group \<Rightarrow> bool" where
  "in_network s g \<longleftrightarrow>
     (\<exists>a n gw. ParseAddr s = Some (Addr4 a) \<and> NetmaskToCIDR (g_Netmask g) = Inr n
        \<and> To4 (ParseIP (TrimSpace (g_Gateway g))) = gw \<and> gw \<noteq> []
        \<and> be32 a AND NOT (mask (32 - nat n)) = be32 gw AND NOT (mask (32 - nat n)))"

lemma check_ip_None:
  "check_ip item g = None \<longleftrightarrow> TrimSpace (h_IP item) = [] \<or> in_network (h_IP item) g"
proof (cases "NetmaskToCIDR (g_Netmask g)")
  case (Inl e)
  then show ?thesis by (auto simp: check_ip_def in_network_def split: option.splits)
next
  case (Inr n)
  note n = NetmaskToCIDR_range [OF Inr]
  let ?gw = "To4 (ParseIP (TrimSpace (g_Gateway g)))"
  show ?thesis
  proof (cases "?gw = []")
    case True
    then have "NetworkAddress (g_Gateway g) (g_Netmask g) = Inl InvalidGateway"
      by (simp add: NetworkAddress_def)
    with True Inr show ?thesis by (auto simp: check_ip_def in_network_def split: option.splits)
  next
    case False
    then have len: "length ?gw = 4" using To4_length by blast
    have "NetworkAddress (g_Gateway g) (g_Netmask g) = Inr (dotted (IP_Mask ?gw (CIDRMask n)))"
      by (rule NetworkAddress_CIDR [OF Inr refl False])
    moreover have "ParsePrefix (dotted (IP_Mask ?gw (CIDRMask n)) @ ''/'' @ Itoa n)
        = Some (Addr4 (IP_Mask ?gw (CIDRMask n)), n)"
      using be32_network(1) [OF len] n by (intro ParsePrefix_dotted) auto
    moreover have "Prefix_Contains (Addr4 (IP_Mask ?gw (CIDRMask n)), n) ip \<longleftrightarrow>
        (\<exists>a. ip = Addr4 a \<and> be32 a AND NOT (mask (32 - nat n)) = be32 ?gw AND NOT (mask (32 - nat n)))" for ip
      using be32_network(2) [OF len] n by (cases ip) (auto simp: Contains_v4 and.assoc simp del: Prefix_Contains.simps(1))
    ultimately show ?thesis
      using Inr False by (auto simp: check_ip_def in_network_def split: option.splits)
  qed
qed

lemma CreateHost_JSON:
  assumes "CreateHost tb find_group st (Inr form) = (JSON c item, st')"
  obtains g row where "find_group st (h_GroupID form) = Inr g"
    and "TrimSpace (h_IP form) = [] \<or> in_network (h_IP form) g"
    and "tb_Create tb st (form\<lparr>h_ID := 0, h_Group := zero_group,
       h_Mac := HW_String (case ParseMAC (h_Mac form) of None \<Rightarrow> [] | Some hw \<Rightarrow> hw)\<rparr>) = Inr (row, st')"
    and "tb_First tb st' (h_ID row) = Inr item" and "c = 200"
proof -
  let ?item = "form\<lparr>h_ID := 0, h_Group := zero_group,
       h_Mac := HW_String (case ParseMAC (h_Mac form) of None \<Rightarrow> [] | Some hw \<Rightarrow> hw)\<rparr>"
  obtain g where g: "find_group st (h_GroupID form) = Inr g"
    using assms by (auto simp: CreateHost_def Let_def split: sum.splits)
  have "r \<noteq> JSON c item" if "check_ip i g = Some r" for i r
    using that by (auto simp: check_ip_def split: if_splits option.splits sum.splits)
  then have ok: "check_ip ?item g = None"
    using assms g by (auto simp: CreateHost_def Let_def split: option.splits)
  obtain row where "tb_Create tb st ?item = Inr (row, st')" "tb_First tb st' (h_ID row) = Inr item" "c = 200"
    using assms g ok by (auto simp: CreateHost_def reload_def Let_def split: sum.splits)
  then show ?thesis using that [OF g] ok check_ip_None [of ?item g] by simp
qed

lemma UpdateHost_merged:
  assumes "UpdateHost tb (\<lambda>d s. Inr (override_host d s)) st param (Inr form) = (rs, st')"
    and "JSON c item \<in> set rs"
  obtains i old row where "pathID param = Inr i" and "tb_First tb st i = Inr old"
    and "tb_Save tb st (force_fields form (override_host old (form\<lparr>h_ID := 0, h_Group := zero_group\<rparr>))) = Inr (row, st')"
    and "tb_First tb st' (h_ID row) = Inr item" and "rs = [JSON 200 item]"
proof -
  obtain i where i: "pathID param = Inr i" using assms by (auto simp: UpdateHost_def split: sum.splits)
  obtain old where old: "tb_First tb st i = Inr old"
    using assms i by (auto simp: UpdateHost_def load_def split: sum.splits db_error.splits)
  show ?thesis
    using assms i old
    by (auto simp: UpdateHost_def load_def reload_def Let_def intro!: that [OF i old]
        split: sum.splits prod.splits)
qed

lemma empty_not_HW: "mac_length (length a) \<Longrightarrow> HW_String a \<noteq> []"
  using length_joined [of a "CHR '':''"] by (fastforce simp: mac_length_def HW_String_def)

subsection \<open>Properties\<close>

text \<open>C28: a new host is stored only with no address or with an IPv4 address that agrees with the
  gateway of its group on every bit of the netmask; any other address is refused and changes
  nothing. What is stored is what was sent, under a new key, but for the spelling of the
  hardware address.\<close>

theorem created_host_in_network:
  assumes "table_laws tb h_ID (\<lambda>k h. h\<lparr>h_ID := k\<rparr>)" and "find_group st (h_GroupID form) = Inr g"
  shows "(CreateHost tb find_group st (Inr form) = (JSON c item, st') \<longrightarrow>
      (TrimSpace (h_IP item) = [] \<or> in_network (h_IP item) g)
      \<and> tb_First tb st (h_ID item) = Inl ErrRecordNotFound \<and> tb_First tb st' (h_ID item) = Inr item
      \<and> item\<lparr>h_Mac := h_Mac form\<rparr> = form\<lparr>h_ID := h_ID item, h_Group := zero_group\<rparr>)
    \<and> (TrimSpace (h_IP form) \<noteq> [] \<and> \<not> in_network (h_IP form) g \<longrightarrow>
      (\<exists>s e. CreateHost tb find_group st (Inr form) = (Error s e, st)))"
proof (rule conjI; rule impI)
  assume "CreateHost tb find_group st (Inr form) = (JSON c item, st')"
  then show "(TrimSpace (h_IP item) = [] \<or> in_network (h_IP item) g)
      \<and> tb_First tb st (h_ID item) = Inl ErrRecordNotFound \<and> tb_First tb st' (h_ID item) = Inr item
      \<and> item\<lparr>h_Mac := h_Mac form\<rparr> = form\<lparr>h_ID := h_ID item, h_Group := zero_group\<rparr>"
  proof (rule CreateHost_JSON)
    fix g' row
    let ?new = "form\<lparr>h_ID := 0, h_Group := zero_group,
       h_Mac := HW_String (case ParseMAC (h_Mac form) of None \<Rightarrow> [] | Some hw \<Rightarrow> hw)\<rparr>"
    assume g: "find_group st (h_GroupID form) = Inr g'" "TrimSpace (h_IP form) = [] \<or> in_network (h_IP form) g'"
      and row: "tb_Create tb st ?new = Inr (row, st')" "tb_First tb st' (h_ID row) = Inr item"
    from table_lawsD(2) [OF assms(1) row(1)] obtain k where k: "row = ?new\<lparr>h_ID := k\<rparr>"
      "tb_First tb st k = Inl ErrRecordNotFound" "tb_First tb st' k = Inr row" by auto
    then have "item = ?new\<lparr>h_ID := k\<rparr>" using row(2) by simp
    then show ?thesis using g assms(2) k by auto
  qed
next
  assume "TrimSpace (h_IP form) \<noteq> [] \<and> \<not> in_network (h_IP form) g"
  then have "\<exists>s e. check_ip (form\<lparr>h_ID := 0, h_Group := zero_group, h_Mac := m\<rparr>) g = Some (Error s e)" for m
    using check_ip_None [of "form\<lparr>h_ID := 0, h_Group := zero_group, h_Mac := m\<rparr>" g]
    by (auto simp: check_ip_def split: option.splits sum.splits)
  then obtain s e where "check_ip (form\<lparr>h_ID := 0, h_Group := zero_group,
       h_Mac := HW_String (case ParseMAC (h_Mac form) of None \<Rightarrow> [] | Some hw \<Rightarrow> hw)\<rparr>) g = Some (Error s e)"
    by blast
  then show "\<exists>s e. CreateHost tb find_group st (Inr form) = (Error s e, st)"
    using assms(2) by (simp add: CreateHost_def Let_def)
qed

text \<open>the DHCP server knows a new host exactly by the hardware address its form denotes, in
  whatever spelling; a form with an unreadable address is accepted too, and its host is never
  found.\<close>

theorem created_host_found_by_dhcp:
  assumes "table_laws tb h_ID (\<lambda>k h. h\<lparr>h_ID := k\<rparr>)"
    and "CreateHost tb find_group st (Inr form) = (JSON c item, st')"
    and "\<And>q. find_by_mac env q = (if map lower_char (h_Mac item) = q then Inr item else Inl ErrRecordNotFound)"
    and "mac_length (length a)" and "h_Reimage form"
  shows "findHostByMAC env (HW_String a) = Inr (if ParseMAC (h_Mac form) = Some a then Some item else None)"
proof (rule CreateHost_JSON [OF assms(2)])
  fix g row
  let ?mac = "HW_String (case ParseMAC (h_Mac form) of None \<Rightarrow> [] | Some hw \<Rightarrow> hw)"
  assume row: "tb_Create tb st (form\<lparr>h_ID := 0, h_Group := zero_group, h_Mac := ?mac\<rparr>) = Inr (row, st')"
    "tb_First tb st' (h_ID row) = Inr item"
  from table_lawsD(2) [OF assms(1) row(1)] row(2) have item: "h_Mac item = ?mac" "h_Reimage item"
    using assms(5) by auto
  have "map lower_char (h_Mac item) = HW_String a \<longleftrightarrow> ParseMAC (h_Mac form) = Some a"
    using hardware_address.enc_inject [of _ a] assms(4) ParseMAC_length [of "h_Mac form"] empty_not_HW
    by (auto simp: item map_lower_HW_String split: option.splits) (auto simp: HW_String_def)
  then show ?thesis
    using item(2) by (simp add: findHostByMAC_def assms(3) HW_String_lower)
qed

text \<open>an update checks neither address: whatever is sent and not empty is stored as it is, in
  the network of the group or not. The flag and the progress are always those of the request,
  and a host is never taken out of a group.\<close>

theorem updated_host_unchecked:
  assumes "table_laws tb h_ID (\<lambda>k h. h\<lparr>h_ID := k\<rparr>)"
    and "UpdateHost tb (\<lambda>d s. Inr (override_host d s)) st param (Inr form) = (rs, st')"
    and "JSON c item \<in> set rs"
  shows "\<exists>i old. pathID param = Inr i \<and> tb_First tb st i = Inr old \<and> rs = [JSON 200 item]
    \<and> h_ID item = i \<and> tb_First tb st' i = Inr item
    \<and> h_IP item = or_else (h_IP form) (h_IP old) \<and> h_Mac item = or_else (h_Mac form) (h_Mac old)
    \<and> h_Reimage item = h_Reimage form \<and> h_Progress item = h_Progress form
    \<and> Valid (h_GroupID item) = (Valid (h_GroupID form) \<or> Valid (h_GroupID old))"
proof (rule UpdateHost_merged [OF assms(2,3)])
  fix i old row
  let ?new = "force_fields form (override_host old (form\<lparr>h_ID := 0, h_Group := zero_group\<rparr>))"
  assume i: "pathID param = Inr i" and old: "tb_First tb st i = Inr old"
    and save: "tb_Save tb st ?new = Inr (row, st')"
    and first: "tb_First tb st' (h_ID row) = Inr item" and rs: "rs = [JSON 200 item]"
  have "h_ID ?new = h_ID old" by (simp add: force_fields_def override_host_def)
  note row = table_saved [OF assms(1) old save this]
  then show ?thesis
    using i old rs first by (intro exI [of _ i] exI [of _ old]) (auto simp: force_fields_def override_host_def)
qed

subsection \<open>The properties at work\<close>

definition example_hosts :: "(host list, host) table" where
  "example_hosts = list_table h_ID (\<lambda>k h. h\<lparr>h_ID := k\<rparr>)"

lemma example_hosts_laws: "table_laws example_hosts h_ID (\<lambda>k h. h\<lparr>h_ID := k\<rparr>)"
  unfolding example_hosts_def by (rule list_table_laws) simp

definition lab_group :: group where
  "lab_group = zero_group\<lparr>g_ID := 1, g_Gateway := ''10.0.0.1'', g_Netmask := ''24''\<rparr>"

definition lab_host :: "string \<Rightarrow> host" where
  "lab_host ip = zero_host\<lparr>h_IP := ip, h_Mac := ''00-50-56-AA-0b-01'', h_Reimage := True,
     h_GroupID := \<lparr>Int32 = 1, Valid = True\<rparr>\<rparr>"

abbreviation lab_groups :: "host list \<Rightarrow> NullInt32 \<Rightarrow> db_error + group" where
  "lab_groups \<equiv> \<lambda>st r. if r = \<lparr>Int32 = 1, Valid = True\<rparr> then Inr lab_group else Inl ErrRecordNotFound"

lemma lab_mac: "ParseMAC ''00-50-56-AA-0b-01'' = Some [0, 0x50, 0x56, 0xAA, 0x0b, 1]"
  by code_simp

lemma lab_addresses:
  "NetmaskToCIDR ''24'' = Inr 24" "To4 (ParseIP (TrimSpace ''10.0.0.1'')) = [10, 0, 0, 1]"
  "ParseAddr ''10.0.0.7'' = Some (Addr4 [10, 0, 0, 7])" "ParseAddr ''10.0.1.7'' = Some (Addr4 [10, 0, 1, 7])"
  "TrimSpace ''10.0.0.7'' \<noteq> []" "TrimSpace ''10.0.1.7'' \<noteq> []"
  by code_simp+

lemma lab_network: "in_network ''10.0.0.7'' lab_group" "\<not> in_network ''10.0.1.7'' lab_group"
proof -
  have "be32 [10, 0, 0, 7] AND NOT (mask 8) = be32 [10, 0, 0, 1] AND NOT (mask 8)"
    "be32 [10, 0, 1, 7] AND NOT (mask 8) \<noteq> be32 [10, 0, 0, 1] AND NOT (mask 8)"
    by code_simp+
  then show "in_network ''10.0.0.7'' lab_group" "\<not> in_network ''10.0.1.7'' lab_group"
    by (simp_all add: in_network_def lab_group_def lab_addresses)
qed

lemma lab_created:
  "CreateHost example_hosts lab_groups [] (Inr (lab_host ''10.0.0.7''))
     = (JSON 200 ((lab_host ''10.0.0.7'')\<lparr>h_ID := 1, h_Mac := HW_String [0, 0x50, 0x56, 0xAA, 0x0b, 1]\<rparr>),
        [(lab_host ''10.0.0.7'')\<lparr>h_ID := 1, h_Mac := HW_String [0, 0x50, 0x56, 0xAA, 0x0b, 1]\<rparr>])"
proof -
  have "check_ip ((lab_host ''10.0.0.7'')\<lparr>h_ID := 0, h_Group := zero_group, h_Mac := m\<rparr>) lab_group = None" for m
    using lab_network by (simp add: check_ip_None lab_host_def)
  then show ?thesis
    by (simp add: CreateHost_def lab_host_def lab_mac example_hosts_def list_table_def reload_def zero_host_def Let_def)
qed

theorem created_host_in_network_witness:
  "(\<exists>item st'. CreateHost example_hosts lab_groups [] (Inr (lab_host ''10.0.0.7'')) = (JSON 200 item, st')
      \<and> (TrimSpace (h_IP item) = [] \<or> in_network (h_IP item) lab_group) \<and> tb_First example_hosts st' (h_ID item) = Inr item)
   \<and> (\<exists>s e. CreateHost example_hosts lab_groups [] (Inr (lab_host ''10.0.1.7'')) = (Error s e, []))"
proof -
  have g: "lab_groups [] (h_GroupID (lab_host ip)) = Inr lab_group" for ip by (simp add: lab_host_def)
  note p = created_host_in_network [OF example_hosts_laws, where find_group = lab_groups and st = "[]", OF g]
  have "TrimSpace (h_IP (lab_host ''10.0.1.7'')) \<noteq> [] \<and> \<not> in_network (h_IP (lab_host ''10.0.1.7'')) lab_group"
    using lab_addresses(6) lab_network(2) by (simp add: lab_host_def)
  then have bad: "\<exists>s e. CreateHost example_hosts lab_groups [] (Inr (lab_host ''10.0.1.7'')) = (Error s e, [])"
    by (rule p [THEN conjunct2, rule_format])
  from p [THEN conjunct1, rule_format, OF lab_created] lab_created bad show ?thesis by blast
qed

theorem created_host_found_by_dhcp_witness:
  "\<exists>item env. findHostByMAC env (HW_String [0, 0x50, 0x56, 0xAA, 0x0b, 1]) = Inr (Some item) \<and> h_IP item = ''10.0.0.7''
     \<and> findHostByMAC env (HW_String [0, 0x50, 0x56, 0xAA, 0x0b, 2]) = Inr None"
proof -
  let ?item = "(lab_host ''10.0.0.7'')\<lparr>h_ID := 1, h_Mac := HW_String [0, 0x50, 0x56, 0xAA, 0x0b, 1]\<rparr>"
  let ?env = "\<lparr>find_by_mac = (\<lambda>q. if map lower_char (h_Mac ?item) = q then Inr ?item else Inl ErrRecordNotFound),
     load_host = (\<lambda>_. Inr ?item), unicode_lower = (\<lambda>s. s), map_order = (\<lambda>k. k)\<rparr>"
  note r = created_host_found_by_dhcp [OF example_hosts_laws lab_created, of ?env]
  have "findHostByMAC ?env (HW_String [0, 0x50, 0x56, 0xAA, 0x0b, 1]) = Inr (Some ?item)"
    using r [of "[0, 0x50, 0x56, 0xAA, 0x0b, 1]"] by (simp add: mac_length_def lab_host_def lab_mac)
  moreover have "findHostByMAC ?env (HW_String [0, 0x50, 0x56, 0xAA, 0x0b, 2]) = Inr None"
    using r [of "[0, 0x50, 0x56, 0xAA, 0x0b, 2]"] by (simp add: mac_length_def lab_host_def lab_mac)
  ultimately show ?thesis by (intro exI [of _ ?item] exI [of _ ?env]) (simp add: lab_host_def)
qed

theorem updated_host_unchecked_witness:
  "\<exists>item st'. UpdateHost example_hosts (\<lambda>d s. Inr (override_host d s)) [(lab_host ''10.0.0.7'')\<lparr>h_ID := 1\<rparr>]
       (Itoa 1) (Inr (lab_host ''10.0.1.7'')) = ([JSON 200 item], st')
     \<and> h_IP item = ''10.0.1.7'' \<and> \<not> in_network (h_IP item) lab_group \<and> h_Mac item = ''00-50-56-AA-0b-01''"
proof -
  have i: "pathID (Itoa 1) = Inr 1" by (rule pathID_Itoa) (simp add: int_fits_def)
  obtain item st' where c: "UpdateHost example_hosts (\<lambda>d s. Inr (override_host d s)) [(lab_host ''10.0.0.7'')\<lparr>h_ID := 1\<rparr>]
       (Itoa 1) (Inr (lab_host ''10.0.1.7'')) = ([JSON 200 item], st')"
    by (simp add: UpdateHost_def i load_def example_hosts_def list_table_def reload_def lab_host_def
        force_fields_def override_host_def zero_host_def Let_def)
  have "JSON 200 item \<in> set [JSON 200 item]" by simp
  from updated_host_unchecked [OF example_hosts_laws c this] c lab_network(2) show ?thesis
    by (intro exI [of _ item] exI [of _ st']) (auto simp: lab_host_def or_else_def)
qed

end
