(* ===== verification/Go_Template.thy ===== *)
theory Go_Template
  imports Go_Strings
begin

section \<open>Go's text/template, as far as a kickstart uses it\<close>

text \<open>
  Templates of text, fields of a map (\<^verbatim>\<open>{{ .name }}\<close>) and conditionals on a field or on
  its negation (\<^verbatim>\<open>{{ if .name }}\<close>, \<^verbatim>\<open>{{ if not .name }}\<close>), with spaces as the only white space
  in an action. \<open>Parse\<close> is \<open>None\<close> for every other text, of which nothing is said here: it may
  be an error or a template that uses more of the language. Execution inserts a value as it
  is; a field that the map does not have prints as \<^verbatim>\<open><no value>\<close> and counts as false.
\<close>

datatype node = Text string | Field string | If bool string "node list" "node list"

datatype token = T_Text string | T_Field string | T_If bool string | T_Else | T_End

subsection \<open>Lexer\<close>

text \<open>\<^verbatim>\<open>strings.Cut\<close>: what comes before the first occurrence of a text, and what comes after.\<close>

fun Cut :: "string \<Rightarrow> string \<Rightarrow> (string \<times> string) option" where
  "Cut p [] = (if p = [] then Some ([], []) else None)"
| "Cut p (c # cs) =
     (case strip_prefix p (c # cs) of
        Some r \<Rightarrow> Some ([], r)
      | None \<Rightarrow> (case Cut p cs of None \<Rightarrow> None | Some (a, b) \<Rightarrow> Some (c # a, b)))"

lemma Cut_Some: "Cut p s = Some (a, b) \<Longrightarrow> s = a @ p @ b"
  by (induction p s arbitrary: a rule: Cut.induct)
    (auto split: option.splits if_splits simp: strip_prefix_Some)

definition name_start :: "char \<Rightarrow> bool" where
  "name_start c \<longleftrightarrow>
     (let n = of_char c :: nat in 65 \<le> n \<and> n \<le> 90 \<or> 97 \<le> n \<and> n \<le> 122 \<or> n = 95)"

definition name_char :: "char \<Rightarrow> bool" where
  "name_char c \<longleftrightarrow> name_start c \<or> digit_val c \<noteq> None"

definition field_name :: "string \<Rightarrow> string option" where
  "field_name w =
     (case w of
        d # c # cs \<Rightarrow> if d = CHR ''.'' \<and> name_start c \<and> list_all name_char cs then Some (c # cs) else None
      | _ \<Rightarrow> None)"

text \<open>The words of an action, and the token they make.\<close>

definition action_words :: "string \<Rightarrow> string list" where
  "action_words a = filter (\<lambda>w. w \<noteq> []) (Split a (CHR '' ''))"

definition action :: "string list \<Rightarrow> token option" where
  "action ws =
     (case ws of
        [w] \<Rightarrow> if w = ''else'' then Some T_Else else if w = ''end'' then Some T_End
                else map_option T_Field (field_name w)
      | [k, w] \<Rightarrow> if k = ''if'' then map_option (T_If True) (field_name w) else None
      | [k, n, w] \<Rightarrow> if k = ''if'' \<and> n = ''not'' then map_option (T_If False) (field_name w) else None
      | _ \<Rightarrow> None)"

definition text_token :: "string \<Rightarrow> token list" where
  "text_token t = (if t = [] then [] else [T_Text t])"

function lex :: "string \<Rightarrow> token list option" where
  "lex s =
     (case Cut ''{{'' s of
        None \<Rightarrow> Some (text_token s)
      | Some (t, r) \<Rightarrow>
          (case Cut ''}}'' r of
             None \<Rightarrow> None
           | Some (a, rest) \<Rightarrow>
               (case action (action_words a) of
                  None \<Rightarrow> None
                | Some tok \<Rightarrow> map_option (\<lambda>ts. text_token t @ tok # ts) (lex rest))))"
  by pat_completeness auto
termination
  by (relation "measure length") (auto dest!: Cut_Some)

declare lex.simps [simp del]

subsection \<open>Parser\<close>

text \<open>The conditionals that are still open: in their first branch, or in their second with the
  first one done; each with what came before it, latest first.\<close>

datatype open_if = Then bool string "node list" | Else bool string "node list" "node list"

fun parse_tokens :: "token list \<Rightarrow> open_if list \<Rightarrow> node list \<Rightarrow> node list option" where
  "parse_tokens [] st acc = (if st = [] then Some (rev acc) else None)"
| "parse_tokens (T_Text s # ts) st acc = parse_tokens ts st (Text s # acc)"
| "parse_tokens (T_Field x # ts) st acc = parse_tokens ts st (Field x # acc)"
| "parse_tokens (T_If b x # ts) st acc = parse_tokens ts (Then b x acc # st) []"
| "parse_tokens (T_Else # ts) st acc =
     (case st of Then b x outer # st \<Rightarrow> parse_tokens ts (Else b x (rev acc) outer # st) [] | _ \<Rightarrow> None)"
| "parse_tokens (T_End # ts) st acc =
     (case st of
        Then b x outer # st \<Rightarrow> parse_tokens ts st (If b x (rev acc) [] # outer)
      | Else b x th outer # st \<Rightarrow> parse_tokens ts st (If b x th (rev acc) # outer)
      | [] \<Rightarrow> None)"

definition Parse :: "string \<Rightarrow> node list option" where
  "Parse s = Option.bind (lex s) (\<lambda>ts. parse_tokens ts [] [])"

subsection \<open>Execution\<close>

datatype data_value = Str string | Bool bool

type_synonym template_data = "string \<Rightarrow> data_value option"

fun truth :: "data_value option \<Rightarrow> bool" where
  "truth None = False"
| "truth (Some (Str s)) = (s \<noteq> [])"
| "truth (Some (Bool b)) = b"

fun print_value :: "data_value option \<Rightarrow> string" where
  "print_value None = ''<no value>''"
| "print_value (Some (Str s)) = s"
| "print_value (Some (Bool b)) = (if b then ''true'' else ''false'')"

fun Execute :: "template_data \<Rightarrow> node list \<Rightarrow> string" where
  "Execute d [] = []"
| "Execute d (Text s # ns) = s @ Execute d ns"
| "Execute d (Field x # ns) = print_value (d x) @ Execute d ns"
| "Execute d (If b x th el # ns) = (if truth (d x) = b then Execute d th else Execute d el) @ Execute d ns"

subsection \<open>Templates made of pieces\<close>

text \<open>A template written as its stretches of text and its actions is read back as those.\<close>

datatype piece = Txt string | Act string

fun piece_text :: "piece \<Rightarrow> string" where
  "piece_text (Txt t) = t"
| "piece_text (Act a) = ''{{'' @ a @ ''}}''"

definition pieces_text :: "piece list \<Rightarrow> string" where
  "pieces_text ps = concat (map piece_text ps)"

fun piece_token :: "piece \<Rightarrow> token option" where
  "piece_token (Txt t) = (if t = [] \<or> CHR ''{'' \<in> set t then None else Some (T_Text t))"
| "piece_token (Act a) = (if CHR ''}'' \<in> set a then None else action (action_words a))"

fun is_Txt :: "piece \<Rightarrow> bool" where
  "is_Txt (Txt t) = True"
| "is_Txt (Act a) = False"

fun pieces_tokens :: "piece list \<Rightarrow> token list option" where
  "pieces_tokens [] = Some []"
| "pieces_tokens (p # ps) =
     (if is_Txt p \<and> (case ps of [] \<Rightarrow> False | q # _ \<Rightarrow> is_Txt q) then None
      else Option.bind (piece_token p) (\<lambda>t. map_option ((#) t) (pieces_tokens ps)))"

lemma Cut_first:
  assumes "x \<notin> set a"
  shows "Cut [x, y] a = None" and "Cut [x, y] (a @ [x, y] @ r) = Some (a, r)"
  using assms by (induction a) auto

lemma lex_action:
  assumes "CHR ''{'' \<notin> set t" and "CHR ''}'' \<notin> set a"
  shows "lex (t @ ''{{'' @ a @ ''}}'' @ r) =
    Option.bind (action (action_words a)) (\<lambda>k. map_option (\<lambda>ts. text_token t @ k # ts) (lex r))"
proof -
  have "Cut ''{{'' (t @ ''{{'' @ a @ ''}}'' @ r) = Some (t, a @ ''}}'' @ r)"
    using Cut_first(2) [OF assms(1)] by simp
  moreover have "Cut ''}}'' (a @ ''}}'' @ r) = Some (a, r)" using Cut_first(2) [OF assms(2)] by simp
  ultimately show ?thesis by (subst lex.simps) (simp split: option.splits)
qed

lemma lex_text: "CHR ''{'' \<notin> set t \<Longrightarrow> lex t = Some (text_token t)"
  by (subst lex.simps) (simp add: Cut_first)

lemma lex_pieces: "pieces_tokens ps = Some ts \<Longrightarrow> lex (pieces_text ps) = Some ts"
proof (induction ps arbitrary: ts rule: induct_list012)
  case 1
  then show ?case using lex_text [of "[]"] by (simp add: pieces_text_def text_token_def)
next
  case (2 p)
  show ?case
  proof (cases p)
    case (Txt t)
    then show ?thesis using 2 lex_text [of t] by (auto simp: pieces_text_def text_token_def split: if_splits)
  next
    case (Act a)
    then show ?thesis using 2 lex_action [of "[]" a "[]"] lex_text [of "[]"]
      by (auto simp: pieces_text_def text_token_def bind_eq_Some_conv split: if_splits)
  qed
next
  case (3 p q ps)
  obtain t us where tu: "piece_token p = Some t" "pieces_tokens (q # ps) = Some us" "ts = t # us"
    using 3 by (auto simp: bind_eq_Some_conv split: if_splits)
  have rest: "lex (pieces_text (q # ps)) = Some us" using 3 tu(2) by blast
  show ?case
  proof (cases p)
    case (Act a)
    then have "CHR ''}'' \<notin> set a" "action (action_words a) = Some t" using tu(1) by (simp_all split: if_splits)
    then show ?thesis using lex_action [of "[]" a "pieces_text (q # ps)"] rest Act tu
      by (simp add: pieces_text_def text_token_def)
  next
    case (Txt s)
    then have s: "s \<noteq> []" "CHR ''{'' \<notin> set s" "t = T_Text s" using tu(1) by (simp_all split: if_splits)
    obtain a where a: "q = Act a" using 3 Txt by (cases q) auto
    then obtain k vs where k: "CHR ''}'' \<notin> set a" "action (action_words a) = Some k"
        "pieces_tokens ps = Some vs" "us = k # vs"
      using tu(2) by (auto simp: bind_eq_Some_conv split: if_splits)
    with 3 have "lex (pieces_text ps) = Some vs" by blast
    then show ?thesis using lex_action [OF s(2) k(1), of "pieces_text ps"] k Txt a s tu
      by (simp add: pieces_text_def text_token_def)
  qed
qed

text \<open>Balanced pieces are parsed on their own: the parser works on them in place, whatever is open
  around them.\<close>

fun graft :: "open_if list \<Rightarrow> node list \<Rightarrow> open_if list" where
  "graft [] acc = []"
| "graft [Then b x outer] acc = [Then b x (outer @ acc)]"
| "graft [Else b x th outer] acc = [Else b x th (outer @ acc)]"
| "graft (f # g # st) acc = f # graft (g # st) acc"

lemma graft_Cons: "st \<noteq> [] \<Longrightarrow> graft (f # st) acc = f # graft st acc"
  by (cases st) auto

lemma parse_tokens_inside:
  assumes "parse_tokens ts st0 a = Some ns"
  shows "parse_tokens (ts @ us) (graft st0 acc @ st) (if st0 = [] then a @ acc else a)
    = parse_tokens us st (rev ns @ acc)"
  using assms
proof (induction ts st0 a rule: parse_tokens.induct)
  case (4 b x ts st0 a)
  then show ?case by (cases "st0 = []") (auto simp: graft_Cons)
next
  case (5 ts st0 a)
  then obtain b x outer rest where st0: "st0 = Then b x outer # rest"
    by (auto split: list.splits open_if.splits)
  then show ?case using 5 by (cases "rest = []") (auto simp: graft_Cons)
next
  case (6 ts st0 a)
  show ?case
  proof (cases st0)
    case Nil
    then show ?thesis using 6 by simp
  next
    case (Cons f rest)
    then show ?thesis using 6 by (cases f; cases "rest = []") (auto simp: graft_Cons)
  qed
qed (auto split: if_splits)

definition piece_nodes :: "piece list \<Rightarrow> node list option" where
  "piece_nodes ps = Option.bind (pieces_tokens ps) (\<lambda>ts. parse_tokens ts [] [])"

lemma Parse_pieces: "piece_nodes ps = Some ns \<Longrightarrow> Parse (pieces_text ps) = Some ns"
  by (auto simp: piece_nodes_def Parse_def bind_eq_Some_conv lex_pieces)

lemma pieces_tokens_append:
  assumes "pieces_tokens ps = Some a" and "pieces_tokens qs = Some b" and "ps \<noteq> []" and "\<not> is_Txt (last ps)"
  shows "pieces_tokens (ps @ qs) = Some (a @ b)"
  using assms
  by (induction ps arbitrary: a rule: induct_list012)
    (auto simp: bind_eq_Some_conv split: if_splits)

lemma piece_nodes_append:
  assumes "piece_nodes ps = Some a" and "piece_nodes qs = Some b" and "ps \<noteq> []" and "\<not> is_Txt (last ps)"
  shows "piece_nodes (ps @ qs) = Some (a @ b)"
proof -
  obtain ts us where "pieces_tokens ps = Some ts" "parse_tokens ts [] [] = Some a"
    "pieces_tokens qs = Some us" "parse_tokens us [] [] = Some b"
    using assms(1,2) by (auto simp: piece_nodes_def bind_eq_Some_conv)
  moreover have "parse_tokens (us @ []) [] (rev a @ []) = parse_tokens [] [] (rev b @ rev a)"
    using parse_tokens_inside [OF calculation(4), of "[]" "rev a" "[]"] by simp
  moreover have "parse_tokens (ts @ us) [] [] = parse_tokens us [] (rev a)"
    using parse_tokens_inside [OF calculation(2), of us "[]" "[]"] by simp
  ultimately show ?thesis using assms(3,4) by (simp add: piece_nodes_def pieces_tokens_append)
qed

lemma Execute_append: "Execute d (a @ b) = Execute d a @ Execute d b"
  by (induction d a rule: Execute.induct) auto

text \<open>What a template made of pieces prints.\<close>

definition output_of :: "template_data \<Rightarrow> piece list \<Rightarrow> string option" where
  "output_of d ps = map_option (Execute d) (piece_nodes ps)"

lemma output_of_append:
  assumes "output_of d ps = Some a" and "output_of d qs = Some b" and "ps \<noteq> []" and "\<not> is_Txt (last ps)"
  shows "output_of d (ps @ qs) = Some (a @ b)"
  using assms piece_nodes_append [of ps _ qs] by (auto simp: output_of_def Execute_append)

subsection \<open>Lines\<close>

definition unlines :: "string list \<Rightarrow> string" where
  "unlines ls = concat (map (\<lambda>l. l @ [CHR 0x0A]) ls)"

lemma in_unlines: "c \<in> set (unlines ls) \<longleftrightarrow> list_ex (\<lambda>l. c \<in> set l) ls \<or> ls \<noteq> [] \<and> c = CHR 0x0A"
  by (induction ls) (auto simp: unlines_def)

lemma unlines_Nil: "unlines ls = [] \<longleftrightarrow> ls = []"
  by (cases ls) (simp_all add: unlines_def)

lemmas template_eval = output_of_def piece_nodes_def in_unlines unlines_Nil action_words_def action_def
  field_name_def name_start_def name_char_def digit_val_def

end
