(* ===== verification/Go_Base64.thy ===== *)
theory Go_Base64
  imports Session_Store
begin

section \<open>Go's standard base64, decoded with its errors ignored\<close>

text \<open>
  \<^verbatim>\<open>base64.StdEncoding\<close>. The program decodes a stored kickstart and drops the error, so what
  counts is what \<^verbatim>\<open>DecodeString\<close> returns beside it: the bytes of the quanta before the first
  corrupt one. Line ends are skipped, and nothing after the padding is read.
\<close>

definition std_index :: "char \<Rightarrow> nat option" where
  "std_index c =
     (if c = CHR ''+'' then Some 62 else if c = CHR ''/'' then Some 63
      else if c = CHR ''-'' \<or> c = CHR ''_'' then None else b64_index c)"

definition std_char :: "nat \<Rightarrow> char" where
  "std_char n = (if n mod 64 = 62 then CHR ''+'' else if n mod 64 = 63 then CHR ''/'' else b64_char n)"

fun std_quanta :: "string \<Rightarrow> bytes" where
  "std_quanta (p # q # r # s # cs) =
     (case (std_index p, std_index q) of
        (Some i, Some j) \<Rightarrow>
          (case (std_index r, std_index s) of
             (Some k, Some l) \<Rightarrow>
               (let v = ((i * 64 + j) * 64 + k) * 64 + l
                in of_nat (v div 65536) # of_nat (v div 256) # of_nat v # std_quanta cs)
           | (Some k, None) \<Rightarrow>
               if s = CHR ''='' then
                 (let v = ((i * 64 + j) * 64 + k) div 4 in [of_nat (v div 256), of_nat v])
               else []
           | (None, _) \<Rightarrow>
               if r = CHR ''='' \<and> s = CHR ''='' then [of_nat ((i * 64 + j) div 16)] else [])
      | _ \<Rightarrow> [])"
| "std_quanta _ = []"

definition Std_Decode :: "string \<Rightarrow> bytes" where
  "Std_Decode s = std_quanta (filter (\<lambda>c. c \<noteq> CHR 0x0A \<and> c \<noteq> CHR 0x0D) s)"

text \<open>The encoding, for clients that store a kickstart.\<close>

fun Std_Encode :: "bytes \<Rightarrow> string" where
  "Std_Encode [] = []"
| "Std_Encode [a] =
     (let v = unat a * 16 in [std_char (v div 64), std_char v, CHR ''='', CHR ''=''])"
| "Std_Encode [a, b] =
     (let v = (unat a * 256 + unat b) * 4
      in [std_char (v div 4096), std_char (v div 64), std_char v, CHR ''=''])"
| "Std_Encode (a # b # c # bs) =
     (let v = (unat a * 256 + unat b) * 256 + unat c
      in std_char (v div 262144) # std_char (v div 4096) # std_char (v div 64) # std_char v
         # Std_Encode bs)"

lemma std_chars: "list_all (\<lambda>n. std_index (std_char n) = Some n
    \<and> std_char n \<noteq> CHR 0x0A \<and> std_char n \<noteq> CHR 0x0D) [0..<64]"
  by code_simp

lemma std_char_facts [simp]:
  "std_index (std_char n) = Some (n mod 64)" "std_char n \<noteq> CHR 0x0A" "std_char n \<noteq> CHR 0x0D"
proof -
  have "std_char n = std_char (n mod 64)" by (simp add: std_char_def b64_char_def)
  then show "std_index (std_char n) = Some (n mod 64)" "std_char n \<noteq> CHR 0x0A" "std_char n \<noteq> CHR 0x0D"
    using std_chars by (simp_all add: list_all_iff)
qed

lemma std_index_pad [simp]: "std_index (CHR ''='') = None"
  by code_simp

lemma Std_Encode_no_line_end: "filter (\<lambda>c. c \<noteq> CHR 0x0A \<and> c \<noteq> CHR 0x0D) (Std_Encode bs) = Std_Encode bs"
  by (induction bs rule: Std_Encode.induct) (simp_all add: Let_def)

lemma std_quanta_four:
  "std_quanta (std_char i # std_char j # std_char k # std_char l # cs) =
     of_nat ((((i mod 64 * 64 + j mod 64) * 64 + k mod 64) * 64 + l mod 64) div 65536)
     # of_nat ((((i mod 64 * 64 + j mod 64) * 64 + k mod 64) * 64 + l mod 64) div 256)
     # of_nat (((i mod 64 * 64 + j mod 64) * 64 + k mod 64) * 64 + l mod 64) # std_quanta cs"
  by (simp only: std_quanta.simps std_char_facts option.case prod.case Let_def)

lemma std_quanta_Encode: "std_quanta (Std_Encode bs) = bs"
proof (induction bs rule: Std_Encode.induct)
  case (2 a)
  define v where "v = unat a * 16"
  have "v < 4096" using unat_byte [of a] by (simp add: v_def)
  moreover have "v div 16 = unat a" by (simp add: v_def)
  ultimately have "(v div 64 mod 64 * 64 + v mod 64) div 16 = unat a" by (simp only: digits_64)
  then show ?case by (simp add: Let_def v_def [symmetric])
next
  case (3 a b)
  define v where "v = (unat a * 256 + unat b) * 4"
  have lt: "unat a < 256" "unat b < 256" using unat_byte by simp_all
  then have "v < 262144" by (simp add: v_def)
  then have "((v div 4096 mod 64 * 64 + v div 64 mod 64) * 64 + v mod 64) div 4 = 256 * unat a + unat b"
    by (simp only: digits_64) (simp add: v_def)
  moreover have "(256 * unat a + unat b) div 256 = unat a" using lt by simp
  moreover have "Std_Encode [a, b] = [std_char (v div 4096), std_char (v div 64), std_char v, CHR ''='']"
    by (simp only: Std_Encode.simps Let_def v_def)
  ultimately show ?case
    using of_nat_byte [of "unat a" b] by (simp add: Let_def del: of_nat_add)
next
  case (4 a b c bs)
  define v where "v = (unat a * 256 + unat b) * 256 + unat c"
  have lt: "unat a < 256" "unat b < 256" "unat c < 256" using unat_byte by simp_all
  then have "v < 16777216" by (simp add: v_def)
  moreover have "v div 65536 = unat a" "v div 256 = 256 * unat a + unat b" "v = 256 * (256 * unat a + unat b) + unat c"
    using lt by (simp_all add: v_def)
  moreover have "Std_Encode (a # b # c # bs)
      = std_char (v div 262144) # std_char (v div 4096) # std_char (v div 64) # std_char v # Std_Encode bs"
    by (simp only: Std_Encode.simps Let_def v_def)
  ultimately show ?case
    using of_nat_byte [of "unat a" b] of_nat_byte [of "256 * unat a + unat b" c] 4
    by (simp only: std_quanta_four digits_64) (simp add: word_unat_eq_iff del: of_nat_add of_nat_mult)
qed simp

interpretation std_base64: codec Std_Encode "\<lambda>s. Some (Std_Decode s)" "\<lambda>_. True"
  by unfold_locales (simp add: Std_Decode_def Std_Encode_no_line_end std_quanta_Encode)

end
