(* ===== verification/Go_Json.thy ===== *)
theory Go_Json
  imports Go_Strings
begin

section \<open>Go's encoding/json\<close>

text \<open>
  The text of a JSON value is read in two passes over its characters: the lexer of the grammar's
  tokens, and a parser that keeps the open arrays and objects on a stack, at most ten thousand
  deep. Strings are byte strings: outside ASCII nothing is changed, where Go would replace bytes
  that are not UTF-8 by the replacement character and write two line separators as escapes.
\<close>

datatype json = JNull | JBool bool | JNum string | JStr string | JArr "json list" | JObj "(string \<times> json) list"

subsection \<open>Strings\<close>

text \<open>The UTF-8 encoding of a code point.\<close>

definition utf8_encode :: "nat \<Rightarrow> string" where
  "utf8_encode r =
     (if r < 0x80 then [char_of r]
      else if r < 0x800 then [char_of (0xC0 + r div 64), char_of (0x80 + r mod 64)]
      else if r < 0x10000
      then [char_of (0xE0 + r div 4096), char_of (0x80 + r div 64 mod 64), char_of (0x80 + r mod 64)]
      else [char_of (0xF0 + r div 262144), char_of (0x80 + r div 4096 mod 64),
            char_of (0x80 + r div 64 mod 64), char_of (0x80 + r mod 64)])"

fun hex4 :: "string \<Rightarrow> nat option" where
  "hex4 (a # b # c # d # cs) =
     (case (hex_val a, hex_val b, hex_val c, hex_val d) of
        (Some i, Some j, Some k, Some l) \<Rightarrow> Some (((i * 16 + j) * 16 + k) * 16 + l)
      | _ \<Rightarrow> None)"
| "hex4 cs = None"

definition simple_escape :: "char \<Rightarrow> char option" where
  "simple_escape c =
     (if c = CHR ''b'' then Some (CHR 0x08) else if c = CHR ''f'' then Some (CHR 0x0C)
      else if c = CHR ''n'' then Some (CHR 0x0A) else if c = CHR ''r'' then Some (CHR 0x0D)
      else if c = CHR ''t'' then Some (CHR 0x09)
      else if c = CHR 0x5C \<or> c = CHR ''/'' \<or> c = CHR 0x22 then Some c else None)"

text \<open>An escape of four digits at the front, and the rune it and, for a surrogate, the next one make:
  the rune and how many characters after the first six are used up with it.\<close>

definition escaped_rune :: "nat \<Rightarrow> string \<Rightarrow> nat \<times> nat" where
  "escaped_rune r cs =
     (if 0xD800 \<le> r \<and> r < 0xE000 then
        (case cs of
           c # d # ds \<Rightarrow>
             (case (if c = CHR 0x5C \<and> d = CHR ''u'' then hex4 ds else None) of
                Some r' \<Rightarrow>
                  if r < 0xDC00 \<and> 0xDC00 \<le> r' \<and> r' < 0xE000
                  then ((r - 0xD800) * 1024 + (r' - 0xDC00) + 0x10000, 6) else (0xFFFD, 0)
              | None \<Rightarrow> (0xFFFD, 0))
         | _ \<Rightarrow> (0xFFFD, 0))
      else (r, 0))"

function unquote :: "string \<Rightarrow> string" where
  "unquote [] = []"
| "unquote (c # cs) =
     (if c \<noteq> CHR 0x5C then c # unquote cs
      else
        (case cs of
           [] \<Rightarrow> []
         | d # ds \<Rightarrow>
             (case simple_escape d of
                Some e \<Rightarrow> e # unquote ds
              | None \<Rightarrow>
                  (case hex4 ds of
                     None \<Rightarrow> []
                   | Some r \<Rightarrow>
                       (case escaped_rune r (drop 4 ds) of
                          (rune, n) \<Rightarrow> utf8_encode rune @ unquote (drop n (drop 4 ds)))))))"
  by pat_completeness auto
termination
  by (relation "measure length") auto

subsection \<open>Lexer\<close>

datatype jtoken = Punct char | Scalar json

datatype num_state = N_Minus | N_Zero | N_Int | N_Dot | N_Frac | N_E | N_Sign | N_Exp

definition digit19 :: "char \<Rightarrow> bool" where
  "digit19 c \<longleftrightarrow> digit_val c \<noteq> None \<and> c \<noteq> CHR ''0''"

definition num_start :: "char \<Rightarrow> num_state option" where
  "num_start c =
     (if c = CHR ''-'' then Some N_Minus else if c = CHR ''0'' then Some N_Zero
      else if digit19 c then Some N_Int else None)"

fun num_step :: "num_state \<Rightarrow> char \<Rightarrow> num_state option" where
  "num_step N_Minus c = (if c = CHR ''0'' then Some N_Zero else if digit19 c then Some N_Int else None)"
| "num_step N_Int c =
     (if digit_val c \<noteq> None then Some N_Int else if c = CHR ''.'' then Some N_Dot
      else if c = CHR ''e'' \<or> c = CHR ''E'' then Some N_E else None)"
| "num_step N_Zero c =
     (if c = CHR ''.'' then Some N_Dot else if c = CHR ''e'' \<or> c = CHR ''E'' then Some N_E else None)"
| "num_step N_Dot c = (if digit_val c \<noteq> None then Some N_Frac else None)"
| "num_step N_Frac c =
     (if digit_val c \<noteq> None then Some N_Frac else if c = CHR ''e'' \<or> c = CHR ''E'' then Some N_E else None)"
| "num_step N_E c =
     (if c = CHR ''+'' \<or> c = CHR ''-'' then Some N_Sign else if digit_val c \<noteq> None then Some N_Exp else None)"
| "num_step N_Sign c = (if digit_val c \<noteq> None then Some N_Exp else None)"
| "num_step N_Exp c = (if digit_val c \<noteq> None then Some N_Exp else None)"

definition num_end :: "num_state \<Rightarrow> bool" where
  "num_end st \<longleftrightarrow> st \<in> {N_Zero, N_Int, N_Frac, N_Exp}"

datatype lex_state =
    L_Start | L_Num num_state string | L_Word string json | L_Str string | L_Esc string | L_Hex nat string

definition json_space :: "char \<Rightarrow> bool" where
  "json_space c \<longleftrightarrow> c = CHR '' '' \<or> c = CHR 0x09 \<or> c = CHR 0x0A \<or> c = CHR 0x0D"

definition json_punct :: "char \<Rightarrow> bool" where
  "json_punct c \<longleftrightarrow> c \<in> set ''{}[]:,''"

definition lex_start :: "char \<Rightarrow> (lex_state \<times> jtoken list) option" where
  "lex_start c =
     (if json_space c then Some (L_Start, [])
      else if json_punct c then Some (L_Start, [Punct c])
      else if c = CHR 0x22 then Some (L_Str [], [])
      else if c = CHR ''t'' then Some (L_Word ''rue'' (JBool True), [])
      else if c = CHR ''f'' then Some (L_Word ''alse'' (JBool False), [])
      else if c = CHR ''n'' then Some (L_Word ''ull'' JNull, [])
      else map_option (\<lambda>st. (L_Num st [c], [])) (num_start c))"

text \<open>One character; the text of a token so far is kept last character first.\<close>

fun lex_step :: "lex_state \<Rightarrow> char \<Rightarrow> (lex_state \<times> jtoken list) option" where
  "lex_step L_Start c = lex_start c"
| "lex_step (L_Num st acc) c =
     (case num_step st c of
        Some st' \<Rightarrow> Some (L_Num st' (c # acc), [])
      | None \<Rightarrow>
          if num_end st then map_option (\<lambda>(s, ts). (s, Scalar (JNum (rev acc)) # ts)) (lex_start c)
          else None)"
| "lex_step (L_Word ds j) c =
     (case ds of
        [] \<Rightarrow> None
      | d # ds' \<Rightarrow>
          if c \<noteq> d then None else if ds' = [] then Some (L_Start, [Scalar j]) else Some (L_Word ds' j, []))"
| "lex_step (L_Str acc) c =
     (if c = CHR 0x22 then Some (L_Start, [Scalar (JStr (unquote (rev acc)))])
      else if c = CHR 0x5C then Some (L_Esc (c # acc), [])
      else if (of_char c :: nat) < 0x20 then None
      else Some (L_Str (c # acc), []))"
| "lex_step (L_Esc acc) c =
     (if simple_escape c \<noteq> None then Some (L_Str (c # acc), [])
      else if c = CHR ''u'' then Some (L_Hex 4 (c # acc), [])
      else None)"
| "lex_step (L_Hex n acc) c =
     (if hex_val c = None then None
      else if n \<le> 1 then Some (L_Str (c # acc), []) else Some (L_Hex (n - 1) (c # acc), []))"

fun json_lex :: "lex_state \<Rightarrow> string \<Rightarrow> jtoken list option" where
  "json_lex L_Start [] = Some []"
| "json_lex (L_Num st acc) [] = (if num_end st then Some [Scalar (JNum (rev acc))] else None)"
| "json_lex st [] = None"
| "json_lex st (c # cs) =
     (case lex_step st c of
        None \<Rightarrow> None
      | Some (st', ts) \<Rightarrow> map_option ((@) ts) (json_lex st' cs))"

subsection \<open>Parser\<close>

datatype frame = F_Arr "json list" | F_Obj "(string \<times> json) list" string

datatype expect = X_Value | X_First_Value | X_Key | X_First_Key | X_Colon | X_After | X_Done json

definition maxNestingDepth :: nat where
  "maxNestingDepth = 10000"

fun json_complete :: "frame list \<Rightarrow> json \<Rightarrow> frame list \<times> expect" where
  "json_complete [] v = ([], X_Done v)"
| "json_complete (F_Arr vs # fs) v = (F_Arr (v # vs) # fs, X_After)"
| "json_complete (F_Obj kvs k # fs) v = (F_Obj ((k, v) # kvs) k # fs, X_After)"

fun value_token :: "frame list \<Rightarrow> jtoken \<Rightarrow> (frame list \<times> expect) option" where
  "value_token fs (Scalar v) = Some (json_complete fs v)"
| "value_token fs (Punct c) =
     (if maxNestingDepth \<le> length fs then None
      else if c = CHR ''['' then Some (F_Arr [] # fs, X_First_Value)
      else if c = CHR ''{'' then Some (F_Obj [] [] # fs, X_First_Key) else None)"

fun key_token :: "frame list \<Rightarrow> jtoken \<Rightarrow> (frame list \<times> expect) option" where
  "key_token (F_Obj kvs k # fs) (Scalar (JStr k')) = Some (F_Obj kvs k' # fs, X_Colon)"
| "key_token fs t = None"

fun after_token :: "frame list \<Rightarrow> jtoken \<Rightarrow> (frame list \<times> expect) option" where
  "after_token (F_Arr vs # fs) (Punct c) =
     (if c = CHR '','' then Some (F_Arr vs # fs, X_Value)
      else if c = CHR '']'' then Some (json_complete fs (JArr (rev vs))) else None)"
| "after_token (F_Obj kvs k # fs) (Punct c) =
     (if c = CHR '','' then Some (F_Obj kvs k # fs, X_Key)
      else if c = CHR ''}'' then Some (json_complete fs (JObj (rev kvs))) else None)"
| "after_token fs t = None"

fun parse_step :: "frame list \<times> expect \<Rightarrow> jtoken \<Rightarrow> (frame list \<times> expect) option" where
  "parse_step (fs, X_Value) t = value_token fs t"
| "parse_step (fs, X_First_Value) t =
     (if t = Punct (CHR '']'') then after_token fs t else value_token fs t)"
| "parse_step (fs, X_Key) t = key_token fs t"
| "parse_step (fs, X_First_Key) t =
     (if t = Punct (CHR ''}'') then after_token fs t else key_token fs t)"
| "parse_step (fs, X_Colon) t = (if t = Punct (CHR '':'') then Some (fs, X_Value) else None)"
| "parse_step (fs, X_After) t = after_token fs t"
| "parse_step (fs, X_Done v) t = None"

fun parse_run :: "frame list \<times> expect \<Rightarrow> jtoken list \<Rightarrow> (frame list \<times> expect) option" where
  "parse_run s [] = Some s"
| "parse_run s (t # ts) = (case parse_step s t of None \<Rightarrow> None | Some s' \<Rightarrow> parse_run s' ts)"

definition json_Parse :: "string \<Rightarrow> json option" where
  "json_Parse s =
     (case Option.bind (json_lex L_Start s) (parse_run ([], X_Value)) of
        Some (fs, X_Done v) \<Rightarrow> Some v
      | _ \<Rightarrow> None)"

subsection \<open>Printer\<close>

text \<open>A character of a string as \<^verbatim>\<open>Marshal\<close> writes it, HTML characters as escapes.\<close>

definition esc_char :: "char \<Rightarrow> string" where
  "esc_char c =
     (let n = of_char c :: nat in
      if c = CHR 0x22 \<or> c = CHR 0x5C then [CHR 0x5C, c]
      else if c = CHR 0x08 then [CHR 0x5C, CHR ''b''] else if c = CHR 0x0C then [CHR 0x5C, CHR ''f'']
      else if c = CHR 0x0A then [CHR 0x5C, CHR ''n''] else if c = CHR 0x0D then [CHR 0x5C, CHR ''r'']
      else if c = CHR 0x09 then [CHR 0x5C, CHR ''t'']
      else if n < 0x20 \<or> c = CHR ''<'' \<or> c = CHR ''>'' \<or> c = CHR ''&''
      then [CHR 0x5C, CHR ''u'', CHR ''0'', CHR ''0'', hex_char (n div 16), hex_char (n mod 16)]
      else [c])"

definition print_str :: "string \<Rightarrow> string" where
  "print_str s = CHR 0x22 # concat (map esc_char s) @ [CHR 0x22]"

fun json_print :: "json \<Rightarrow> string" where
  "json_print JNull = ''null''"
| "json_print (JBool b) = (if b then ''true'' else ''false'')"
| "json_print (JNum n) = n"
| "json_print (JStr s) = print_str s"
| "json_print (JArr vs) = ''['' @ Join (map json_print vs) '','' @ '']''"
| "json_print (JObj kvs) = ''{'' @ Join (map (\<lambda>(k, v). print_str k @ '':'' @ json_print v) kvs) '','' @ ''}''"

subsection \<open>What is printed is read back\<close>

text \<open>The texts of numbers, the values made of them, and how deep a value is.\<close>

fun num_run :: "num_state \<Rightarrow> string \<Rightarrow> num_state option" where
  "num_run st [] = Some st"
| "num_run st (c # cs) = (case num_step st c of None \<Rightarrow> None | Some st' \<Rightarrow> num_run st' cs)"

definition num_text :: "string \<Rightarrow> bool" where
  "num_text n =
     (case n of
        [] \<Rightarrow> False
      | c # cs \<Rightarrow>
          (case Option.bind (num_start c) (\<lambda>st. num_run st cs) of None \<Rightarrow> False | Some st \<Rightarrow> num_end st))"

fun json_ok :: "json \<Rightarrow> bool" where
  "json_ok (JNum n) = num_text n"
| "json_ok (JArr vs) = list_all json_ok vs"
| "json_ok (JObj kvs) = list_all (\<lambda>(k, v). json_ok v) kvs"
| "json_ok j = True"

fun json_depth :: "json \<Rightarrow> nat" where
  "json_depth (JArr vs) = Suc (foldr (\<lambda>v. max (json_depth v)) vs 0)"
| "json_depth (JObj kvs) = Suc (foldr (\<lambda>(k, v). max (json_depth v)) kvs 0)"
| "json_depth j = 0"

fun join_tokens :: "jtoken list list \<Rightarrow> jtoken list" where
  "join_tokens [] = []"
| "join_tokens [ts] = ts"
| "join_tokens (ts # us # tss) = ts @ Punct (CHR '','') # join_tokens (us # tss)"

fun json_tokens :: "json \<Rightarrow> jtoken list" where
  "json_tokens (JArr vs) = Punct (CHR ''['') # join_tokens (map json_tokens vs) @ [Punct (CHR '']'')]"
| "json_tokens (JObj kvs) =
     Punct (CHR ''{'')
     # join_tokens (map (\<lambda>(k, v). Scalar (JStr k) # Punct (CHR '':'') # json_tokens v) kvs)
     @ [Punct (CHR ''}'')]"
| "json_tokens j = [Scalar j]"

text \<open>A text is read as some tokens, whatever follows it in a value.\<close>

definition delimited :: "string \<Rightarrow> bool" where
  "delimited cs \<longleftrightarrow> (case cs of [] \<Rightarrow> True | c # _ \<Rightarrow> json_punct c)"

definition lexes :: "string \<Rightarrow> jtoken list \<Rightarrow> bool" where
  "lexes s ts \<longleftrightarrow>
     (\<forall>cs. delimited cs \<longrightarrow> json_lex L_Start (s @ cs) = map_option ((@) ts) (json_lex L_Start cs))"

lemma map_append_tokens [simp]:
  "map_option ((@) []) x = x" "map_option ((@) ts) (map_option ((@) us) x) = map_option ((@) (ts @ us)) x"
  "map_option ((@) ts) (map_option ((#) t) x) = map_option ((@) (ts @ [t])) x"
  "map_option ((#) t) (map_option ((@) ts) x) = map_option ((@) (t # ts)) x"
  "map_option ((@) [t]) x = map_option ((#) t) x"
  by (cases x; simp)+

lemmas json_lex_Cons = json_lex.simps(7)

declare json_lex_Cons [simp del]

lemma lex_punct: "json_punct c \<Longrightarrow> json_lex L_Start (c # cs) = map_option ((#) (Punct c)) (json_lex L_Start cs)"
  by (auto simp: json_lex_Cons lex_start_def json_punct_def json_space_def)

lemma lexes_punct: "json_punct c \<Longrightarrow> lexes s ts \<Longrightarrow> lexes (c # s) (Punct c # ts)"
  by (simp add: lexes_def lex_punct)

lemma lexes_append: "lexes s ts \<Longrightarrow> lexes s' us \<Longrightarrow> (\<And>cs. delimited cs \<Longrightarrow> delimited (s' @ cs)) \<Longrightarrow>
    lexes (s @ s') (ts @ us)"
  by (simp add: lexes_def)

lemma lexes_Nil: "lexes [] []"
  by (simp add: lexes_def)

lemma lex_word:
  assumes "lex_start c = Some (L_Word ds j, [])" and "ds \<noteq> []"
  shows "json_lex L_Start (c # ds @ cs) = map_option ((#) (Scalar j)) (json_lex L_Start cs)"
proof -
  have "ds \<noteq> [] \<Longrightarrow> json_lex (L_Word ds j) (ds @ cs) = map_option ((#) (Scalar j)) (json_lex L_Start cs)" for ds
    by (induction ds) (auto simp: json_lex_Cons)
  then show ?thesis using assms by (simp add: json_lex_Cons)
qed

text \<open>Strings.\<close>

lemma hex_digits:
  fixes c :: char
  shows "hex_val (hex_char (of_char c div 16)) = Some (of_char c div 16)"
    and "hex_val (hex_char (of_char c mod 16)) = Some (of_char c mod 16)"
    and "hex_val (CHR ''0'') = Some 0"
proof -
  have "(of_char c :: nat) < 256" by (cases c) simp
  then show "hex_val (hex_char (of_char c div 16)) = Some (of_char c div 16)"
    by (intro hex_val_hex_char) linarith
  show "hex_val (hex_char (of_char c mod 16)) = Some (of_char c mod 16)"
    by (intro hex_val_hex_char) simp
qed (simp add: hex_val_def)

lemma unquote_esc: "unquote (esc_char c @ cs) = c # unquote cs"
proof -
  have "unquote (CHR 0x5C # CHR ''u'' # CHR ''0'' # CHR ''0'' # hex_char (of_char c div 16) # hex_char (of_char c mod 16) # cs)
      = c # unquote cs" if "(of_char c :: nat) < 0x80"
    using that by (simp add: simple_escape_def escaped_rune_def utf8_encode_def hex_digits)
  then show ?thesis
    by (auto simp: esc_char_def Let_def simple_escape_def)
qed

lemma unquote_print: "unquote (concat (map esc_char s)) = s"
  by (induction s) (simp_all add: unquote_esc)

lemma lex_esc: "json_lex (L_Str acc) (esc_char c @ cs) = json_lex (L_Str (rev (esc_char c) @ acc)) cs"
  by (auto simp: esc_char_def Let_def simple_escape_def hex_digits json_lex_Cons)

lemma lex_string: "json_lex (L_Str acc) (concat (map esc_char s) @ CHR 0x22 # cs)
    = map_option ((#) (Scalar (JStr (unquote (rev acc @ concat (map esc_char s)))))) (json_lex L_Start cs)"
proof (induction s arbitrary: acc)
  case Nil
  then show ?case by (simp add: json_lex_Cons)
next
  case (Cons c s)
  then show ?case by (simp add: lex_esc)
qed

lemma lexes_string: "lexes (print_str s) [Scalar (JStr s)]"
  using lex_string [of "[]" s]
  by (simp add: lexes_def print_str_def lex_start_def json_space_def json_punct_def unquote_print json_lex_Cons)

text \<open>Numbers end at a delimiter.\<close>

lemma num_step_punct: "json_punct c \<Longrightarrow> num_end st \<Longrightarrow> num_step st c = None"
proof -
  have "list_all (\<lambda>c. list_all (\<lambda>st. num_step st c = None) [N_Zero, N_Int, N_Frac, N_Exp]) ''{}[]:,''"
    by (simp add: digit_val_def)
  then show "json_punct c \<Longrightarrow> num_end st \<Longrightarrow> num_step st c = None"
    unfolding json_punct_def num_end_def list_all_iff by force
qed

lemma lex_num_end: "delimited cs \<Longrightarrow> num_end st \<Longrightarrow>
    json_lex (L_Num st acc) cs = map_option ((#) (Scalar (JNum (rev acc)))) (json_lex L_Start cs)"
  by (cases cs) (auto simp: delimited_def json_lex_Cons num_step_punct split: option.splits)

lemma lex_num: "num_run st n = Some st' \<Longrightarrow> num_end st' \<Longrightarrow> delimited cs \<Longrightarrow>
    json_lex (L_Num st acc) (n @ cs) = map_option ((#) (Scalar (JNum (rev acc @ n)))) (json_lex L_Start cs)"
proof (induction n arbitrary: st acc)
  case Nil
  then show ?case by (simp add: lex_num_end)
next
  case (Cons c n)
  then obtain st1 where "num_step st c = Some st1" "num_run st1 n = Some st'" by (auto split: option.splits)
  with Cons show ?case by (simp add: json_lex_Cons)
qed

lemma num_start_other: "list_all (\<lambda>c. num_start c = None)
    (''{}[]:,tfn '' @ [CHR 0x22, CHR 0x09, CHR 0x0A, CHR 0x0D])"
  by (simp add: num_start_def digit19_def digit_val_def)

lemma num_start_char:
  assumes "num_start c = Some st"
  shows "lex_start c = Some (L_Num st [c], [])"
proof -
  have "c \<notin> set (''{}[]:,tfn '' @ [CHR 0x22, CHR 0x09, CHR 0x0A, CHR 0x0D])"
    using num_start_other assms unfolding list_all_iff by force
  then show ?thesis using assms by (simp add: lex_start_def json_space_def json_punct_def)
qed

lemma lexes_num: "num_text n \<Longrightarrow> lexes n [Scalar (JNum n)]"
  by (cases n) (auto simp: num_text_def lexes_def json_lex_Cons num_start_char lex_num
      split: option.splits Option.bind_splits)

text \<open>Lists of texts with commas between them.\<close>

lemma lexes_join: "list_all2 lexes ss tss \<Longrightarrow> lexes (Join ss '','') (join_tokens tss)"
proof (induction ss "'',''" arbitrary: tss rule: Join.induct)
  case 1
  then show ?case by (simp add: lexes_Nil)
next
  case (2 s)
  then show ?case by (auto simp: list_all2_Cons1)
next
  case (3 s s' ss)
  then obtain t t' ts where tss: "tss = t # t' # ts" "lexes s t" "list_all2 lexes (s' # ss) (t' # ts)"
    by (auto simp: list_all2_Cons1)
  have "lexes ('','' @ Join (s' # ss) '','') (Punct (CHR '','') # join_tokens (t' # ts))"
    using lexes_punct [of "CHR '',''"] 3(1) [OF tss(3)] by (simp add: json_punct_def)
  then show ?case
    using lexes_append [OF tss(2)] tss(1) by (simp add: delimited_def json_punct_def)
qed

lemma lexes_print: "json_ok j \<Longrightarrow> lexes (json_print j) (json_tokens j)"
proof (induction j rule: json_print.induct)
  case 1
  then show ?case using lex_word [of "CHR ''n''" "''ull''" JNull]
    by (simp add: lexes_def lex_start_def json_space_def json_punct_def num_start_def)
next
  case (2 b)
  then show ?case
    using lex_word [of "CHR ''t''" "''rue''" "JBool True"] lex_word [of "CHR ''f''" "''alse''" "JBool False"]
    by (simp add: lexes_def lex_start_def json_space_def json_punct_def num_start_def)
next
  case (3 n)
  then show ?case by (simp add: lexes_num)
next
  case (4 s)
  then show ?case by (simp add: lexes_string)
next
  case (5 vs)
  have "list_all2 lexes (map json_print vs) (map json_tokens vs)"
    using 5 by (auto simp: list_all2_conv_all_nth list_all_iff)
  from lexes_join [OF this] have "lexes (Join (map json_print vs) '','' @ '']'')
      (join_tokens (map json_tokens vs) @ [Punct (CHR '']'')])"
    using lexes_append [OF _ lexes_punct [OF _ lexes_Nil, of "CHR '']''"]]
    by (simp add: delimited_def json_punct_def)
  then show ?case using lexes_punct [of "CHR ''[''"] by (simp add: json_punct_def)
next
  case (6 kvs)
  have "lexes (print_str k @ '':'' @ json_print v) (Scalar (JStr k) # Punct (CHR '':'') # json_tokens v)"
    if "(k, v) \<in> set kvs" for k v
  proof -
    have "lexes (json_print v) (json_tokens v)" using 6 that by (auto simp: list_all_iff)
    then have "lexes ('':'' @ json_print v) (Punct (CHR '':'') # json_tokens v)"
      using lexes_punct [of "CHR '':''"] by (simp add: json_punct_def)
    from lexes_append [OF lexes_string this] show ?thesis by (simp add: delimited_def json_punct_def)
  qed
  then have "list_all2 lexes (map (\<lambda>(k, v). print_str k @ '':'' @ json_print v) kvs)
      (map (\<lambda>(k, v). Scalar (JStr k) # Punct (CHR '':'') # json_tokens v) kvs)"
    by (auto simp: list_all2_conv_all_nth split: prod.splits) (metis nth_mem)
  from lexes_join [OF this] have "lexes (Join (map (\<lambda>(k, v). print_str k @ '':'' @ json_print v) kvs) '','' @ ''}'')
      (join_tokens (map (\<lambda>(k, v). Scalar (JStr k) # Punct (CHR '':'') # json_tokens v) kvs) @ [Punct (CHR ''}'')])"
    using lexes_append [OF _ lexes_punct [OF _ lexes_Nil, of "CHR ''}''"]]
    by (simp add: delimited_def json_punct_def)
  then show ?case using lexes_punct [of "CHR ''{''"] by (simp add: json_punct_def)
qed

text \<open>The parser on the tokens of a value.\<close>

lemma parse_run_append: "parse_run s (ts @ us) = Option.bind (parse_run s ts) (\<lambda>s'. parse_run s' us)"
  by (induction ts arbitrary: s) (auto split: option.splits)

definition parses :: "nat \<Rightarrow> jtoken list \<Rightarrow> json \<Rightarrow> bool" where
  "parses d ts v \<longleftrightarrow>
     (\<forall>fs. length fs + d \<le> maxNestingDepth \<longrightarrow> parse_run (fs, X_Value) ts = Some (json_complete fs v))"

lemma parses_step: "parses d ts v \<Longrightarrow> length fs + d \<le> maxNestingDepth \<Longrightarrow>
    parse_run (fs, X_Value) (ts @ us) = parse_run (json_complete fs v) us"
  by (simp add: parses_def parse_run_append)

lemma parse_elements:
  assumes "\<And>w. w \<in> set (v # vs) \<Longrightarrow> parses d (f w) w" and "Suc (length fs) + d \<le> maxNestingDepth"
  shows "parse_run (F_Arr acc # fs, X_Value) (join_tokens (map f (v # vs)) @ [Punct (CHR '']'')])
    = Some (json_complete fs (JArr (rev acc @ v # vs)))"
  using assms(1)
proof (induction vs arbitrary: v acc)
  case Nil
  then show ?case using parses_step [of d "f v" v "F_Arr acc # fs"] assms(2) by simp
next
  case (Cons w vs)
  then show ?case
    using parses_step [of d "f v" v "F_Arr acc # fs"] assms(2) by (simp add: Cons.IH [of w "v # acc"])
qed

definition member_tokens :: "(json \<Rightarrow> jtoken list) \<Rightarrow> string \<times> json \<Rightarrow> jtoken list" where
  "member_tokens f = (\<lambda>(k, v). Scalar (JStr k) # Punct (CHR '':'') # f v)"

lemma parse_members:
  assumes "\<And>k w. (k, w) \<in> set (kv # kvs) \<Longrightarrow> parses d (f w) w" and "Suc (length fs) + d \<le> maxNestingDepth"
  shows "parse_run (F_Obj acc old # fs, X_Key) (join_tokens (map (member_tokens f) (kv # kvs)) @ [Punct (CHR ''}'')])
    = Some (json_complete fs (JObj (rev acc @ kv # kvs)))"
  using assms(1)
proof (induction kvs arbitrary: kv acc old)
  case Nil
  obtain k v where kv: "kv = (k, v)" by fastforce
  with Nil have "parses d (f v) v" by simp
  then show ?case
    using parses_step [of d "f v" v "F_Obj acc k # fs"] assms(2) kv by (simp add: member_tokens_def)
next
  case (Cons kw kvs)
  obtain k v where kv: "kv = (k, v)" by fastforce
  then have "parses d (f v) v" using Cons.prems [of k v] by simp
  then have "parse_run (F_Obj acc old # fs, X_Key) (member_tokens f kv @ us)
      = parse_run (F_Obj (kv # acc) k # fs, X_After) us" for us
    using parses_step [of d "f v" v "F_Obj acc k # fs"] assms(2) kv by (simp add: member_tokens_def)
  moreover have "parse_run (F_Obj (kv # acc) k # fs, X_Key)
        (join_tokens (map (member_tokens f) (kw # kvs)) @ [Punct (CHR ''}'')])
      = Some (json_complete fs (JObj (rev (kv # acc) @ kw # kvs)))"
    by (rule Cons.IH) (rule Cons.prems, auto)
  ultimately show ?case by simp
qed

lemma max_foldr_le: "x \<in> set xs \<Longrightarrow> f x \<le> foldr (\<lambda>x. max (f x)) xs (0::nat)"
  by (induction xs) auto

lemma json_tokens_first: "\<exists>t ts. json_tokens j = t # ts \<and> t \<noteq> Punct (CHR '']'')"
  by (cases j) auto

lemma parses_mono: "parses d ts v \<Longrightarrow> d \<le> e \<Longrightarrow> parses e ts v"
  by (auto simp: parses_def)

lemma parses_json: "parses (json_depth j) (json_tokens j) j"
proof (induction j rule: json_tokens.induct)
  case (1 vs)
  show ?case
  proof (cases vs)
    case Nil
    then show ?thesis by (auto simp: parses_def)
  next
    case (Cons v ws)
    let ?d = "foldr (\<lambda>v. max (json_depth v)) vs 0"
    have elems: "parses ?d (json_tokens w) w" if "w \<in> set (v # ws)" for w
    proof -
      have mem: "w \<in> set vs" using that Cons by simp
      show ?thesis using 1 [OF mem] max_foldr_le [OF mem, of json_depth] by (rule parses_mono)
    qed
    obtain us where us: "join_tokens (map json_tokens vs) = json_tokens v @ us"
      using Cons by (cases ws) auto
    show ?thesis
      unfolding parses_def
    proof (intro allI impI)
      fix fs :: "frame list"
      assume le: "length fs + json_depth (JArr vs) \<le> maxNestingDepth"
      have "parse_run (F_Arr [] # fs, X_First_Value) (join_tokens (map json_tokens vs) @ [Punct (CHR '']'')])
          = parse_run (F_Arr [] # fs, X_Value) (join_tokens (map json_tokens vs) @ [Punct (CHR '']'')])"
        using us json_tokens_first [of v] by auto
      moreover have "parse_run (F_Arr [] # fs, X_Value) (join_tokens (map json_tokens vs) @ [Punct (CHR '']'')])
          = Some (json_complete fs (JArr vs))"
        using parse_elements [where acc = "[]" and fs = fs, OF elems] le Cons by simp
      ultimately show "parse_run (fs, X_Value) (json_tokens (JArr vs)) = Some (json_complete fs (JArr vs))"
        using le by simp
    qed
  qed
next
  case (2 kvs)
  have map_eq: "(\<lambda>(k, v). Scalar (JStr k) # Punct (CHR '':'') # json_tokens v) = member_tokens json_tokens"
    by (simp add: member_tokens_def)
  show ?case
  proof (cases kvs)
    case Nil
    then show ?thesis by (auto simp: parses_def)
  next
    case (Cons kv kws)
    let ?d = "foldr (\<lambda>(k, v). max (json_depth v)) kvs 0"
    have d: "foldr (\<lambda>(k, v). max (json_depth v)) ms 0 = foldr (\<lambda>kv. max (json_depth (snd kv))) ms 0"
      for ms :: "(string \<times> json) list"
      by (induction ms) auto
    have elems: "parses ?d (json_tokens w) w" if "(k, w) \<in> set (kv # kws)" for k w
    proof -
      have mem: "(k, w) \<in> set kvs" using that Cons by simp
      have "json_depth w \<le> ?d" using max_foldr_le [OF mem, of "\<lambda>kv. json_depth (snd kv)"] by (simp add: d)
      then show ?thesis using 2 [OF mem] parses_mono by blast
    qed
    show ?thesis
      unfolding parses_def
    proof (intro allI impI)
      fix fs :: "frame list"
      assume le: "length fs + json_depth (JObj kvs) \<le> maxNestingDepth"
      obtain k v where kv: "kv = (k, v)" by fastforce
      have "parse_run (F_Obj [] [] # fs, X_First_Key) (join_tokens (map (member_tokens json_tokens) kvs) @ [Punct (CHR ''}'')])
          = parse_run (F_Obj [] [] # fs, X_Key) (join_tokens (map (member_tokens json_tokens) kvs) @ [Punct (CHR ''}'')])"
        using Cons kv by (cases kws) (simp_all add: member_tokens_def)
      moreover have "parse_run (F_Obj [] [] # fs, X_Key)
            (join_tokens (map (member_tokens json_tokens) kvs) @ [Punct (CHR ''}'')])
          = Some (json_complete fs (JObj kvs))"
        using parse_members [where acc = "[]" and old = "[]" and fs = fs, OF elems] le Cons by simp
      ultimately show "parse_run (fs, X_Value) (json_tokens (JObj kvs)) = Some (json_complete fs (JObj kvs))"
        using le by (simp add: map_eq)
    qed
  qed
qed (auto simp: parses_def)

lemma json_Parse_print: "json_ok j \<Longrightarrow> json_depth j \<le> maxNestingDepth \<Longrightarrow> json_Parse (json_print j) = Some j"
  using lexes_print [of j] parses_json [of j]
  by (auto simp: lexes_def parses_def json_Parse_def delimited_def dest!: spec [of _ "[]"])

interpretation json_text: codec json_print json_Parse "\<lambda>j. json_ok j \<and> json_depth j \<le> maxNestingDepth"
  by unfold_locales (simp add: json_Parse_print)

end
