(* ===== verification/Group_Options.thy ===== *)
theory Group_Options
  imports Go_Json
begin

section \<open>The options of a group: internal/model/group.go, decoded in api/ks.go\<close>

text \<open>
  The options are stored as the JSON text a client sent and decoded when a kickstart is made: each
  member that names a field, in any case, sets it; one of the wrong type is remembered as an error
  and skipped, and the rest is decoded all the same.
\<close>

record GroupOptions =
  SSH :: bool
  SuppressShellWarning :: bool
  EraseDisks :: bool
  Certificate :: bool
  CreateVMFS :: bool

definition zero_options :: GroupOptions where
  "zero_options = \<lparr>SSH = False, SuppressShellWarning = False, EraseDisks = False, Certificate = False,
     CreateVMFS = False\<rparr>"

text \<open>A name with its case folded as \<^verbatim>\<open>encoding/json\<close> does: beside ASCII letters, the long s and the
  Kelvin sign are the only characters that fold to one.\<close>

function fold_name :: "string \<Rightarrow> string" where
  "fold_name [] = []"
| "fold_name (c # cs) =
     (case strip_prefix [CHR 0xC5, CHR 0xBF] (c # cs) of
        Some r \<Rightarrow> CHR ''S'' # fold_name r
      | None \<Rightarrow>
          (case strip_prefix [CHR 0xE2, CHR 0x84, CHR 0xAA] (c # cs) of
             Some r \<Rightarrow> CHR ''K'' # fold_name r
           | None \<Rightarrow> upper_char c # fold_name cs))"
  by pat_completeness auto
termination
proof (relation "measure length")
  show "(r, c # cs) \<in> measure length" if "strip_prefix [CHR 0xC5, CHR 0xBF] (c # cs) = Some r" for r c cs
    using that [unfolded strip_prefix_Some] by simp
  show "(r, c # cs) \<in> measure length" if "strip_prefix [CHR 0xE2, CHR 0x84, CHR 0xAA] (c # cs) = Some r" for r c cs
    using that [unfolded strip_prefix_Some] by simp
qed auto

definition option_fields :: "(string \<times> (bool \<Rightarrow> GroupOptions \<Rightarrow> GroupOptions)) list" where
  "option_fields =
     [(''ssh'', \<lambda>b opts. opts\<lparr>SSH := b\<rparr>),
      (''suppressshellwarning'', \<lambda>b opts. opts\<lparr>SuppressShellWarning := b\<rparr>),
      (''erasedisks'', \<lambda>b opts. opts\<lparr>EraseDisks := b\<rparr>),
      (''certificate'', \<lambda>b opts. opts\<lparr>Certificate := b\<rparr>),
      (''createvmfs'', \<lambda>b opts. opts\<lparr>CreateVMFS := b\<rparr>)]"

definition find_field :: "string \<Rightarrow> (bool \<Rightarrow> GroupOptions \<Rightarrow> GroupOptions) option" where
  "find_field key =
     (case map_of option_fields key of
        Some f \<Rightarrow> Some f
      | None \<Rightarrow> map_of (map (\<lambda>(n, f). (fold_name n, f)) option_fields) (fold_name key))"

text \<open>A member of the object: the options, and whether there was an error.\<close>

definition decode_member :: "string \<times> json \<Rightarrow> GroupOptions \<times> bool \<Rightarrow> GroupOptions \<times> bool" where
  "decode_member kv r =
     (case find_field (fst kv) of
        None \<Rightarrow> r
      | Some f \<Rightarrow>
          (case snd kv of
             JBool b \<Rightarrow> (f b (fst r), snd r)
           | JNull \<Rightarrow> r
           | _ \<Rightarrow> (fst r, True)))"

text \<open>\<^verbatim>\<open>json.Unmarshal\<close> into zero options.\<close>

definition UnmarshalOptions :: "string \<Rightarrow> GroupOptions \<times> bool" where
  "UnmarshalOptions txt =
     (case json_Parse txt of
        None \<Rightarrow> (zero_options, True)
      | Some (JObj kvs) \<Rightarrow> fold decode_member kvs (zero_options, False)
      | Some JNull \<Rightarrow> (zero_options, False)
      | Some _ \<Rightarrow> (zero_options, True))"

subsection \<open>Facts\<close>

text \<open>The members that spell out some options.\<close>

definition option_members :: "GroupOptions \<Rightarrow> (string \<times> json) list" where
  "option_members opts =
     [(''ssh'', JBool (SSH opts)), (''suppressshellwarning'', JBool (SuppressShellWarning opts)),
      (''erasedisks'', JBool (EraseDisks opts)), (''certificate'', JBool (Certificate opts)),
      (''createvmfs'', JBool (CreateVMFS opts))]"

lemma find_field_exact [simp]:
  "find_field ''ssh'' = Some (\<lambda>b opts. opts\<lparr>SSH := b\<rparr>)"
  "find_field ''suppressshellwarning'' = Some (\<lambda>b opts. opts\<lparr>SuppressShellWarning := b\<rparr>)"
  "find_field ''erasedisks'' = Some (\<lambda>b opts. opts\<lparr>EraseDisks := b\<rparr>)"
  "find_field ''certificate'' = Some (\<lambda>b opts. opts\<lparr>Certificate := b\<rparr>)"
  "find_field ''createvmfs'' = Some (\<lambda>b opts. opts\<lparr>CreateVMFS := b\<rparr>)"
  by (simp_all add: find_field_def option_fields_def)

lemma decode_member_JBool: "find_field k = Some f \<Longrightarrow> decode_member (k, JBool b) r = (f b (fst r), snd r)"
  by (simp add: decode_member_def)

text \<open>Whatever members of the options are decoded, and in which order, a field that was met has its
  value and the others are as before.\<close>

lemma decode_members:
  assumes "set kvs \<subseteq> set (option_members opts)"
  shows "fold decode_member kvs (p, e) =
    (\<lparr>SSH = (if (''ssh'', JBool (SSH opts)) \<in> set kvs then SSH opts else SSH p),
      SuppressShellWarning = (if (''suppressshellwarning'', JBool (SuppressShellWarning opts)) \<in> set kvs
        then SuppressShellWarning opts else SuppressShellWarning p),
      EraseDisks = (if (''erasedisks'', JBool (EraseDisks opts)) \<in> set kvs then EraseDisks opts else EraseDisks p),
      Certificate = (if (''certificate'', JBool (Certificate opts)) \<in> set kvs then Certificate opts else Certificate p),
      CreateVMFS = (if (''createvmfs'', JBool (CreateVMFS opts)) \<in> set kvs then CreateVMFS opts else CreateVMFS p)\<rparr>, e)"
  using assms
proof (induction kvs arbitrary: p)
  case (Cons kv kvs)
  then have sub: "set kvs \<subseteq> set (option_members opts)" by simp
  have "kv \<in> set (option_members opts)" using Cons.prems by simp
  then consider "kv = (''ssh'', JBool (SSH opts))"
    | "kv = (''suppressshellwarning'', JBool (SuppressShellWarning opts))"
    | "kv = (''erasedisks'', JBool (EraseDisks opts))" | "kv = (''certificate'', JBool (Certificate opts))"
    | "kv = (''createvmfs'', JBool (CreateVMFS opts))"
    unfolding option_members_def list.set insert_iff empty_iff by blast
  then show ?case
    by cases (simp_all add: Cons.IH [OF sub] decode_member_JBool split del: if_split cong: if_cong)
qed simp

subsection \<open>Properties\<close>

text \<open>C17: options that a client writes as a JSON object are decoded to themselves, in whatever order, and
  however often, the members are written.\<close>

theorem options_roundtrip:
  assumes "set kvs = set (option_members opts)"
  shows "UnmarshalOptions (json_print (JObj kvs)) = (opts, False)"
proof -
  have "list_all (\<lambda>(k, v). json_ok v) kvs \<and> foldr (\<lambda>(k, v). max (json_depth v)) kvs 0 = 0"
    if "set kvs \<subseteq> set (option_members opts)" for kvs
    using that by (induction kvs) (auto simp: option_members_def)
  then have "json_Parse (json_print (JObj kvs)) = Some (JObj kvs)"
    using assms by (intro json_text.dec_enc) (simp add: maxNestingDepth_def)
  then show ?thesis
    using decode_members [of kvs opts zero_options False] assms
    by (simp add: UnmarshalOptions_def) (simp add: option_members_def)
qed

text \<open>an option of the wrong type, such as the strings the API document asks for, is an error that
  leaves that option unset; the others keep what they say, although the handler reports that it
  treats all of them as unset: disks are erased all the same.\<close>

theorem options_error_keeps_rest:
  "UnmarshalOptions (json_print (JObj [(''erasedisks'', JBool True), (''ssh'', JStr s)]))
     = (zero_options\<lparr>EraseDisks := True\<rparr>, True)"
proof -
  have "json_Parse (json_print (JObj [(''erasedisks'', JBool True), (''ssh'', JStr s)]))
      = Some (JObj [(''erasedisks'', JBool True), (''ssh'', JStr s)])"
    by (rule json_text.dec_enc) (simp add: maxNestingDepth_def)
  then show ?thesis by (simp add: UnmarshalOptions_def decode_member_def)
qed

theorem options_roundtrip_witness:
  "UnmarshalOptions (json_print (JObj (rev (option_members (zero_options\<lparr>SSH := True\<rparr>)))))
     = (zero_options\<lparr>SSH := True\<rparr>, False)"
  by (rule options_roundtrip) simp

lemma empty_options: "UnmarshalOptions [] = (zero_options, True)"
  by (simp add: UnmarshalOptions_def json_Parse_def)

end
