(* ===== verification/Kickstart.thy ===== *)
theory Kickstart
  imports Group_Options Go_Template Go_Base64 Secrets Boot_Serve Api_Base Crud Dhcp
begin

section \<open>The kickstart of a host: internal/api/ks.go\<close>

text \<open>
  The installer of a host fetches its kickstart over HTTPS, unauthenticated: the host is the one
  on record at the address the request comes from. The kickstart is a template, the default one
  or one stored with the host or its group, filled in with the decrypted root password and the
  settings of host and group. Serving it ends the re-imaging of the host. The default template
  is written here in sections, each the stretches of text and the actions it consists of.
\<close>

subsection \<open>The default template\<close>

definition ks_root :: "piece list" where
  \<open>ks_root =
    [Txt (unlines ['''',
                     ''# Accept the VMware End User License Agreement'',
                     ''vmaccepteula'',
                     '''',
                     ''# Set the root password for the DCUI and Tech Support Mode''] @ ''rootpw ''),
     Act '' .password '',
     Txt (unlines ['''', '''']),
     Act '' if .erasedisks '',
     Txt (unlines ['''', ''# Remove ALL partitions''] @ ''clearpart --overwritevmfs --alldrives ''),
     Act '' end '']\<close>

definition ks_install :: "piece list" where
  \<open>ks_install =
    [Txt (unlines ['''', '''']),
     Act '' if .bootdisk '',
     Txt (unlines [''''] @ ''install --disk=/vmfs/devices/disks/''),
     Act ''.bootdisk'',
     Txt (unlines ['' --overwritevmfs --novmfsondisk --forceunsupportedinstall --ignoreprereqwarnings --ignoreprereqerrors'']),
     Act '' else '',
     Txt (unlines ['''', ''# Install on the first local disk available on machine''] @ ''install --overwritevmfs ''),
     Act '' if not .createvmfs '',
     Txt ('' --novmfsondisk ''),
     Act '' end '',
     Txt (unlines ['' --firstdisk="localesx,usb,ahci,vmw_ahci,VMware" --forceunsupportedinstall --ignoreprereqwarnings --ignoreprereqerrors'']),
     Act '' end '']\<close>

definition ks_network :: "piece list" where
  \<open>ks_network =
    [Txt (unlines ['''', '''', ''# Set the network to static on the first network adapter''] @ ''network --bootproto=static --ip=''),
     Act '' .ip '',
     Txt ('' --gateway=''),
     Act '' .gateway '',
     Txt ('' --netmask=''),
     Act '' .netmask '',
     Txt ('' ''),
     Act ''if .dns'',
     Txt (''--nameserver=''),
     Act '' .dns '',
     Txt ('' ''),
     Act ''end'',
     Txt ('' --hostname=''),
     Act '' .hostname '',
     Txt ('' --device=''),
     Act '' .mac '',
     Txt ('' ''),
     Act ''if .vlan'',
     Txt ('' --vlanid=''),
     Act ''.vlan'',
     Txt ('' ''),
     Act ''end'']\<close>

definition ks_ntp :: "piece list" where
  \<open>ks_ntp =
    [Txt (unlines ['''',
                     '''',
                     ''reboot'',
                     '''',
                     ''%firstboot --interpreter=busybox'',
                     '''',
                     ''# Configure NTP'']),
     Act '' if .ntp '',
     Txt (unlines ['''']),
     Act '' .ntp '',
     Txt (unlines ['''', ''esxcli system ntp set --enabled true'']),
     Act '' end '']\<close>

definition ks_domain :: "piece list" where
  \<open>ks_domain =
    [Txt (unlines ['''', '''', ''# Configure Domain Search'']),
     Act '' if .domain '',
     Txt (unlines [''''] @ ''esxcli network ip dns search add -d ''),
     Act '' .domain '',
     Txt (unlines ['''']),
     Act '' end '']\<close>

definition ks_fqdn :: "piece list" where
  \<open>ks_fqdn =
    [Txt (unlines ['''', '''', ''# Configure FQDN''] @ ''esxcli system hostname set --fqdn ''),
     Act '' .fqdn '',
     Txt (unlines ['''', '''', ''# Enable SSH'']),
     Act '' if .ssh '',
     Txt (unlines ['''',
                     ''vim-cmd hostsvc/enable_ssh'',
                     ''vim-cmd hostsvc/start_ssh'',
                     ''system settings advanced set -o /UserVars/SuppressShellWarning -i 1'']),
     Act '' end '']\<close>

definition ks_syslog :: "piece list" where
  \<open>ks_syslog =
    [Txt (unlines ['''', '''', ''# Syslog'']),
     Act '' if .syslog '',
     Txt (unlines [''''] @ ''esxcli system syslog config set --loghost=''),
     Act '' .syslog '',
     Txt (unlines ['''',
                     ''esxcli system syslog reload'',
                     ''esxcli network firewall ruleset set --ruleset-id=syslog --enabled=true'',
                     ''esxcli network firewall refresh'']),
     Act '' end '']\<close>

definition ks_vlan :: "piece list" where
  \<open>ks_vlan =
    [Txt (unlines ['''', '''', ''#vSwitch0'']),
     Act '' if .vlan '',
     Txt (unlines [''''] @ ''esxcli network vswitch standard portgroup set --vlan-id ''),
     Act ''.vlan'',
     Txt (unlines ['''']),
     Act '' end '']\<close>

definition ks_done :: "piece list" where
  \<open>ks_done =
    [Txt (unlines ['''',
                     '''',
                     ''# Ensure TLS certificate matches ESXi FQDN'',
                     ''/sbin/generate-certificates'',
                     ''/etc/init.d/hostd restart && /etc/init.d/vpxa restart && /etc/init.d/rhttpproxy restart'',
                     '''']),
     Act '' if .via_server '',
     Txt (unlines ['''',
                     ''# Tell go-via the host is up. This is what moves it to 100% in the console and'',
                     ''# fires the group's callback URL. It is the last thing to run and its failure'',
                     ''# is swallowed: a host that installed correctly must not be reported as broken'',
                     ''# because it could not reach the appliance afterwards.''] @ ''wget --no-check-certificate -O /dev/null https://''),
     Act '' .via_server '',
     Txt (unlines [''/v1/postconfig 2>/dev/null || true'']),
     Act '' end '']\<close>

definition ks_end :: "piece list" where
  \<open>ks_end =
    [Txt (unlines [''''])]\<close>

definition default_pieces :: "piece list" where
  "default_pieces = ks_root @ ks_install @ ks_network @ ks_ntp @ ks_domain @ ks_fqdn @ ks_syslog
     @ ks_vlan @ ks_done @ ks_end"

definition defaultks :: string where
  "defaultks = pieces_text default_pieces"

subsection \<open>The handler\<close>

definition ntp_command :: "string \<Rightarrow> string" where
  "ntp_command servers =
     Join ([''esxcli'', ''system'', ''ntp'', ''set'']
       @ concat (map (\<lambda>k. [''--server'', k]) (Split servers (CHR '','')))) '' ''"

definition ks_data :: "host \<Rightarrow> GroupOptions \<Rightarrow> string \<Rightarrow> string \<Rightarrow> template_data" where
  "ks_data item options password viaServer =
     map_of
       [(''password'', Str password),
        (''ip'', Str (h_IP item)),
        (''mac'', Str (h_Mac item)),
        (''gateway'', Str (g_Gateway (h_Group item))),
        (''dns'', Str (g_DNS (h_Group item))),
        (''ntp'', Str (ntp_command (g_NTP (h_Group item)))),
        (''hostname'', Str (h_Hostname item)),
        (''domain'', Str (h_Domain item)),
        (''fqdn'', Str (h_Hostname item @ ''.'' @ h_Domain item)),
        (''netmask'', Str (g_Netmask (h_Group item))),
        (''via_server'', Str viaServer),
        (''erasedisks'', Bool (EraseDisks options)),
        (''ssh'', Bool (SSH options)),
        (''syslog'', Str (g_Syslog (h_Group item))),
        (''bootdisk'', Str (g_BootDisk (h_Group item))),
        (''vlan'', Str (g_Vlan (h_Group item))),
        (''createvmfs'', Bool (CreateVMFS options))]"

text \<open>The queries of this handler beside the table of hosts: the host at an address with its group,
  and the update of one column. \<open>other\<close> is what the template library does with
  a template beyond those of \<open>Go_Template\<close>: \<open>None\<close> if it does not parse, else what it prints and
  whether it got to the end.\<close>

record 'st ks_env =
  ke_find :: "'st \<Rightarrow> string \<Rightarrow> db_error + host"
  ke_unflag :: "'st \<Rightarrow> host \<Rightarrow> string \<Rightarrow> db_error + 'st"
  other :: "string \<Rightarrow> template_data \<Rightarrow> (string \<times> bool) option"

definition run_template :: "'st ks_env \<Rightarrow> string \<Rightarrow> template_data \<Rightarrow> (string \<times> bool) option" where
  "run_template env ks data =
     (case Parse ks of Some t \<Rightarrow> Some (Execute data t, True) | None \<Rightarrow> other env ks data)"

text \<open>A save whose result is not looked at.\<close>

definition saved :: "('st, host) table \<Rightarrow> 'st \<Rightarrow> host \<Rightarrow> 'st" where
  "saved tb st item = (case tb_Save tb st item of Inl e \<Rightarrow> st | Inr (item, st) \<Rightarrow> st)"

definition chosen_ks :: "host \<Rightarrow> string" where
  "chosen_ks item =
     (if h_Ks item \<noteq> [] then string_of (Std_Decode (h_Ks item))
      else if g_Ks (h_Group item) \<noteq> [] then string_of (Std_Decode (g_Ks (h_Group item)))
      else defaultks)"

text \<open>The reply is an error, or the text that was written, which is empty for a template that does
  not parse.\<close>

datatype ks_reply = KsError int api_error | KsText string

definition Ks ::
    "('st, host) table \<Rightarrow> 'st ks_env \<Rightarrow> string \<Rightarrow> 'st \<Rightarrow> string \<Rightarrow> string option \<Rightarrow> ks_reply \<times> 'st" where
  "Ks tb env key st remoteAddr localAddr =
     (let host = host_part remoteAddr
      in case ke_find env st host of
           Inl e \<Rightarrow> (KsError 500 (DBFailure e), st)
         | Inr item \<Rightarrow>
             (let options = fst (UnmarshalOptions (g_Options (h_Group item)))
              in case ke_unflag env st item host of
                   Inl e \<Rightarrow> (KsError 500 (DBFailure e), st)
                 | Inr st \<Rightarrow>
                     (let item = item\<lparr>h_Reimage := False\<rparr>;
                          viaServer = (case localAddr of None \<Rightarrow> [] | Some a \<Rightarrow> a)
                      in case Decrypt (g_Password (h_Group item)) key of
                           Inl e \<Rightarrow> (KsError 500 (Invalid ''decrypt''), st)
                         | Inr password \<Rightarrow>
                             (case run_template env (chosen_ks item) (ks_data item options password viaServer) of
                                None \<Rightarrow> (KsText [], st)
                              | Some (text, False) \<Rightarrow> (KsText text, st)
                              | Some (text, True) \<Rightarrow>
                                  (KsText text, saved tb st (at_stage item 50 ''kickstart''))))))"

subsection \<open>What the default template prints\<close>

text \<open>The reference: the sections of the kickstart as functions of the settings.\<close>

abbreviation nl :: string where
  "nl \<equiv> unlines ['''']"

definition text_root :: "GroupOptions \<Rightarrow> string \<Rightarrow> string" where
  "text_root options password =
     unlines ['''', ''# Accept the VMware End User License Agreement'', ''vmaccepteula'', '''',
              ''# Set the root password for the DCUI and Tech Support Mode'']
     @ ''rootpw '' @ password @ unlines ['''', '''']
     @ (if EraseDisks options
        then unlines ['''', ''# Remove ALL partitions''] @ ''clearpart --overwritevmfs --alldrives '' else [])"

definition text_install :: "GroupOptions \<Rightarrow> group \<Rightarrow> string" where
  \<open>text_install options g =
     unlines ['''', '''']
     @ (if g_BootDisk g \<noteq> []
        then nl @ ''install --disk=/vmfs/devices/disks/'' @ g_BootDisk g
          @ unlines ['' --overwritevmfs --novmfsondisk --forceunsupportedinstall --ignoreprereqwarnings --ignoreprereqerrors'']
        else unlines ['''', ''# Install on the first local disk available on machine''] @ ''install --overwritevmfs ''
          @ (if CreateVMFS options then [] else '' --novmfsondisk '')
          @ unlines ['' --firstdisk="localesx,usb,ahci,vmw_ahci,VMware" --forceunsupportedinstall --ignoreprereqwarnings --ignoreprereqerrors''])\<close>

definition text_network :: "host \<Rightarrow> string" where
  "text_network item =
     (let g = h_Group item in
      unlines ['''', '''', ''# Set the network to static on the first network adapter'']
      @ ''network --bootproto=static --ip='' @ h_IP item @ '' --gateway='' @ g_Gateway g
      @ '' --netmask='' @ g_Netmask g @ '' ''
      @ (if g_DNS g \<noteq> [] then ''--nameserver='' @ g_DNS g @ '' '' else [])
      @ '' --hostname='' @ h_Hostname item @ '' --device='' @ h_Mac item @ '' ''
      @ (if g_Vlan g \<noteq> [] then '' --vlanid='' @ g_Vlan g @ '' '' else []))"

definition text_ntp :: "group \<Rightarrow> string" where
  "text_ntp g =
     unlines ['''', '''', ''reboot'', '''', ''%firstboot --interpreter=busybox'', '''', ''# Configure NTP'']
     @ nl @ ntp_command (g_NTP g) @ unlines ['''', ''esxcli system ntp set --enabled true'']"

definition text_domain :: "host \<Rightarrow> string" where
  "text_domain item =
     unlines ['''', '''', ''# Configure Domain Search'']
     @ (if h_Domain item \<noteq> [] then nl @ ''esxcli network ip dns search add -d '' @ h_Domain item @ nl else [])"

definition text_fqdn :: "GroupOptions \<Rightarrow> host \<Rightarrow> string" where
  "text_fqdn options item =
     unlines ['''', '''', ''# Configure FQDN''] @ ''esxcli system hostname set --fqdn ''
     @ (h_Hostname item @ ''.'' @ h_Domain item) @ unlines ['''', '''', ''# Enable SSH'']
     @ (if SSH options
        then unlines ['''', ''vim-cmd hostsvc/enable_ssh'', ''vim-cmd hostsvc/start_ssh'',
          ''system settings advanced set -o /UserVars/SuppressShellWarning -i 1''] else [])"

definition text_syslog :: "group \<Rightarrow> string" where
  "text_syslog g =
     unlines ['''', '''', ''# Syslog'']
     @ (if g_Syslog g \<noteq> []
        then nl @ ''esxcli system syslog config set --loghost='' @ g_Syslog g
          @ unlines ['''', ''esxcli system syslog reload'',
              ''esxcli network firewall ruleset set --ruleset-id=syslog --enabled=true'',
              ''esxcli network firewall refresh''] else [])"

definition text_vlan :: "group \<Rightarrow> string" where
  "text_vlan g =
     unlines ['''', '''', ''#vSwitch0'']
     @ (if g_Vlan g \<noteq> []
        then nl @ ''esxcli network vswitch standard portgroup set --vlan-id '' @ g_Vlan g @ nl else [])"

definition text_done :: "string \<Rightarrow> string" where
  "text_done viaServer =
     unlines ['''', '''', ''# Ensure TLS certificate matches ESXi FQDN'', ''/sbin/generate-certificates'',
         ''/etc/init.d/hostd restart && /etc/init.d/vpxa restart && /etc/init.d/rhttpproxy restart'', '''']
     @ (if viaServer \<noteq> []
        then unlines ['''',
            ''# Tell go-via the host is up. This is what moves it to 100% in the console and'',
            ''# fires the group's callback URL. It is the last thing to run and its failure'',
            ''# is swallowed: a host that installed correctly must not be reported as broken'',
            ''# because it could not reach the appliance afterwards.'']
          @ ''wget --no-check-certificate -O /dev/null https://'' @ viaServer
          @ unlines [''/v1/postconfig 2>/dev/null || true''] else [])"

definition kickstart_text :: "host \<Rightarrow> GroupOptions \<Rightarrow> string \<Rightarrow> string \<Rightarrow> string" where
  "kickstart_text item options password viaServer =
     (let g = h_Group item in
      text_root options password @ text_install options g @ text_network item @ text_ntp g
      @ text_domain item @ text_fqdn options item @ text_syslog g @ text_vlan g @ text_done viaServer @ nl)"

lemma ks_data_values:
  "ks_data item options password viaServer ''password'' = Some (Str password)"
  "ks_data item options password viaServer ''ip'' = Some (Str (h_IP item))"
  "ks_data item options password viaServer ''mac'' = Some (Str (h_Mac item))"
  "ks_data item options password viaServer ''gateway'' = Some (Str (g_Gateway (h_Group item)))"
  "ks_data item options password viaServer ''dns'' = Some (Str (g_DNS (h_Group item)))"
  "ks_data item options password viaServer ''ntp'' = Some (Str (ntp_command (g_NTP (h_Group item))))"
  "ks_data item options password viaServer ''hostname'' = Some (Str (h_Hostname item))"
  "ks_data item options password viaServer ''domain'' = Some (Str (h_Domain item))"
  "ks_data item options password viaServer ''fqdn'' = Some (Str (h_Hostname item @ ''.'' @ h_Domain item))"
  "ks_data item options password viaServer ''netmask'' = Some (Str (g_Netmask (h_Group item)))"
  "ks_data item options password viaServer ''via_server'' = Some (Str viaServer)"
  "ks_data item options password viaServer ''erasedisks'' = Some (Bool (EraseDisks options))"
  "ks_data item options password viaServer ''ssh'' = Some (Bool (SSH options))"
  "ks_data item options password viaServer ''syslog'' = Some (Str (g_Syslog (h_Group item)))"
  "ks_data item options password viaServer ''bootdisk'' = Some (Str (g_BootDisk (h_Group item)))"
  "ks_data item options password viaServer ''vlan'' = Some (Str (g_Vlan (h_Group item)))"
  "ks_data item options password viaServer ''createvmfs'' = Some (Bool (CreateVMFS options))"
  by (simp_all add: ks_data_def)

lemma ntp_command_not_empty: "ntp_command s \<noteq> []"
  by (cases "Split s (CHR '','')") (simp_all add: ntp_command_def)

lemmas section_eval = template_eval ks_data_values ntp_command_not_empty Let_def

lemma section_outputs:
  fixes item options password viaServer
  defines "d \<equiv> ks_data item options password viaServer"
  shows "output_of d ks_root = Some (text_root options password)"
    and "output_of d ks_install = Some (text_install options (h_Group item))"
    and "output_of d ks_network = Some (text_network item)"
    and "output_of d ks_ntp = Some (text_ntp (h_Group item))"
    and "output_of d ks_domain = Some (text_domain item)"
    and "output_of d ks_fqdn = Some (text_fqdn options item)"
    and "output_of d ks_syslog = Some (text_syslog (h_Group item))"
    and "output_of d ks_vlan = Some (text_vlan (h_Group item))"
    and "output_of d ks_done = Some (text_done viaServer)"
    and "output_of d ks_end = Some nl"
  by (simp_all add: d_def section_eval ks_root_def text_root_def ks_install_def text_install_def
      ks_network_def text_network_def ks_ntp_def text_ntp_def ks_domain_def text_domain_def
      ks_fqdn_def text_fqdn_def ks_syslog_def text_syslog_def ks_vlan_def text_vlan_def
      ks_done_def text_done_def ks_end_def)

lemma section_ends:
  "\<forall>ps \<in> {ks_root, ks_install, ks_network, ks_ntp, ks_domain, ks_fqdn, ks_syslog, ks_vlan, ks_done}.
     ps \<noteq> [] \<and> \<not> is_Txt (last ps)"
  by (simp add: ks_root_def ks_install_def ks_network_def ks_ntp_def ks_domain_def ks_fqdn_def
      ks_syslog_def ks_vlan_def ks_done_def)

lemma default_output:
  "\<exists>t. Parse defaultks = Some t
     \<and> Execute (ks_data item options password viaServer) t = kickstart_text item options password viaServer"
proof -
  have "output_of (ks_data item options password viaServer) default_pieces
      = Some (kickstart_text item options password viaServer)"
    unfolding default_pieces_def kickstart_text_def Let_def
    using section_ends by (intro output_of_append section_outputs) simp_all
  then show ?thesis by (auto simp: output_of_def defaultks_def Parse_pieces)
qed

lemma run_default:
  "run_template env defaultks (ks_data item options password viaServer)
     = Some (kickstart_text item options password viaServer, True)"
  using default_output [of item options password viaServer] by (auto simp: run_template_def)

lemma kickstart_text_reimage [simp]:
  "kickstart_text (item\<lparr>h_Reimage := b\<rparr>) options password viaServer = kickstart_text item options password viaServer"
  by (simp add: kickstart_text_def text_network_def text_domain_def text_fqdn_def Let_def)

text \<open>What the handler relies on of the database: a host that is found at an address is the row
  under its key, and clearing the flag of a host changes that row in this column only.\<close>

definition ks_laws :: "('st, host) table \<Rightarrow> 'st ks_env \<Rightarrow> bool" where
  "ks_laws tb env \<longleftrightarrow>
     table_laws tb h_ID (\<lambda>k h. h\<lparr>h_ID := k\<rparr>)
   \<and> (\<forall>st ip h. ke_find env st ip = Inr h \<longrightarrow> h_IP h = ip \<and> tb_First tb st (h_ID h) = Inr h)
   \<and> (\<forall>st ip h st'. ke_find env st ip = Inr h \<and> ke_unflag env st h ip = Inr st' \<longrightarrow>
        tb_First tb st' (h_ID h) = Inr (h\<lparr>h_Reimage := False\<rparr>)
        \<and> (\<forall>k. k \<noteq> h_ID h \<longrightarrow> tb_First tb st' k = tb_First tb st k))"

lemma saved_row:
  assumes "table_laws tb h_ID (\<lambda>k h. h\<lparr>h_ID := k\<rparr>)" and "h_ID item \<noteq> 0"
  shows "saved tb st item = st \<or> tb_First tb (saved tb st item) (h_ID item) = Inr item
      \<and> (\<forall>k. k \<noteq> h_ID item \<longrightarrow> tb_First tb (saved tb st item) k = tb_First tb st k)"
  using table_lawsD(3) [OF assms(1) _ assms(2)] by (auto simp: saved_def split: sum.splits)

lemma at_stage_facts [simp]:
  "h_ID (at_stage h n s) = h_ID h" "h_Mac (at_stage h n s) = h_Mac h" "h_IP (at_stage h n s) = h_IP h"
  "h_Hostname (at_stage h n s) = h_Hostname h" "h_Reimage (at_stage h n s) = h_Reimage h"
  "h_Progress (at_stage h n s) = n" "h_Progresstext (at_stage h n s) = s"
  by (simp_all add: at_stage_def)

text \<open>The row of a host after its kickstart was asked for.\<close>

lemma Ks_row:
  assumes laws: "ks_laws tb env" and item: "ke_find env st (host_part remoteAddr) = Inr item"
    and unflag: "ke_unflag env st item (host_part remoteAddr) = Inr st1"
    and "Ks tb env key st remoteAddr localAddr = (r, st')"
  obtains h where "tb_First tb st' (h_ID item) = Inr h"
    and "h = item\<lparr>h_Reimage := False\<rparr> \<or> h = at_stage (item\<lparr>h_Reimage := False\<rparr>) 50 ''kickstart''"
    and "\<forall>k. k \<noteq> h_ID item \<longrightarrow> tb_First tb st' k = tb_First tb st k"
proof -
  have st1: "tb_First tb st1 (h_ID item) = Inr (item\<lparr>h_Reimage := False\<rparr>)"
    "\<forall>k. k \<noteq> h_ID item \<longrightarrow> tb_First tb st1 k = tb_First tb st k"
    and tl: "table_laws tb h_ID (\<lambda>k h. h\<lparr>h_ID := k\<rparr>)"
    using laws item unflag unfolding ks_laws_def by blast+
  let ?s = "at_stage (item\<lparr>h_Reimage := False\<rparr>) 50 ''kickstart''"
  have "st' = st1 \<or> st' = saved tb st1 ?s"
    using assms(4) item unflag by (auto simp: Ks_def Let_def split: sum.splits option.splits prod.splits bool.splits)
  then consider "st' = st1"
    | "tb_First tb st' (h_ID item) = Inr ?s" "\<forall>k. k \<noteq> h_ID item \<longrightarrow> tb_First tb st' k = tb_First tb st k"
    using st1 saved_row [OF tl, of ?s st1] table_lawsD(5) [OF tl st1(1)] by auto
  then show ?thesis
  proof cases
    case 1
    then show ?thesis using st1 by (intro that [of "item\<lparr>h_Reimage := False\<rparr>"]) simp_all
  next
    case 2
    then show ?thesis by (intro that [of ?s]) simp_all
  qed
qed

subsection \<open>Properties\<close>

text \<open>C13: without a kickstart of its own a host is sent the default one: every line of it is the
  one the settings of host and group call for, with the root password of the group decrypted.
  The host is then at half its installation and no longer flagged.\<close>

theorem default_kickstart_served:
  assumes "ke_find env st (host_part remoteAddr) = Inr item"
    and "ke_unflag env st item (host_part remoteAddr) = Inr st1"
    and "Decrypt (g_Password (h_Group item)) key = Inr password"
    and "h_Ks item = []" and "g_Ks (h_Group item) = []"
  shows "Ks tb env key st remoteAddr (Some localAddr) =
    (KsText (kickstart_text item (fst (UnmarshalOptions (g_Options (h_Group item)))) password localAddr),
     saved tb st1 (at_stage (item\<lparr>h_Reimage := False\<rparr>) 50 ''kickstart''))"
  using assms by (simp add: Ks_def chosen_ks_def run_default Let_def)

text \<open>once the row of a host is reached and its flag cleared, nothing that goes wrong later
  brings the flag back: whether a kickstart is served or the request fails, the DHCP server
  refuses the host from then on, and no other host is touched. Without a kickstart sent in
  full the progress stays where it was.\<close>

theorem kickstart_ends_reimaging:
  assumes "ks_laws tb env" and "ke_find env st (host_part remoteAddr) = Inr item"
    and "ke_unflag env st item (host_part remoteAddr) = Inr st1"
    and "Ks tb env key st remoteAddr localAddr = (r, st')"
  shows "\<exists>h. tb_First tb st' (h_ID item) = Inr h \<and> \<not> h_Reimage h \<and> h_Mac h = h_Mac item
    \<and> (h_Progress h = 50 \<or> h_Progress h = h_Progress item)
    \<and> (\<forall>k. k \<noteq> h_ID item \<longrightarrow> tb_First tb st' k = tb_First tb st k)
    \<and> (\<forall>denv mac. find_by_mac denv (ToLower (unicode_lower denv) mac) = Inr h \<longrightarrow>
         findHostByMAC denv mac = Inl (NotFlagged (h_Hostname item)))
    \<and> (r = KsError 500 (Invalid ''decrypt'') \<longrightarrow> h_Progress h = h_Progress item)"
proof (rule Ks_row [OF assms])
  fix h
  assume h: "tb_First tb st' (h_ID item) = Inr h"
    "h = item\<lparr>h_Reimage := False\<rparr> \<or> h = at_stage (item\<lparr>h_Reimage := False\<rparr>) 50 ''kickstart''"
    "\<forall>k. k \<noteq> h_ID item \<longrightarrow> tb_First tb st' k = tb_First tb st k"
  have "st' = st1" if "r = KsError 500 (Invalid ''decrypt'')"
    using assms(2-4) that by (auto simp: Ks_def Let_def split: sum.splits option.splits prod.splits bool.splits)
  moreover have "tb_First tb st1 (h_ID item) = Inr (item\<lparr>h_Reimage := False\<rparr>)"
    using assms(1-3) unfolding ks_laws_def by blast
  ultimately have "h = item\<lparr>h_Reimage := False\<rparr>" if "r = KsError 500 (Invalid ''decrypt'')"
    using that h(1) by simp
  then show ?thesis using h by (intro exI [of _ h]) (auto simp: findHostByMAC_def)
qed

text \<open>the guard around the time servers of the default kickstart never holds anything back: with
  no server configured the installer is told to set an empty one.\<close>

theorem kickstart_empty_ntp:
  assumes "g_NTP (h_Group item) = []"
  shows "\<exists>before after. kickstart_text item options password viaServer =
    before @ ''esxcli system ntp set --server '' @ unlines ['''', ''esxcli system ntp set --enabled true''] @ after"
proof -
  have "ntp_command [] = ''esxcli system ntp set --server ''" by (simp add: ntp_command_def)
  then show ?thesis
    using assms unfolding kickstart_text_def Let_def text_ntp_def
    by (metis append.assoc)
qed

text \<open>a kickstart that a client stores encoded is the template that is used, the host's own
  before the group's, and the default one only where neither is set.\<close>

theorem stored_kickstart_used:
  "chosen_ks (item\<lparr>h_Ks := Std_Encode (bytes_of t), h_Group := (h_Group item)\<lparr>g_Ks := Std_Encode (bytes_of u)\<rparr>\<rparr>)
     = (if t \<noteq> [] then t else if u \<noteq> [] then u else defaultks)"
proof -
  have "Std_Decode (Std_Encode bs) = bs" for bs using std_base64.dec_enc by simp
  moreover have "Std_Encode (bytes_of s) = [] \<longleftrightarrow> s = []" for s
    using std_base64.enc_inject [of "bytes_of s" "[]"] by (auto simp: bytes_of_def)
  ultimately show ?thesis by (simp add: chosen_ks_def)
qed

subsection \<open>The properties at work\<close>

definition ks_hosts :: "(host list, host) table" where
  "ks_hosts = list_table h_ID (\<lambda>k h. h\<lparr>h_ID := k\<rparr>)"

definition example_ks :: "host list ks_env" where
  "example_ks =
     \<lparr>ke_find = (\<lambda>st ip. case List.find (\<lambda>h. h_IP h = ip \<and> tb_First ks_hosts st (h_ID h) = Inr h) st of
         None \<Rightarrow> Inl ErrRecordNotFound | Some h \<Rightarrow> Inr h),
      ke_unflag = (\<lambda>st h ip. case tb_Save ks_hosts st (h\<lparr>h_Reimage := False\<rparr>) of
         Inl e \<Rightarrow> Inl e | Inr (h, st) \<Rightarrow> Inr st),
      other = (\<lambda>_ _. None)\<rparr>"

lemma example_laws:
  assumes found: "\<And>st ip h. f st ip = Inr h \<Longrightarrow> h_IP h = ip \<and> tb_First ks_hosts st (h_ID h) = Inr h"
  shows "ks_laws ks_hosts (example_ks\<lparr>ke_find := f\<rparr>)"
proof -
  have tl: "table_laws ks_hosts h_ID (\<lambda>k h. h\<lparr>h_ID := k\<rparr>)"
    unfolding ks_hosts_def by (rule list_table_laws) simp
  have "tb_First ks_hosts st' (h_ID h) = Inr (h\<lparr>h_Reimage := False\<rparr>)
      \<and> (\<forall>k. k \<noteq> h_ID h \<longrightarrow> tb_First ks_hosts st' k = tb_First ks_hosts st k)"
    if f: "f st ip = Inr h" and u: "ke_unflag example_ks st h ip = Inr st'" for st ip h st'
  proof -
    obtain row where row: "tb_Save ks_hosts st (h\<lparr>h_Reimage := False\<rparr>) = Inr (row, st')"
      using u by (auto simp: example_ks_def split: sum.splits)
    have "tb_First ks_hosts st (h_ID h) = Inr h" using found [OF f] by blast
    from table_saved(2,4) [OF tl this row] show ?thesis by simp
  qed
  then have "\<forall>st ip h st'. f st ip = Inr h \<and> ke_unflag example_ks st h ip = Inr st' \<longrightarrow>
      tb_First ks_hosts st' (h_ID h) = Inr (h\<lparr>h_Reimage := False\<rparr>)
      \<and> (\<forall>k. k \<noteq> h_ID h \<longrightarrow> tb_First ks_hosts st' k = tb_First ks_hosts st k)" by blast
  with tl found show ?thesis by (simp add: ks_laws_def)
qed

lemma example_ks_laws: "ks_laws ks_hosts example_ks"
proof -
  have find: "P h" if "List.find P st = Some h" for P and h :: host and st
    using that by (induction st) (auto split: if_splits)
  have "h_IP h = ip \<and> tb_First ks_hosts st (h_ID h) = Inr h"
    if "ke_find example_ks st ip = Inr h" for st ip h
    using that find [of "\<lambda>h. h_IP h = ip \<and> tb_First ks_hosts st (h_ID h) = Inr h" st h]
    by (auto simp: example_ks_def split: option.splits)
  from example_laws [of "ke_find example_ks", OF this] show ?thesis by simp
qed

definition ks_host :: "string \<Rightarrow> host" where
  "ks_host password = zero_host\<lparr>h_ID := 1, h_IP := ''10.0.0.7'', h_Reimage := True, h_Progress := 15,
     h_Group := zero_group\<lparr>g_Password := password\<rparr>\<rparr>"

lemma ks_remote: "host_part ''10.0.0.7:4021'' = ''10.0.0.7''"
  by code_simp

lemma ks_host_found:
  "ke_find example_ks [ks_host p] (host_part ''10.0.0.7:4021'') = Inr (ks_host p)"
  "ke_unflag example_ks [ks_host p] (ks_host p) (host_part ''10.0.0.7:4021'') = Inr [(ks_host p)\<lparr>h_Reimage := False\<rparr>]"
  by (simp_all add: example_ks_def ks_hosts_def list_table_def ks_host_def ks_remote Let_def)

theorem default_kickstart_served_witness:
  "\<exists>p key. fst (Ks ks_hosts example_ks key [ks_host p] ''10.0.0.7:4021'' (Some ''10.0.0.1:443''))
     = KsText (kickstart_text (ks_host p) zero_options ''VMware1!'' ''10.0.0.1:443'')"
proof -
  let ?key = "hex_EncodeToString (replicate 32 7)"
  have "newGCM ?key = Inr (replicate 32 7)" by (rule newGCM_hex) (simp add: keySize_def)
  then obtain p where "Encrypt ''VMware1!'' ?key (Some (replicate 12 9)) = Inr p" by (simp add: Encrypt_def Let_def)
  then have "Decrypt p ?key = Inr ''VMware1!''" by (rule Decrypt_Encrypt) (simp add: NonceSize_def)
  then have "Decrypt (g_Password (h_Group (ks_host p))) ?key = Inr ''VMware1!''" by (simp add: ks_host_def)
  from default_kickstart_served [OF ks_host_found this]
  have served: "h_Ks (ks_host p) = [] \<Longrightarrow> g_Ks (h_Group (ks_host p)) = [] \<Longrightarrow>
      fst (Ks ks_hosts example_ks ?key [ks_host p] ''10.0.0.7:4021'' (Some ''10.0.0.1:443''))
      = KsText (kickstart_text (ks_host p) (fst (UnmarshalOptions (g_Options (h_Group (ks_host p))))) ''VMware1!''
          ''10.0.0.1:443'')" by simp
  have unset: "h_Ks (ks_host p) = []" "g_Ks (h_Group (ks_host p)) = []" "g_Options (h_Group (ks_host p)) = []"
    by (simp_all add: ks_host_def zero_host_def zero_group_def)
  show ?thesis
    by (rule exI [of _ p], rule exI [of _ ?key]) (use served [OF unset(1,2)] in \<open>simp add: unset(3) empty_options\<close>)
qed

theorem kickstart_ends_reimaging_witness:
  "\<exists>st'. Ks ks_hosts example_ks [] [ks_host ''xx''] ''10.0.0.7:4021'' None = (KsError 500 (Invalid ''decrypt''), st')
     \<and> (\<exists>h. tb_First ks_hosts st' 1 = Inr h \<and> \<not> h_Reimage h \<and> h_Progress h = 15)"
proof -
  have "\<exists>e. Decrypt ''xx'' [] = Inl e" by (simp add: Decrypt_def newGCM_def aes_key_def)
  then obtain st' where ks: "Ks ks_hosts example_ks [] [ks_host ''xx''] ''10.0.0.7:4021'' None
      = (KsError 500 (Invalid ''decrypt''), st')"
    using ks_host_found [of "''xx''"] by (auto simp: Ks_def Let_def ks_host_def)
  from kickstart_ends_reimaging [OF example_ks_laws ks_host_found this] ks show ?thesis
    by (auto simp: ks_host_def)
qed

theorem kickstart_empty_ntp_witness:
  "\<exists>before after. kickstart_text zero_host zero_options ''VMware1!'' ''10.0.0.1:443'' =
    before @ ''esxcli system ntp set --server '' @ unlines ['''', ''esxcli system ntp set --enabled true''] @ after"
  by (rule kickstart_empty_ntp) (simp add: zero_host_def zero_group_def)

end
