(* ===== verification/Install.thy ===== *)
theory Install
  imports Kickstart Hosts
begin

section \<open>The course of an installation: internal/api/postconfig.go\<close>

text \<open>
  An installed host reports back, and a worker records that it is complete and calls the URL of
  its group. The worker runs beside the handler that starts it: here the handler hands over the
  host as it read it, and the worker is a step of its own that comes at any later time. The
  second half puts all that changes a host on record together: the boot files, the kickstart,
  the report, the worker and the operator, in every order.
\<close>

text \<open>Encoding a host as JSON and making a request of a URL are the library's: \<open>None\<close> and \<open>False\<close>
  are their errors.\<close>

record callback_env =
  cb_marshal :: "host \<Rightarrow> string option"
  cb_request :: "string \<Rightarrow> bool"

definition callback :: "callback_env \<Rightarrow> string \<Rightarrow> host \<Rightarrow> (string \<times> string) option" where
  "callback cb url data =
     (let data = data\<lparr>h_Group := (h_Group data)\<lparr>g_Password := []\<rparr>\<rparr>
      in case cb_marshal cb data of
           None \<Rightarrow> None
         | Some json \<Rightarrow> if cb_request cb url then Some (url, json) else None)"

text \<open>The worker: the table afterwards, and the request it sends, if any.\<close>

definition ProvisioningWorker ::
    "('st, host) table \<Rightarrow> callback_env \<Rightarrow> 'st \<Rightarrow> host \<Rightarrow> 'st \<times> (string \<times> string) option" where
  "ProvisioningWorker tb cb st item =
     (let item = at_stage item 100 ''completed'';
          st = saved tb st item
      in (st, if g_CallbackURL (h_Group item) \<noteq> [] then callback cb (g_CallbackURL (h_Group item)) item else None))"

text \<open>The handlers: the reply, and the host the worker is started on.\<close>

definition PostConfig :: "'st ks_env \<Rightarrow> 'st \<Rightarrow> string \<Rightarrow> host reply \<times> host option" where
  "PostConfig env st remoteAddr =
     (case ke_find env st (host_part remoteAddr) of
        Inl e \<Rightarrow> (Error 500 (DBFailure e), None)
      | Inr item \<Rightarrow> (JSON 200 item, Some item))"

definition PostConfigID :: "('st, host) table \<Rightarrow> 'st \<Rightarrow> string \<Rightarrow> host reply \<times> host option" where
  "PostConfigID tb st param =
     (case pathID param of
        Inl e \<Rightarrow> (Error 400 e, None)
      | Inr i \<Rightarrow>
          (case tb_First tb st i of
             Inl e \<Rightarrow> (Error 500 (DBFailure e), None)
           | Inr item \<Rightarrow> (JSON 200 item, Some item)))"

subsection \<open>All that happens to a host\<close>

record 'st install =
  in_db :: 'st
  in_jobs :: "host list"

datatype event = Booted | Kickstarted | Reported | Worked | Operated

inductive install_step ::
    "('st, host) table \<Rightarrow> 'st ks_env \<Rightarrow> callback_env \<Rightarrow> string \<Rightarrow> 'st install \<Rightarrow> event \<Rightarrow> 'st install \<Rightarrow> bool"
  for tb env cb key where
  tftp: "host_by_ip senv = ke_find env (in_db s) \<Longrightarrow> snd (readHandler senv raddr laddr f) = hs \<Longrightarrow>
    install_step tb env cb key s Booted (s\<lparr>in_db := foldl (saved tb) (in_db s) hs\<rparr>)"
| http: "host_by_ip senv = ke_find env (in_db s) \<Longrightarrow> snd (Files senv raddr laddr f) = hs \<Longrightarrow>
    install_step tb env cb key s Booted (s\<lparr>in_db := foldl (saved tb) (in_db s) hs\<rparr>)"
| kickstart: "Ks tb env key (in_db s) raddr via = (r, db) \<Longrightarrow>
    install_step tb env cb key s Kickstarted (s\<lparr>in_db := db\<rparr>)"
| report: "PostConfig env (in_db s) raddr = (r, Some job) \<or> PostConfigID tb (in_db s) param = (r, Some job) \<Longrightarrow>
    install_step tb env cb key s Reported (s\<lparr>in_jobs := in_jobs s @ [job]\<rparr>)"
| worker: "in_jobs s = before @ job # after \<Longrightarrow> ProvisioningWorker tb cb (in_db s) job = (db, req) \<Longrightarrow>
    install_step tb env cb key s Worked \<lparr>in_db = db, in_jobs = before @ after\<rparr>"
| update: "UpdateHost tb merge (in_db s) param body = (rs, db) \<Longrightarrow>
    install_step tb env cb key s Operated (s\<lparr>in_db := db\<rparr>)"
| create: "CreateHost tb find_group (in_db s) body = (r, db) \<Longrightarrow>
    install_step tb env cb key s Operated (s\<lparr>in_db := db\<rparr>)"
| delete: "DeleteHost tb (in_db s) param = (r, db) \<Longrightarrow>
    install_step tb env cb key s Operated (s\<lparr>in_db := db\<rparr>)"

inductive install_run ::
    "('st, host) table \<Rightarrow> 'st ks_env \<Rightarrow> callback_env \<Rightarrow> string \<Rightarrow> 'st install \<Rightarrow> event list \<Rightarrow> 'st install \<Rightarrow> bool"
  for tb env cb key where
  start: "install_run tb env cb key s [] s"
| step: "install_run tb env cb key s es s1 \<Longrightarrow> install_step tb env cb key s1 e s2 \<Longrightarrow>
    install_run tb env cb key s (es @ [e]) s2"

inductive_cases install_stepE:
  "install_step tb env cb key s Booted s'" "install_step tb env cb key s Kickstarted s'"
  "install_step tb env cb key s Reported s'" "install_step tb env cb key s Worked s'"

subsection \<open>Facts\<close>

definition unflagged :: "('st, host) table \<Rightarrow> 'st \<Rightarrow> int \<Rightarrow> bool" where
  "unflagged tb db i \<longleftrightarrow> (\<forall>h. tb_First tb db i = Inr h \<longrightarrow> \<not> h_Reimage h)"

text \<open>The state of an installation that is not to be repeated: neither the row nor a worker still
  to come has the flag.\<close>

definition settled :: "('st, host) table \<Rightarrow> int \<Rightarrow> 'st install \<Rightarrow> bool" where
  "settled tb i s \<longleftrightarrow> unflagged tb (in_db s) i \<and> (\<forall>j \<in> set (in_jobs s). h_ID j = i \<or> h_ID j = 0 \<longrightarrow> \<not> h_Reimage j)"

lemma found_row:
  assumes "ks_laws tb env" and "ke_find env db ip = Inr h"
  shows "tb_First tb db (h_ID h) = Inr h" and "h_ID h \<noteq> 0"
proof -
  have tl: "table_laws tb h_ID (\<lambda>k h. h\<lparr>h_ID := k\<rparr>)" using assms(1) by (simp add: ks_laws_def)
  show row: "tb_First tb db (h_ID h) = Inr h" using assms unfolding ks_laws_def by blast
  show "h_ID h \<noteq> 0" by (rule table_lawsD(5) [OF tl row])
qed

lemma saved_unflagged:
  assumes tl: "table_laws tb h_ID (\<lambda>k h. h\<lparr>h_ID := k\<rparr>)" and "unflagged tb db i"
    and "h_ID h = i \<or> h_ID h = 0 \<longrightarrow> \<not> h_Reimage h"
  shows "unflagged tb (saved tb db h) i"
proof (cases "tb_Save tb db h")
  case (Inl e)
  then show ?thesis using assms(2) by (simp add: saved_def)
next
  case (Inr p)
  then obtain b db' where save: "tb_Save tb db h = Inr (b, db')" "saved tb db h = db'"
    by (cases p) (simp add: saved_def)
  show ?thesis
  proof (cases "h_ID h = 0")
    case True
    then obtain k where k: "b = h\<lparr>h_ID := k\<rparr>" "tb_First tb db' k = Inr b"
        "\<forall>k'. k' \<noteq> k \<longrightarrow> tb_First tb db' k' = tb_First tb db k'"
      using table_lawsD(6) [OF tl save(1)] unfolding created_def by blast
    then show ?thesis using True assms(2,3) save(2) by (cases "i = k") (auto simp: unflagged_def)
  next
    case False
    then show ?thesis using table_lawsD(3) [OF tl save(1)] assms(2,3) save(2)
      by (cases "i = h_ID h") (auto simp: unflagged_def)
  qed
qed

lemma foldl_saved_unflagged:
  assumes "table_laws tb h_ID (\<lambda>k h. h\<lparr>h_ID := k\<rparr>)" and "unflagged tb db i"
    and "\<forall>h \<in> set hs. h_ID h = i \<or> h_ID h = 0 \<longrightarrow> \<not> h_Reimage h"
  shows "unflagged tb (foldl (saved tb) db hs) i"
  using assms(2,3) by (induction hs arbitrary: db) (simp_all add: saved_unflagged [OF assms(1)])

lemma boot_saves:
  "snd (readHandler senv raddr laddr f) = hs \<or> snd (Files senv raddr laddr f) = hs \<Longrightarrow>
     hs = [] \<or> hs = [at_stage (host_for senv (host_part raddr)) 10 ''mboot.efi'']
     \<or> hs = [at_stage (host_for senv (host_part raddr)) 12 ''crypto64.efi'']
     \<or> hs = [at_stage (host_for senv (host_part raddr)) 15 ''installation'']"
  by (auto simp: readHandler_def Files_def serveLoader_def tftp_serveBootCfg_def uefi_serveBootCfg_def Let_def
      split: sum.splits option.splits if_splits)

lemma boot_saves_unflagged:
  assumes laws: "ks_laws tb env" and "host_by_ip senv = ke_find env db" and "unflagged tb db i"
    and "snd (readHandler senv raddr laddr f) = hs \<or> snd (Files senv raddr laddr f) = hs" and "h \<in> set hs"
  shows "h_ID h = i \<or> h_ID h = 0 \<longrightarrow> \<not> h_Reimage h"
proof -
  obtain n t where h: "h = at_stage (host_for senv (host_part raddr)) n t"
    using boot_saves [OF assms(4)] assms(5) by auto
  show ?thesis
  proof (cases "ke_find env db (host_part raddr)")
    case (Inl e)
    then show ?thesis using h assms(2) by (simp add: host_for_def zero_host_def)
  next
    case (Inr g)
    then have "tb_First tb db (h_ID g) = Inr g" "h_ID g \<noteq> 0"
      using found_row [OF laws Inr] by simp_all
    then show ?thesis using h assms(2,3) Inr by (auto simp: host_for_def unflagged_def)
  qed
qed

lemma Ks_unflagged:
  assumes laws: "ks_laws tb env" and "unflagged tb db i" and ks: "Ks tb env key db raddr via = (r, db')"
  shows "unflagged tb db' i"
proof (cases "\<exists>item st1. ke_find env db (host_part raddr) = Inr item
    \<and> ke_unflag env db item (host_part raddr) = Inr st1")
  case True
  then obtain item st1 where f: "ke_find env db (host_part raddr) = Inr item"
    "ke_unflag env db item (host_part raddr) = Inr st1" by blast
  show ?thesis
  proof (rule Ks_row [OF laws f ks])
    fix h
    assume "tb_First tb db' (h_ID item) = Inr h"
      "h = item\<lparr>h_Reimage := False\<rparr> \<or> h = at_stage (item\<lparr>h_Reimage := False\<rparr>) 50 ''kickstart''"
      "\<forall>k. k \<noteq> h_ID item \<longrightarrow> tb_First tb db' k = tb_First tb db k"
    then show ?thesis using assms(2) by (cases "i = h_ID item") (auto simp: unflagged_def)
  qed
next
  case False
  then have "db' = db" using ks by (auto simp: Ks_def Let_def split: sum.splits)
  then show ?thesis using assms(2) by simp
qed

lemma settled_step:
  assumes laws: "ks_laws tb env" and "settled tb i s" and "install_step tb env cb key s e s'" and "e \<noteq> Operated"
  shows "settled tb i s'"
proof -
  have tl: "table_laws tb h_ID (\<lambda>k h. h\<lparr>h_ID := k\<rparr>)" using laws by (simp add: ks_laws_def)
  show ?thesis
    using assms(3,4,2)
  proof cases
    case (tftp senv raddr laddr f hs)
    have u: "unflagged tb (in_db s) i" using assms(2) by (simp add: settled_def)
    have "\<forall>h \<in> set hs. h_ID h = i \<or> h_ID h = 0 \<longrightarrow> \<not> h_Reimage h"
      using boot_saves_unflagged [OF laws tftp(3) u disjI1 [OF tftp(4)]] by blast
    then show ?thesis using assms(2) foldl_saved_unflagged [OF tl u] tftp(2) by (simp add: settled_def)
  next
    case (http senv raddr laddr f hs)
    have u: "unflagged tb (in_db s) i" using assms(2) by (simp add: settled_def)
    have "\<forall>h \<in> set hs. h_ID h = i \<or> h_ID h = 0 \<longrightarrow> \<not> h_Reimage h"
      using boot_saves_unflagged [OF laws http(3) u disjI2 [OF http(4)]] by blast
    then show ?thesis using assms(2) foldl_saved_unflagged [OF tl u] http(2) by (simp add: settled_def)
  next
    case (kickstart raddr via r db)
    then show ?thesis using assms(2) Ks_unflagged [OF laws] by (auto simp: settled_def)
  next
    case (report raddr r job param)
    then have job: "tb_First tb (in_db s) (h_ID job) = Inr job"
      using found_row(1) [OF laws] table_lawsD(1) [OF tl]
      by (fastforce simp: PostConfig_def PostConfigID_def split: sum.splits)
    with table_lawsD(5) [OF tl job] show ?thesis using assms(2) report by (auto simp: settled_def unflagged_def)
  next
    case (worker before job after db req)
    have "settled tb i \<lparr>in_db = in_db s, in_jobs = before @ after\<rparr>"
      and "h_ID job = i \<or> h_ID job = 0 \<longrightarrow> \<not> h_Reimage job"
      using assms(2) worker by (auto simp: settled_def)
    then show ?thesis using worker saved_unflagged [OF tl, of _ _ "at_stage job 100 ''completed''"]
      by (auto simp: settled_def ProvisioningWorker_def Let_def)
  qed simp_all
qed

lemma settled_run:
  assumes "ks_laws tb env" and "settled tb i s" and "install_run tb env cb key s es s'" and "Operated \<notin> set es"
  shows "settled tb i s'"
  using assms(3,4,2) by (induction rule: install_run.induct) (auto intro: settled_step [OF assms(1)])

subsection \<open>Properties\<close>

text \<open>C3: no host installs itself again once its installation is settled, that is, once its row is without the
  flag and no worker that is still to come holds a copy with it: whatever boot files, kickstarts and
  reports are asked for then, in whatever order and by whomever, and whenever the workers end, the
  DHCP server does not serve the host until an operator acts.\<close>

theorem no_reinstall_loop:
  assumes "ks_laws tb env" and "settled tb i s"
    and "install_run tb env cb key s es s'" and "Operated \<notin> set es"
    and "find_by_mac denv (ToLower (unicode_lower denv) mac) = Inr h" and "tb_First tb (in_db s') i = Inr h"
  shows "findHostByMAC denv mac = Inl (NotFlagged (h_Hostname h))"
proof -
  have "\<not> h_Reimage h"
    using settled_run [OF assms(1-4)] assms(6) by (auto simp: settled_def unflagged_def)
  then show ?thesis by (simp add: findHostByMAC_def assms(5))
qed

text \<open>a worker writes back the whole row as it was when the report came in: a change the operator
  makes in between, such as flagging the host for another installation, is lost.\<close>

theorem worker_overwrites:
  assumes "ks_laws tb env" and "PostConfig env db0 raddr = (r, Some job)"
    and "tb_Save tb db (at_stage job 100 ''completed'') = Inr (row, db')"
  shows "fst (ProvisioningWorker tb cb db job) = db'
    \<and> tb_First tb db' (h_ID job) = Inr (job\<lparr>h_Progress := 100, h_Progresstext := ''completed''\<rparr>)
    \<and> tb_First tb db0 (h_ID job) = Inr job"
proof -
  have tl: "table_laws tb h_ID (\<lambda>k h. h\<lparr>h_ID := k\<rparr>)" using assms(1) by (simp add: ks_laws_def)
  have job: "ke_find env db0 (host_part raddr) = Inr job"
    using assms(2) by (auto simp: PostConfig_def split: sum.splits)
  have "h_ID (at_stage job 100 ''completed'') = h_ID job" by simp
  from table_saved(2) [OF tl found_row(1) [OF assms(1) job] assms(3) this] show ?thesis
    using assms(3) found_row(1) [OF assms(1) job]
    by (simp add: ProvisioningWorker_def saved_def Let_def) (simp add: at_stage_def)
qed

text \<open>the root password never leaves with the callback, not even encrypted: the request that is
  sent is the same whatever password the group has, and goes to the URL of the group only.\<close>

theorem callback_hides_password:
  "snd (ProvisioningWorker tb cb st (item\<lparr>h_Group := (h_Group item)\<lparr>g_Password := p\<rparr>\<rparr>))
     = snd (ProvisioningWorker tb cb st item)
   \<and> (case snd (ProvisioningWorker tb cb st item) of
        None \<Rightarrow> True
      | Some (url, body) \<Rightarrow> url = g_CallbackURL (h_Group item) \<and> url \<noteq> []
          \<and> cb_marshal cb ((at_stage item 100 ''completed'')\<lparr>h_Group := (h_Group item)\<lparr>g_Password := []\<rparr>\<rparr>) = Some body)"
  by (auto simp: ProvisioningWorker_def callback_def at_stage_def Let_def split: option.splits)


text \<open>A report that comes in before the kickstart hands the worker a copy with the flag: when that worker
  ends after the kickstart, the host is flagged again and nobody asked for it.\<close>

theorem early_report_flags_again:
  assumes laws: "ks_laws tb env" and find: "ke_find env db0 ip = Inr h" and "h_Reimage h" and "host_part raddr = ip"
    and "tb_Save tb db (at_stage h 100 ''completed'') = Inr (row, db')"
  shows "\<exists>job. PostConfig env db0 raddr = (JSON 200 h, Some job)
    \<and> fst (ProvisioningWorker tb cb db job) = db' \<and> \<not> unflagged tb db' (h_ID h)"
proof -
  have tl: "table_laws tb h_ID (\<lambda>k h. h\<lparr>h_ID := k\<rparr>)" using laws by (simp add: ks_laws_def)
  have "h_ID (at_stage h 100 ''completed'') = h_ID h" by simp
  from table_saved(2) [OF tl found_row(1) [OF laws find] assms(5) this]
  have "tb_First tb db' (h_ID h) = Inr (at_stage h 100 ''completed'')" .
  then show ?thesis
    using assms(2-5) by (simp add: PostConfig_def ProvisioningWorker_def saved_def unflagged_def Let_def)
qed

text \<open>whoever asks for boot.cfg from an address that no host has on record, over either
  transport and without credentials, leaves a new row behind, a host without any address.\<close>

theorem unknown_client_adds_host:
  assumes "table_laws tb h_ID (\<lambda>k h. h\<lparr>h_ID := k\<rparr>)" and "host_by_ip senv (host_part raddr) = Inl e"
    and "hs = snd (readHandler senv raddr laddr ''boot.cfg'') \<or> hs = snd (Files senv raddr laddr ''/boot.cfg'')"
    and "tb_Save tb db (at_stage zero_host 15 ''installation'') = Inr (row, db')"
  shows "\<exists>k. tb_First tb db k = Inl ErrRecordNotFound \<and> tb_First tb (foldl (saved tb) db hs) k = Inr row
    \<and> h_IP row = [] \<and> h_Mac row = [] \<and> h_Progress row = 15"
proof -
  have "hs = [at_stage zero_host 15 ''installation'']"
    using assms(2,3)
    by (auto simp: readHandler_def Files_def tftp_serveBootCfg_def uefi_serveBootCfg_def host_for_def Let_def
        split: sum.splits option.splits)
  then have db': "foldl (saved tb) db hs = db'" using assms(4) by (simp add: saved_def)
  have "h_ID (at_stage zero_host 15 ''installation'') = 0" by (simp add: zero_host_def)
  then show ?thesis
    using table_lawsD(6) [OF assms(1,4)] db' unfolding created_def
    by (auto simp: at_stage_def zero_host_def)
qed

subsection \<open>The properties at work\<close>

definition example_callback :: callback_env where
  "example_callback = \<lparr>cb_marshal = (\<lambda>h. Some (h_Hostname h)), cb_request = (\<lambda>_. True)\<rparr>"

text \<open>The database of the examples: the first host is the only one that boots.\<close>

definition example_env :: "host list ks_env" where
  "example_env = example_ks\<lparr>ke_find := \<lambda>st ip. case tb_First ks_hosts st 1 of
     Inl e \<Rightarrow> Inl e | Inr h \<Rightarrow> if h_IP h = ip then Inr h else Inl ErrRecordNotFound\<rparr>"

lemma example_env_laws: "ks_laws ks_hosts example_env"
proof -
  have tl: "table_laws ks_hosts h_ID (\<lambda>k h. h\<lparr>h_ID := k\<rparr>)"
    unfolding ks_hosts_def by (rule list_table_laws) simp
  show ?thesis
    unfolding example_env_def
    by (rule example_laws) (use table_lawsD(1) [OF tl, of _ 1] in \<open>auto split: sum.splits if_splits\<close>)
qed

definition installing :: host where
  "installing = (ks_host [])\<lparr>h_Mac := HW_String [0, 80, 86, 170, 11, 1]\<rparr>"

definition before_boot :: "host list install" where
  "before_boot = \<lparr>in_db = [installing], in_jobs = []\<rparr>"

lemma installing_found:
  "ke_find example_env (in_db before_boot) (host_part ''10.0.0.7:4021'') = Inr installing"
  by (simp add: example_env_def before_boot_def ks_hosts_def list_table_def installing_def ks_host_def ks_remote Let_def)


theorem no_reinstall_loop_witness:
  "\<exists>denv mac (h :: host). findHostByMAC denv mac = Inl (NotFlagged (h_Hostname h)) \<and> h_IP h = ''10.0.0.7''"
proof -
  let ?h = "installing\<lparr>h_Reimage := False\<rparr>"
  let ?denv = "\<lparr>find_by_mac = (\<lambda>_. Inr ?h), load_host = (\<lambda>_. Inr ?h), unicode_lower = (\<lambda>s. s), map_order = (\<lambda>k. k)\<rparr>"
  let ?s = "\<lparr>in_db = [?h], in_jobs = []\<rparr>"
  have row: "tb_First ks_hosts (in_db ?s) 1 = Inr ?h"
    by (simp add: ks_hosts_def list_table_def installing_def ks_host_def Let_def)
  then have "settled ks_hosts 1 ?s" by (simp add: settled_def unflagged_def)
  from no_reinstall_loop [OF example_env_laws this install_run.start, of ?denv "''x''" ?h] row
  show ?thesis
    by (intro exI [of _ ?denv] exI [of _ "''x''"] exI [of _ ?h] conjI) (simp_all add: installing_def ks_host_def)
qed

theorem worker_overwrites_witness:
  "\<exists>job db'. fst (ProvisioningWorker ks_hosts example_callback [installing\<lparr>h_Reimage := True\<rparr>] job) = db'
    \<and> tb_First ks_hosts db' 1 = Inr (job\<lparr>h_Progress := 100, h_Progresstext := ''completed''\<rparr>) \<and> \<not> h_Reimage job"
proof -
  let ?job = "installing\<lparr>h_Reimage := False\<rparr>"
  have "PostConfig example_env [?job] ''10.0.0.7:4021'' = (JSON 200 ?job, Some ?job)"
    by (simp add: PostConfig_def example_env_def ks_hosts_def list_table_def installing_def ks_host_def ks_remote Let_def)
  moreover have "tb_Save ks_hosts [installing\<lparr>h_Reimage := True\<rparr>] (at_stage ?job 100 ''completed'')
      = Inr (at_stage ?job 100 ''completed'', [at_stage ?job 100 ''completed''])"
    by (simp add: ks_hosts_def list_table_def installing_def ks_host_def Let_def)
  ultimately show ?thesis
    using worker_overwrites [OF example_env_laws, of "[?job]" "''10.0.0.7:4021''" _ ?job "[installing\<lparr>h_Reimage := True\<rparr>]"]
    by (intro exI [of _ ?job]) (auto simp: installing_def ks_host_def)
qed

theorem unknown_client_adds_host_witness:
  "\<exists>(row :: host) hs. hs = snd (readHandler example_serve ''10.9.9.9:4011'' [] ''boot.cfg'')
     \<and> tb_First ks_hosts (foldl (saved ks_hosts) [] hs) 1 = Inr row \<and> h_IP row = []"
proof -
  have tl: "table_laws ks_hosts h_ID (\<lambda>k h. h\<lparr>h_ID := k\<rparr>)"
    unfolding ks_hosts_def by (rule list_table_laws) simp
  let ?row = "(at_stage zero_host 15 ''installation'')\<lparr>h_ID := 1\<rparr>"
  have save: "tb_Save ks_hosts [] (at_stage zero_host 15 ''installation'') = Inr (?row, [?row])"
    by (simp add: ks_hosts_def list_table_def zero_host_def Let_def)
  have "host_by_ip example_serve (host_part ''10.9.9.9:4011'') = Inl ErrRecordNotFound"
    by (simp add: example_serve_def)
  from unknown_client_adds_host [OF tl this _ save] obtain k where
    "tb_First ks_hosts (foldl (saved ks_hosts) [] (snd (readHandler example_serve ''10.9.9.9:4011'' [] ''boot.cfg''))) k = Inr ?row"
    "h_IP ?row = []" by blast
  moreover from this have "k = 1" using table_lawsD(1) [OF tl] by fastforce
  ultimately show ?thesis by blast
qed

end
