(* ===== verification/Go_Sha256.thy ===== *)
theory Go_Sha256
  imports Go_Strings
begin

section \<open>Go's crypto/sha256\<close>

text \<open>
  The hash of FIPS 180-4 over bytes, on 32-bit words: padding, message schedule and compression,
  as \<^verbatim>\<open>sha256.New\<close>, \<^verbatim>\<open>Write\<close> and \<^verbatim>\<open>Sum\<close> compute it.
\<close>

unbundle bit_operations_syntax

text \<open>The constants are the first 32 bits of the fractional parts of roots of the first primes. A root
  scaled by \<open>2^32\<close> is found bit by bit, from the highest of a number below \<open>2^37\<close>.\<close>

definition first_primes :: "int list" where
  "first_primes = filter (\<lambda>n. list_all (\<lambda>d. n mod d \<noteq> 0) [2..n - 1]) [2..311]"

definition scaled_root :: "nat \<Rightarrow> int \<Rightarrow> int" where
  "scaled_root k p =
     foldl (\<lambda>x i. if (x + 2 ^ i) ^ k \<le> p * 2 ^ (32 * k) then x + 2 ^ i else x) 0 (rev [0..<37])"

definition sha_K :: "32 word list" where
  "sha_K = map (\<lambda>p. of_int (scaled_root 3 p)) first_primes"

definition sha_H :: "32 word list" where
  "sha_H = map (\<lambda>p. of_int (scaled_root 2 p)) [2, 3, 5, 7, 11, 13, 17, 19]"

definition rotr32 :: "nat \<Rightarrow> 32 word \<Rightarrow> 32 word" where
  "rotr32 n x = (drop_bit n x) OR (push_bit (32 - n) x)"

definition small0 :: "32 word \<Rightarrow> 32 word" where
  "small0 x = rotr32 7 x XOR rotr32 18 x XOR drop_bit 3 x"

definition small1 :: "32 word \<Rightarrow> 32 word" where
  "small1 x = rotr32 17 x XOR rotr32 19 x XOR drop_bit 10 x"

definition big0 :: "32 word \<Rightarrow> 32 word" where
  "big0 x = rotr32 2 x XOR rotr32 13 x XOR rotr32 22 x"

definition big1 :: "32 word \<Rightarrow> 32 word" where
  "big1 x = rotr32 6 x XOR rotr32 11 x XOR rotr32 25 x"

text \<open>The message schedule, latest word first.\<close>

fun schedule :: "nat \<Rightarrow> 32 word list \<Rightarrow> 32 word list" where
  "schedule 0 ws = ws"
| "schedule (Suc n) ws =
     schedule n ((small1 (ws ! 1) + ws ! 6 + small0 (ws ! 14) + ws ! 15) # ws)"

fun sha_round :: "32 word list \<Rightarrow> 32 word \<times> 32 word \<Rightarrow> 32 word list" where
  "sha_round [a, b, c, d, e, f, g, h] (k, w) =
     (let t1 = h + big1 e + ((e AND f) XOR (NOT e AND g)) + k + w;
          t2 = big0 a + ((a AND b) XOR (a AND c) XOR (b AND c))
      in [t1 + t2, a, b, c, d + t1, e, f, g])"
| "sha_round s _ = s"

definition compress :: "32 word list \<Rightarrow> 32 word list \<Rightarrow> 32 word list" where
  "compress hs block = map2 (+) hs (foldl sha_round hs (zip sha_K (rev (schedule 48 (rev block)))))"

fun words_of :: "bytes \<Rightarrow> 32 word list" where
  "words_of (a # b # c # d # bs) =
     (push_bit 24 (ucast a) OR push_bit 16 (ucast b) OR push_bit 8 (ucast c) OR ucast d) # words_of bs"
| "words_of _ = []"

definition sha_pad :: "bytes \<Rightarrow> bytes" where
  "sha_pad msg =
     (let l = length msg
      in msg @ 0x80 # replicate ((119 - l mod 64) mod 64) 0
         @ map (\<lambda>i. of_int (8 * int l div 256 ^ i)) [7, 6, 5, 4, 3, 2, 1, 0])"

function sha_blocks :: "32 word list \<Rightarrow> 32 word list \<Rightarrow> 32 word list" where
  "sha_blocks hs ws = (if ws = [] then hs else sha_blocks (compress hs (take 16 ws)) (drop 16 ws))"
  by pat_completeness auto
termination
  by (relation "measure (\<lambda>(hs, ws). length ws)") auto

declare sha_blocks.simps [simp del]

definition Sum256 :: "bytes \<Rightarrow> bytes" where
  "Sum256 msg =
     concat (map (\<lambda>w. [ucast (drop_bit 24 w), ucast (drop_bit 16 w), ucast (drop_bit 8 w), ucast w])
       (sha_blocks sha_H (words_of (sha_pad msg))))"

subsection \<open>Shape\<close>

lemma length_8_cases: "length s = 8 \<Longrightarrow> \<exists>a b c d e f g h. s = [a, b, c, d, e, f, g, h]"
  by (auto simp: numeral_eq_Suc length_Suc_conv)

lemma sha_round_length: "length s = 8 \<Longrightarrow> length (sha_round s kw) = 8"
  by (cases kw) (auto dest!: length_8_cases simp: Let_def)

lemma compress_length: "length hs = 8 \<Longrightarrow> length (compress hs block) = 8"
proof -
  have "length hs = 8 \<Longrightarrow> length (foldl sha_round hs ks) = 8" for ks and hs :: "32 word list"
    by (induction ks arbitrary: hs) (simp_all add: sha_round_length)
  then show "length hs = 8 \<Longrightarrow> length (compress hs block) = 8" by (simp add: compress_def)
qed

lemma sha_blocks_length: "length hs = 8 \<Longrightarrow> length (sha_blocks hs ws) = 8"
  by (induction hs ws rule: sha_blocks.induct) (subst sha_blocks.simps, simp add: compress_length)

lemma Sum256_length: "length (Sum256 msg) = 32"
proof -
  have "length (sha_blocks sha_H ws) = 8" for ws by (rule sha_blocks_length) (simp add: sha_H_def)
  then show ?thesis by (simp add: Sum256_def length_concat comp_def sum_list_triv)
qed

end
