(* ===== verification/Images.thy ===== *)
theory Images
  imports Boot Crud Go_Sha256 Go_Net "HOL-Library.Signed_Division"
begin

section \<open>Installation images: internal/api/image.go\<close>

text \<open>
  Uploading, changing and deleting an image. The file system is reached through calls whose
  results are an environment; the calls a handler makes that may change it are listed in order. \<^verbatim>\<open>Filename\<close> is what the multipart reader of the standard library gives: the base
  name of what the client sent. Extraction is a library's.
\<close>

subsection \<open>Paths\<close>

text \<open>\<^verbatim>\<open>path.Join\<close>, \<^verbatim>\<open>filepath.Base\<close>, \<^verbatim>\<open>filepath.Ext\<close> and \<^verbatim>\<open>filepath.Dir\<close>.\<close>

definition path_Join :: "string list \<Rightarrow> string" where
  "path_Join es =
     (case filter (\<lambda>e. e \<noteq> []) es of [] \<Rightarrow> [] | e # es \<Rightarrow> Clean (Join (e # es) ''/''))"

definition path_Base :: "string \<Rightarrow> string" where
  "path_Base p =
     (if p = [] then ''.''
      else
        (let q = rev (dropWhile (\<lambda>c. c = CHR ''/'') (rev p));
             f = (case split_last (CHR ''/'') q of None \<Rightarrow> q | Some (d, f) \<Rightarrow> f)
         in if f = [] then ''/'' else f))"

definition path_Ext :: "string \<Rightarrow> string" where
  "path_Ext p =
     (let f = (case split_last (CHR ''/'') p of None \<Rightarrow> p | Some (d, f) \<Rightarrow> f)
      in case split_last (CHR ''.'') f of None \<Rightarrow> [] | Some (s, e) \<Rightarrow> CHR ''.'' # e)"

definition path_Dir :: "string \<Rightarrow> string" where
  "path_Dir p = Clean (case split_last (CHR ''/'') p of None \<Rightarrow> [] | Some (d, f) \<Rightarrow> d @ ''/'')"

subsection \<open>The file system\<close>

datatype fs_op = MkdirAll string | CreateFile string | Extract string string | Remove string | RemoveAll string

record image_env =
  mkdir_ok :: "string \<Rightarrow> bool"
  open_upload_ok :: bool
  create_ok :: "string \<Rightarrow> bool"
  copy_ok :: bool
  content :: "string \<Rightarrow> bytes option"
  reopen_ok :: bool
  extract_ok :: "string \<Rightarrow> string \<Rightarrow> bool"
  remove_all_ok :: "string \<Rightarrow> bool"
  walk :: "string \<Rightarrow> (int \<times> bool) option list"

text \<open>\<^verbatim>\<open>SaveUploadedFile\<close>: whether it succeeds, and what it did. Reading a file back for its hash
  is \<open>content\<close>, \<open>None\<close> for an error of the open, the copy or the close; opening it for extraction
  is \<open>reopen_ok\<close>.\<close>

definition SaveUploadedFile :: "image_env \<Rightarrow> string \<Rightarrow> bool \<times> fs_op list" where
  "SaveUploadedFile env dst =
     (if \<not> open_upload_ok env then (False, [])
      else if \<not> create_ok env dst then (False, [CreateFile dst])
      else (copy_ok env, [CreateFile dst]))"

text \<open>\<^verbatim>\<open>dirSize\<close> over the entries of a walk, each an error or a size and whether it is a directory:
  the sum of the files up to the first error, in whole mebibytes as a 64-bit number, and
  whether there was one.\<close>

fun walk_sum :: "64 word \<Rightarrow> (int \<times> bool) option list \<Rightarrow> 64 word \<times> bool" where
  "walk_sum acc [] = (acc, True)"
| "walk_sum acc (None # es) = (acc, False)"
| "walk_sum acc (Some (n, is_dir) # es) =
     walk_sum (if is_dir then acc else acc + of_int n) es"

definition dirSize :: "(int \<times> bool) option list \<Rightarrow> int \<times> bool" where
  "dirSize es =
     (case walk_sum 0 es of (acc, ok) \<Rightarrow> (sint acc sdiv 1024 sdiv 1024, ok))"

subsection \<open>Requests\<close>

record upload =
  Filename :: string
  form_hash :: string
  form_description :: string

definition ListImages :: "('st, image) table \<Rightarrow> 'st \<Rightarrow> image list reply" where
  "ListImages tb st = crud_List tb st"

definition GetImage :: "('st, image) table \<Rightarrow> 'st \<Rightarrow> string \<Rightarrow> image reply" where
  "GetImage tb st param = crud_Get tb st param"

text \<open>Where an upload is stored, and where its image is extracted to.\<close>

definition upload_path :: "string \<Rightarrow> string" where
  "upload_path filename = path_Join [''.'', ''images'', filename]"

definition image_path :: "string \<Rightarrow> string" where
  "image_path filename = path_Join [''.'', ''images'', TrimSuffix filename (path_Ext filename)]"

text \<open>One file of an upload: the reply, what was done to the file system, and the table. The loop
  goes on after a row was stored and ends with any error.\<close>

definition create_image ::
    "('st, image) table \<Rightarrow> image_env \<Rightarrow> 'st \<Rightarrow> upload \<Rightarrow> image reply \<times> fs_op list \<times> 'st" where
  "create_image tb env st file =
     (let filename = Filename file;
          item = zero_image\<lparr>i_ISOImage := path_Base filename, i_Path := upload_path filename,
                   i_Hash := form_hash file, i_Description := form_description file\<rparr>;
          dir = MkdirAll (path_Dir (i_Path item))
      in if \<not> mkdir_ok env (path_Dir (i_Path item)) then (Error 500 (Invalid ''mkdir''), [dir], st)
         else
           (case SaveUploadedFile env (i_Path item) of
              (False, ops) \<Rightarrow> (Error 500 (Invalid ''upload''), dir # ops, st)
            | (True, ops) \<Rightarrow>
                (case (if i_Hash item = [] then None
                       else
                         (case content env (i_Path item) of
                            None \<Rightarrow> Some (Error 500 (Invalid ''read''), [])
                          | Some bs \<Rightarrow>
                              if hex_EncodeToString (Sum256 bs) \<noteq> i_Hash item
                              then Some (Error 400 (Invalid ''hash was invalid''), [Remove (i_Path item)])
                              else None)) of
                   Some (r, cleanup) \<Rightarrow> (r, dir # ops @ cleanup, st)
                 | None \<Rightarrow>
                     if \<not> reopen_ok env then (Error 500 (Invalid ''open''), dir # ops, st)
                     else
                       (let fp = image_path filename;
                            ops = dir # ops @ [Extract (i_Path item) fp]
                        in if \<not> extract_ok env (i_Path item) fp
                           then (Error 500 (Invalid ''failed to extract image''), ops, st)
                           else
                             (let ops = ops @ [Remove (i_Path item)];
                                  item = item\<lparr>i_Path := fp, i_Size := fst (dirSize (walk env fp))\<rparr>
                              in case tb_Create tb st item of
                                   Inl e \<Rightarrow> (Error 500 (DBFailure e), ops, st)
                                 | Inr (item, st) \<Rightarrow> (JSON 200 item, ops, st))))))"

fun create_images ::
    "('st, image) table \<Rightarrow> image_env \<Rightarrow> 'st \<Rightarrow> upload list \<Rightarrow> image reply list \<times> fs_op list \<times> 'st" where
  "create_images tb env st [] = ([], [], st)"
| "create_images tb env st (file # files) =
     (case create_image tb env st file of
        (JSON s item, ops, st) \<Rightarrow>
          (case create_images tb env st files of (rs, ops', st) \<Rightarrow> (JSON s item # rs, ops @ ops', st))
      | (r, ops, st) \<Rightarrow> ([r], ops, st))"

text \<open>\<^verbatim>\<open>CreateImage\<close> on the files of the form, or the error of reading the form. With no file at all
  there is no reply.\<close>

definition CreateImage ::
    "('st, image) table \<Rightarrow> image_env \<Rightarrow> 'st \<Rightarrow> string + upload list
     \<Rightarrow> image reply list \<times> fs_op list \<times> 'st" where
  "CreateImage tb env st form =
     (case form of
        Inl e \<Rightarrow> ([Error 500 (Invalid e)], [], st)
      | Inr files \<Rightarrow> create_images tb env st files)"

definition UpdateImage ::
    "('st, image) table \<Rightarrow> (image \<Rightarrow> image \<Rightarrow> string + image) \<Rightarrow> 'st \<Rightarrow> string \<Rightarrow> image bound
     \<Rightarrow> image reply \<times> 'st" where
  "UpdateImage tb merge st param body = crud_Update tb merge (\<lambda>f. f\<lparr>i_ID := 0\<rparr>) st param body"

text \<open>\<^verbatim>\<open>DeleteImage\<close>. The query for a group that uses the image leaves the zero group when it finds
  none or fails. The conflict is not an error reply but a message of its own.\<close>

definition in_use :: "image reply" where
  "in_use = Error 409 (Invalid ''the image is being used by groups'')"

definition DeleteImage ::
    "('st, image) table \<Rightarrow> ('st \<Rightarrow> int \<Rightarrow> db_error + group) \<Rightarrow> image_env \<Rightarrow> 'st \<Rightarrow> string
     \<Rightarrow> image reply \<times> fs_op list \<times> 'st" where
  "DeleteImage tb group_using env st param =
     (case pathID param of
        Inl e \<Rightarrow> (Error 400 e, [], st)
      | Inr i \<Rightarrow>
          (case load tb st i of
             Inl r \<Rightarrow> (r, [], st)
           | Inr item \<Rightarrow>
               (let g = (case group_using st (i_ID item) of Inl e \<Rightarrow> zero_group | Inr g \<Rightarrow> g)
                in if g_Name g \<noteq> [] then (in_use, [], st)
                   else if \<not> remove_all_ok env (i_Path item)
                   then (Error 500 (Invalid ''remove''), [RemoveAll (i_Path item)], st)
                   else
                     (case tb_Delete tb st item of
                        Inl e \<Rightarrow> (Error 500 (DBFailure e), [RemoveAll (i_Path item)], st)
                      | Inr st \<Rightarrow> (NoContent, [RemoveAll (i_Path item)], st)))))"

subsection \<open>Helpers of other handlers\<close>

text \<open>\<^verbatim>\<open>WriteToFile\<close>: whether it succeeds, given the results of the write and of the sync.\<close>

definition WriteToFile :: "image_env \<Rightarrow> bool \<Rightarrow> bool \<Rightarrow> string \<Rightarrow> bool \<times> fs_op list" where
  "WriteToFile env write_ok sync_ok filename =
     (if \<not> create_ok env filename then (False, [CreateFile filename])
      else (write_ok \<and> sync_ok, [CreateFile filename]))"

text \<open>\<^verbatim>\<open>GetInterfaceIpv4Addr\<close> on the addresses of the interface, \<open>None\<close> where a query fails: the
  first one that is IPv4.\<close>

fun first_v4 :: "bytes list \<Rightarrow> bytes" where
  "first_v4 [] = []"
| "first_v4 (ip # ips) = (if To4 ip \<noteq> [] then To4 ip else first_v4 ips)"

definition GetInterfaceIpv4Addr :: "bytes list option \<Rightarrow> string option" where
  "GetInterfaceIpv4Addr addrs =
     (case addrs of
        None \<Rightarrow> None
      | Some ips \<Rightarrow> (let ip = first_v4 ips in if ip = [] then None else Some (dotted ip)))"

text \<open>Merging an update: \<^verbatim>\<open>mergo\<close> with override, each field of the form that is not zero.\<close>

definition override_image :: "image \<Rightarrow> image \<Rightarrow> image" where
  "override_image d s =
     d\<lparr>i_ID := (if i_ID s = 0 then i_ID d else i_ID s),
       i_ISOImage := or_else (i_ISOImage s) (i_ISOImage d),
       i_Path := or_else (i_Path s) (i_Path d),
       i_Size := (if i_Size s = 0 then i_Size d else i_Size s),
       i_Hash := or_else (i_Hash s) (i_Hash d),
       i_Description := or_else (i_Description s) (i_Description d)\<rparr>"

subsection \<open>Facts\<close>

lemma clean_elems_plain:
  "\<forall>e \<in> set es. e \<notin> {[], ''.'', ''..''} \<Longrightarrow> clean_elems r acc es = rev acc @ es"
  by (induction es arbitrary: acc) auto

text \<open>A path of plain elements is clean already, with or without the current directory in front.\<close>

lemma Clean_images:
  assumes "\<forall>e \<in> set (''images'' # es). e \<notin> {[], ''.'', ''..''} \<and> CHR ''/'' \<notin> set e"
  shows "Clean (Join (''.'' # ''images'' # es) ''/'') = Join (''images'' # es) ''/''"
proof -
  have "Split (Join (''.'' # ''images'' # es) ''/'') (CHR ''/'') = ''.'' # ''images'' # es"
    using assms by (intro Split_Join) auto
  moreover have "clean_elems False [] (''.'' # ''images'' # es) = ''images'' # es"
    using clean_elems_plain [of "''images'' # es" False "[]"] assms by auto
  moreover have "hd (Join (''.'' # ''images'' # es) ''/'') = CHR ''.''" "Join (''.'' # ''images'' # es) ''/'' \<noteq> []"
    "Join (''images'' # es) ''/'' \<noteq> []"
    by (cases es; simp)+
  ultimately show ?thesis by (simp add: Clean_def Let_def)
qed

definition plain_name :: "string \<Rightarrow> bool" where
  "plain_name f \<longleftrightarrow> f \<notin> {[], ''.'', ''..''} \<and> CHR ''/'' \<notin> set f"

lemma join_images:
  assumes "plain_name f"
  shows "path_Join [''.'', ''images'', f] = ''images/'' @ f"
  using Clean_images [of "[f]"] assms by (simp add: path_Join_def plain_name_def)

lemma Base_plain: "plain_name f \<Longrightarrow> path_Base f = f"
proof -
  assume f: "plain_name f"
  then have "f \<noteq> []" "last f \<noteq> CHR ''/''" using last_in_set [of f] by (fastforce simp: plain_name_def)+
  then have "dropWhile (\<lambda>c. c = CHR ''/'') (rev f) = rev f" by (cases f rule: rev_cases) auto
  moreover have "split_last (CHR ''/'') f = None" using f by (simp add: split_last_None plain_name_def)
  ultimately show ?thesis using \<open>f \<noteq> []\<close> by (simp add: path_Base_def Let_def)
qed

text \<open>A name and its extension.\<close>

lemma TrimSuffix_append: "TrimSuffix (s @ e) e = s"
  by (simp add: TrimSuffix_def strip_prefix_Some split: option.splits)
    (metis append_eq_append_conv option.distinct(1) rev_append rev_rev_ident strip_prefix_Some)

lemma path_Ext_name:
  assumes "CHR ''/'' \<notin> set s" and "CHR ''/'' \<notin> set e" and "CHR ''.'' \<notin> set e"
  shows "path_Ext (s @ CHR ''.'' # e) = CHR ''.'' # e"
proof -
  have "split_last (CHR ''/'') (s @ CHR ''.'' # e) = None" using assms by (simp add: split_last_None)
  moreover have "split_last (CHR ''.'') (s @ CHR ''.'' # e) = Some (s, e)" using assms by (simp add: split_last_Some)
  ultimately show ?thesis by (simp add: path_Ext_def)
qed

lemma image_path_stem:
  assumes "CHR ''/'' \<notin> set s" and "CHR ''/'' \<notin> set e" and "CHR ''.'' \<notin> set e"
  shows "image_path (s @ CHR ''.'' # e) = path_Join [''.'', ''images'', s]"
  using path_Ext_name [OF assms] TrimSuffix_append by (simp add: image_path_def)

lemma create_image_JSON:
  assumes "create_image tb env st file = (JSON s item, ops, st')"
  obtains new where
    "form_hash file = []
      \<or> (\<exists>bs. content env (upload_path (Filename file)) = Some bs \<and> form_hash file = hex_EncodeToString (Sum256 bs))"
    and "ops = [MkdirAll (path_Dir (upload_path (Filename file))), CreateFile (upload_path (Filename file)),
       Extract (upload_path (Filename file)) (image_path (Filename file)), Remove (upload_path (Filename file))]"
    and "new = zero_image\<lparr>i_ISOImage := path_Base (Filename file), i_Path := image_path (Filename file),
       i_Size := fst (dirSize (walk env (image_path (Filename file)))), i_Hash := form_hash file,
       i_Description := form_description file\<rparr>"
    and "tb_Create tb st new = Inr (item, st')" and "s = 200"
  using assms
  by (auto simp: create_image_def SaveUploadedFile_def Let_def zero_image_def
      split: if_splits option.splits sum.splits bool.splits)

lemma create_image_state:
  assumes "create_image tb env st file = (r, ops, st')"
  shows "(\<exists>s item. r = JSON s item) \<or> st' = st"
  using assms
  by (auto simp: create_image_def SaveUploadedFile_def Let_def zero_image_def
      split: if_splits option.splits sum.splits bool.splits)

subsection \<open>Properties\<close>

text \<open>C33: an image is stored only if no hash was sent or the hash sent is the SHA-256 of what arrived,
  in lower case hexadecimal; its row names the directory it was extracted to, and the upload is
  removed last. A wrong hash leaves no row, extracts nothing and removes the upload.\<close>

theorem uploaded_image:
  assumes "table_laws tb i_ID (\<lambda>k i. i\<lparr>i_ID := k\<rparr>)"
    and run: "create_image tb env st file = (r, ops, st')"
  shows "(case r of
       JSON s item \<Rightarrow>
         (i_Hash item = []
          \<or> Some (i_Hash item) = map_option (hex_EncodeToString \<circ> Sum256) (content env (upload_path (Filename file))))
         \<and> tb_First tb st' (i_ID item) = Inr item \<and> i_Path item = image_path (Filename file)
         \<and> last ops = Remove (upload_path (Filename file))
     | other \<Rightarrow> st' = st)
    \<and> (content env (upload_path (Filename file)) = Some bs \<and> form_hash file \<noteq> []
        \<and> form_hash file \<noteq> hex_EncodeToString (Sum256 bs)
        \<and> fst (SaveUploadedFile env (upload_path (Filename file)))
        \<and> mkdir_ok env (path_Dir (upload_path (Filename file))) \<longrightarrow>
      r = Error 400 (Invalid ''hash was invalid'') \<and> last ops = Remove (upload_path (Filename file))
      \<and> (\<forall>a b. Extract a b \<notin> set ops))"
proof (rule conjI)
  show "case r of
       JSON s item \<Rightarrow>
         (i_Hash item = []
          \<or> Some (i_Hash item) = map_option (hex_EncodeToString \<circ> Sum256) (content env (upload_path (Filename file))))
         \<and> tb_First tb st' (i_ID item) = Inr item \<and> i_Path item = image_path (Filename file)
         \<and> last ops = Remove (upload_path (Filename file))
     | other \<Rightarrow> st' = st"
  proof (cases "\<exists>s item. r = JSON s item")
    case True
    then obtain s item where r: "r = JSON s item" by blast
    show ?thesis
    proof (rule create_image_JSON [OF run [unfolded r]])
      fix new
      assume hash: "form_hash file = [] \<or> (\<exists>bs. content env (upload_path (Filename file)) = Some bs
            \<and> form_hash file = hex_EncodeToString (Sum256 bs))"
        and ops: "ops = [MkdirAll (path_Dir (upload_path (Filename file))), CreateFile (upload_path (Filename file)),
         Extract (upload_path (Filename file)) (image_path (Filename file)), Remove (upload_path (Filename file))]"
        and new: "new = zero_image\<lparr>i_ISOImage := path_Base (Filename file), i_Path := image_path (Filename file),
         i_Size := fst (dirSize (walk env (image_path (Filename file)))), i_Hash := form_hash file,
         i_Description := form_description file\<rparr>"
        and create: "tb_Create tb st new = Inr (item, st')"
      from table_lawsD(2) [OF assms(1) create]
      obtain k where "item = new\<lparr>i_ID := k\<rparr>" "tb_First tb st' k = Inr item" by blast
      then show ?thesis using hash ops new r by auto
    qed
  next
    case False
    then show ?thesis using create_image_state [OF run] by (simp split: reply.splits)
  qed
  show "content env (upload_path (Filename file)) = Some bs \<and> form_hash file \<noteq> []
        \<and> form_hash file \<noteq> hex_EncodeToString (Sum256 bs)
        \<and> fst (SaveUploadedFile env (upload_path (Filename file)))
        \<and> mkdir_ok env (path_Dir (upload_path (Filename file))) \<longrightarrow>
      r = Error 400 (Invalid ''hash was invalid'') \<and> last ops = Remove (upload_path (Filename file))
      \<and> (\<forall>a b. Extract a b \<notin> set ops)"
    using run by (auto simp: create_image_def SaveUploadedFile_def Let_def zero_image_def split: if_splits)
qed

text \<open>an upload named like a file with an extension is kept and extracted directly under the
  image directory; but a name that starts with the extension, or with two dots before it, has
  the image extracted into the image directory itself or into the working directory of the
  program, over whatever is there.\<close>

theorem image_paths:
  assumes "plain_name s" and "plain_name (s @ CHR ''.'' # e)" and "CHR ''/'' \<notin> set e" and "CHR ''.'' \<notin> set e"
  shows "upload_path (s @ CHR ''.'' # e) = ''images/'' @ s @ CHR ''.'' # e
    \<and> image_path (s @ CHR ''.'' # e) = ''images/'' @ s
    \<and> path_Base (s @ CHR ''.'' # e) = s @ CHR ''.'' # e
    \<and> image_path (CHR ''.'' # e) = ''images'' \<and> image_path (''..'' @ CHR ''.'' # e) = ''.''"
proof -
  have "path_Join [''.'', ''images'', []] = ''images''" "path_Join [''.'', ''images'', ''..''] = ''.''"
    by code_simp+
  then show ?thesis
    using join_images [OF assms(2)] join_images [OF assms(1)] Base_plain [OF assms(2)]
      image_path_stem [of s e] image_path_stem [of "[]" e] image_path_stem [of "''..''" e] assms
    by (simp add: upload_path_def plain_name_def)
qed

text \<open>an image is deleted exactly when it is on record, no group with a name uses it and its
  directory could be removed; then the row is gone and no other is touched. What is removed is
  the path of the row and nothing else, and every other reply leaves all rows as they were.\<close>

theorem deleted_image:
  assumes "table_laws tb i_ID with_key"
    and "DeleteImage tb group_using env st param = (r, ops, st')"
  shows "(if r = NoContent then
       \<exists>i item. pathID param = Inr i \<and> tb_First tb st i = Inr item \<and> ops = [RemoveAll (i_Path item)]
         \<and> (case group_using st i of Inr g \<Rightarrow> g_Name g = [] | Inl e \<Rightarrow> True)
         \<and> tb_First tb st' i = Inl ErrRecordNotFound
         \<and> (\<forall>k. k \<noteq> i \<longrightarrow> tb_First tb st' k = tb_First tb st k)
     else st' = st)
    \<and> (case pathID param of
         Inl e \<Rightarrow> ops = []
       | Inr i \<Rightarrow>
           (case tb_First tb st i of
              Inl e \<Rightarrow> ops = []
            | Inr item \<Rightarrow> (case group_using st i of
                Inr g \<Rightarrow> if g_Name g \<noteq> [] then ops = [] \<and> r = in_use else ops = [RemoveAll (i_Path item)]
              | Inl e \<Rightarrow> ops = [RemoveAll (i_Path item)])))"
proof (cases "pathID param")
  case (Inl e)
  then show ?thesis using assms(2) by (auto simp: DeleteImage_def)
next
  case (Inr i)
  note i = Inr
  show ?thesis
  proof (cases "tb_First tb st i")
    case (Inl e)
    then show ?thesis using assms(2) i by (auto simp: DeleteImage_def load_def split: db_error.splits)
  next
    case (Inr item)
    have key: "i_ID item = i" by (rule table_lawsD(1) [OF assms(1) Inr])
    have zero: "g_Name zero_group = []" by (simp add: zero_group_def)
    show ?thesis
      using assms(2) i Inr key zero table_lawsD(4) [OF assms(1), of st item]
      by (auto simp: DeleteImage_def load_def in_use_def split: sum.splits if_splits)
  qed
qed

text \<open>the path of an image is a field of the update form, and what deletion removes is the path on
  record: an account can have any directory named in an update removed with all its files.\<close>

theorem client_path_removed:
  assumes "table_laws tb i_ID with_key" and "int_fits 64 k"
    and update: "UpdateImage tb (\<lambda>d s. Inr (override_image d s)) st (Itoa k) (Inr form) = (JSON s item, st')"
    and path: "i_Path form \<noteq> []" and "group_using st' k = Inl ErrRecordNotFound"
  shows "fst (snd (DeleteImage tb group_using env st' (Itoa k))) = [RemoveAll (i_Path form)]"
proof -
  from crud_Update_JSON [OF update [unfolded UpdateImage_def]] pathID_Itoa [OF assms(2)]
  obtain old where old: "tb_First tb st k = Inr old"
      and saved: "tb_Save tb st (override_image old (form\<lparr>i_ID := 0\<rparr>)) = Inr (item, st')"
    by auto
  have same: "i_ID (override_image old (form\<lparr>i_ID := 0\<rparr>)) = i_ID old"
    by (simp add: override_image_def or_else_def)
  note stored = table_saved(2,3) [OF assms(1) old saved same]
  then have "i_ID item = k \<and> tb_First tb st' k = Inr (override_image old (form\<lparr>i_ID := 0\<rparr>))" 
    using table_saved(1) [OF assms(1) old saved same] by simp
  moreover have "i_Path (override_image old (form\<lparr>i_ID := 0\<rparr>)) = i_Path form"
    using path by (simp add: override_image_def or_else_def)
  ultimately show ?thesis
    using stored assms(5) by (simp add: DeleteImage_def pathID_Itoa [OF assms(2)] load_def zero_group_def split: sum.splits)
qed

subsection \<open>Witnesses\<close>

definition example_images :: "(image list, image) table" where
  "example_images = list_table i_ID (\<lambda>k a. a\<lparr>i_ID := k\<rparr>)"

lemma example_images_laws: "table_laws example_images i_ID (\<lambda>k a. a\<lparr>i_ID := k\<rparr>)"
  unfolding example_images_def by (rule list_table_laws) simp

definition example_image :: image where
  "example_image = zero_image\<lparr>i_ID := 1, i_Path := ''images/esx''\<rparr>"

definition example_image_env :: image_env where
  "example_image_env = \<lparr>mkdir_ok = (\<lambda>_. True), open_upload_ok = True, create_ok = (\<lambda>_. True), copy_ok = True,
     content = (\<lambda>_. Some [1, 2]), reopen_ok = True, extract_ok = (\<lambda>_ _. True), remove_all_ok = (\<lambda>_. True),
     walk = (\<lambda>_. [Some (3000000, False)])\<rparr>"

definition example_upload :: upload where
  "example_upload = \<lparr>Filename = ''esx.iso'', form_hash = [], form_description = []\<rparr>"

theorem uploaded_image_witness:
  "\<exists>(item :: image) st'. fst (create_image example_images example_image_env [] example_upload) = JSON 200 item
     \<and> tb_First example_images st' (i_ID item) = Inr item \<and> i_Path item = image_path ''esx.iso''"
proof -
  obtain item ops st' where run:
    "create_image example_images example_image_env [] example_upload = (JSON 200 item, ops, st')"
    by (simp add: create_image_def SaveUploadedFile_def example_image_env_def example_upload_def example_images_def
        list_table_def zero_image_def Let_def)
  from uploaded_image [OF example_images_laws run] show ?thesis
    by (intro exI [of _ item] exI [of _ st']) (simp add: run, simp add: example_upload_def)
qed

theorem image_paths_witness:
  "upload_path ''esx.iso'' = ''images/esx.iso'' \<and> image_path ''esx.iso'' = ''images/esx'' \<and> image_path ''.iso'' = ''images''
    \<and> image_path ''...iso'' = ''.''"
  using image_paths [of "''esx''" "''iso''"] by (simp add: plain_name_def)

theorem deleted_image_witness:
  "\<exists>st'. DeleteImage example_images (\<lambda>_ _. Inl ErrRecordNotFound) example_image_env [example_image] (Itoa 1)
       = (NoContent, [RemoveAll ''images/esx''], st')
     \<and> tb_First example_images st' 1 = Inl ErrRecordNotFound"
proof -
  have one: "pathID (Itoa 1) = Inr 1" by (rule pathID_Itoa) (simp add: int_fits_def)
  obtain st' where run: "DeleteImage example_images (\<lambda>_ _. Inl ErrRecordNotFound) example_image_env [example_image] (Itoa 1)
      = (NoContent, [RemoveAll ''images/esx''], st')"
    by (simp add: DeleteImage_def one load_def example_images_def list_table_def example_image_def example_image_env_def
        zero_group_def zero_image_def Let_def)
  from deleted_image [OF example_images_laws run] run one show ?thesis by auto
qed

theorem client_path_removed_witness:
  "\<exists>st'. fst (snd (DeleteImage example_images (\<lambda>_ _. Inl ErrRecordNotFound) example_image_env st' (Itoa 1)))
       = [RemoveAll ''/etc'']"
proof -
  have one: "pathID (Itoa 1) = Inr 1" by (rule pathID_Itoa) (simp add: int_fits_def)
  obtain item st' where "UpdateImage example_images (\<lambda>d s. Inr (override_image d s)) [example_image] (Itoa 1)
      (Inr (zero_image\<lparr>i_Path := ''/etc''\<rparr>)) = (JSON 200 item, st')"
    by (simp add: UpdateImage_def crud_Update_def one load_def example_images_def list_table_def example_image_def
        override_image_def or_else_def zero_image_def Let_def)
  from client_path_removed [OF example_images_laws _ this, of "\<lambda>_ _. Inl ErrRecordNotFound" example_image_env]
  show ?thesis by (intro exI [of _ st']) (simp add: int_fits_def)
qed

end
