(* ===== verification/Websockets.thy ===== *)
theory Websockets
  imports Via_Prelude "HOL-Library.Sublist"
begin

section \<open>The log stream: internal/websockets/main.go\<close>

text \<open>
  Log entries are offered to every connected browser and the last fifty are kept for those that
  connect later. The server's operations are functions; the goroutines of the connections and
  the logger interleave as the steps of \<open>log_step\<close>, one for each critical section or
  write. A slice that was copied out of the server is a value: appending to the history never
  writes inside the part a copy can see.
\<close>

subsection \<open>The server\<close>

type_synonym message = string

record subscriber =
  msgs :: "message list"
  slow :: bool

record log_server =
  subscriberMessageBuffer :: nat
  subscribers :: "nat \<rightharpoonup> subscriber"
  history :: "message list"

definition NewLogServer :: log_server where
  "NewLogServer = \<lparr>subscriberMessageBuffer = 16, subscribers = Map.empty, history = []\<rparr>"

text \<open>The non-blocking send on a subscriber's channel, \<open>slow\<close> recording that \<^verbatim>\<open>closeSlow\<close> was started.\<close>

definition offer :: "nat \<Rightarrow> message \<Rightarrow> subscriber \<Rightarrow> subscriber" where
  "offer cap json s =
     (if length (msgs s) < cap then s\<lparr>msgs := msgs s @ [json]\<rparr> else s\<lparr>slow := True\<rparr>)"

definition remember :: "message \<Rightarrow> message list \<Rightarrow> message list" where
  "remember json h = (if length h < 50 then h @ [json] else tl h @ [json])"

text \<open>\<^verbatim>\<open>Fire\<close> on what the formatter gives for the entry: the server and whether it succeeds.\<close>

definition Fire :: "log_server \<Rightarrow> message option \<Rightarrow> log_server \<times> bool" where
  "Fire ls formatted =
     (case formatted of
        None \<Rightarrow> (ls, False)
      | Some json \<Rightarrow>
          (ls\<lparr>subscribers := (\<lambda>c. map_option (offer (subscriberMessageBuffer ls) json) (subscribers ls c)),
              history := remember json (history ls)\<rparr>, True))"

datatype level = PanicLevel | FatalLevel | ErrorLevel | WarnLevel | InfoLevel | DebugLevel | TraceLevel

definition Levels :: "level list" where
  "Levels = [PanicLevel, FatalLevel, ErrorLevel, WarnLevel, InfoLevel]"

definition addSubscriber :: "log_server \<Rightarrow> nat \<Rightarrow> log_server" where
  "addSubscriber ls c = ls\<lparr>subscribers := (subscribers ls)(c \<mapsto> \<lparr>msgs = [], slow = False\<rparr>)\<rparr>"

definition deleteSubscriber :: "log_server \<Rightarrow> nat \<Rightarrow> log_server" where
  "deleteSubscriber ls c = ls\<lparr>subscribers := (subscribers ls)(c := None)\<rparr>"

text \<open>Taking a message off a subscriber's channel.\<close>

definition receive :: "log_server \<Rightarrow> nat \<Rightarrow> (message \<times> log_server) option" where
  "receive ls c =
     (case subscribers ls c of
        None \<Rightarrow> None
      | Some s \<Rightarrow>
          (case msgs s of
             [] \<Rightarrow> None
           | m # ms \<Rightarrow> Some (m, ls\<lparr>subscribers := (subscribers ls)(c \<mapsto> s\<lparr>msgs := ms\<rparr>)\<rparr>)))"

subsection \<open>One connection\<close>

text \<open>\<^verbatim>\<open>subscribe\<close> seen from its connection: the history is written first, then what each round of
  the select loop finds. The loop has no bound, so the result is \<open>None\<close> when it never returns.\<close>

datatype conn_error = ContextCanceled | WriteFailed int

datatype select_event = Msg message "int option" | Done

fun replay :: "(nat \<Rightarrow> int option) \<Rightarrow> nat \<Rightarrow> message list \<Rightarrow> message list \<times> conn_error option" where
  "replay wr i [] = ([], None)"
| "replay wr i (m # ms) =
     (case wr i of
        Some status \<Rightarrow> ([], Some (WriteFailed status))
      | None \<Rightarrow> (case replay wr (Suc i) ms of (sent, r) \<Rightarrow> (m # sent, r)))"

partial_function (option) select_loop ::
    "(nat \<Rightarrow> select_event) \<Rightarrow> nat \<Rightarrow> message list \<Rightarrow> (message list \<times> conn_error) option" where
  "select_loop events i sent =
     (case events i of
        Done \<Rightarrow> Some (sent, ContextCanceled)
      | Msg m r \<Rightarrow>
          (case r of
             Some status \<Rightarrow> Some (sent, WriteFailed status)
           | None \<Rightarrow> select_loop events (Suc i) (sent @ [m])))"

definition subscribe ::
    "(nat \<Rightarrow> int option) \<Rightarrow> (nat \<Rightarrow> select_event) \<Rightarrow> message list \<Rightarrow> (message list \<times> conn_error) option" where
  "subscribe wr events hist =
     (case replay wr 0 hist of
        (sent, Some e) \<Rightarrow> Some (sent, e)
      | (sent, None) \<Rightarrow> select_loop events 0 sent)"

text \<open>\<^verbatim>\<open>Handle\<close>: what it logs at the end, given whether the handshake succeeded and the error of
  \<^verbatim>\<open>subscribe\<close>. The statuses are those of a normal closure and of a peer going away.\<close>

definition Handle :: "bool \<Rightarrow> conn_error \<Rightarrow> string option" where
  "Handle accepted err =
     (if \<not> accepted then Some ''could not accept websocket''
      else
        (case err of
           ContextCanceled \<Rightarrow> None
         | WriteFailed status \<Rightarrow>
             if status = 1000 \<or> status = 1001 then None else Some ''websocket was closed unexpected''))"

subsection \<open>Everything together\<close>

datatype phase = Unconnected | Replaying "message list" | Streaming | Closed

record conn =
  phase :: phase
  written :: "message list"

record log_state =
  server :: log_server
  conns :: "nat \<Rightarrow> conn"
  logged :: "message list"

definition log_start :: log_state where
  "log_start = \<lparr>server = NewLogServer, conns = (\<lambda>c. \<lparr>phase = Unconnected, written = []\<rparr>), logged = []\<rparr>"

definition set_conn :: "log_state \<Rightarrow> nat \<Rightarrow> phase \<Rightarrow> message list \<Rightarrow> log_state" where
  "set_conn s c p w = s\<lparr>conns := (conns s)(c := \<lparr>phase = p, written = w\<rparr>)\<rparr>"

inductive log_step :: "log_state \<Rightarrow> log_state \<Rightarrow> bool" where
  fire: "log_step s (s\<lparr>server := fst (Fire (server s) (Some json)), logged := logged s @ [json]\<rparr>)"
| accept: "phase (conns s c) = Unconnected \<Longrightarrow>
    log_step s (set_conn s c (Replaying (history (server s))) [])"
| replayed: "phase (conns s c) = Replaying (m # ms) \<Longrightarrow>
    log_step s (set_conn s c (Replaying ms) (written (conns s c) @ [m]))"
| replay_failed: "phase (conns s c) = Replaying (m # ms) \<Longrightarrow>
    log_step s (set_conn s c Closed (written (conns s c)))"
| register: "phase (conns s c) = Replaying [] \<Longrightarrow>
    log_step s (set_conn (s\<lparr>server := addSubscriber (server s) c\<rparr>) c Streaming (written (conns s c)))"
| delivered: "phase (conns s c) = Streaming \<Longrightarrow> receive (server s) c = Some (m, ls) \<Longrightarrow>
    log_step s (set_conn (s\<lparr>server := ls\<rparr>) c Streaming (written (conns s c) @ [m]))"
| delivery_failed: "phase (conns s c) = Streaming \<Longrightarrow> receive (server s) c = Some (m, ls) \<Longrightarrow>
    log_step s (set_conn (s\<lparr>server := deleteSubscriber ls c\<rparr>) c Closed (written (conns s c)))"
| cancelled: "phase (conns s c) = Streaming \<Longrightarrow>
    log_step s (set_conn (s\<lparr>server := deleteSubscriber (server s) c\<rparr>) c Closed (written (conns s c)))"

inductive log_run :: "log_state \<Rightarrow> log_state \<Rightarrow> bool" where
  stop [intro]: "log_run s s"
| go [intro]: "log_run s t \<Longrightarrow> log_step t u \<Longrightarrow> log_run s u"

inductive_cases log_stepE: "log_step s t"

subsection \<open>Facts\<close>

lemma Fire_Some [simp]:
  "fst (Fire ls (Some json)) =
     ls\<lparr>subscribers := (\<lambda>c. map_option (offer (subscriberMessageBuffer ls) json) (subscribers ls c)),
        history := remember json (history ls)\<rparr>"
  by (simp add: Fire_def)

lemma set_conn_simps [simp]:
  "server (set_conn s c p w) = server s" "logged (set_conn s c p w) = logged s"
  "conns (set_conn s c p w) = (conns s)(c := \<lparr>phase = p, written = w\<rparr>)"
  by (simp_all add: set_conn_def)

lemma receive_Some:
  "receive ls c = Some (m, ls') \<longleftrightarrow>
     (\<exists>s ms. subscribers ls c = Some s \<and> msgs s = m # ms
       \<and> ls' = ls\<lparr>subscribers := (subscribers ls)(c \<mapsto> s\<lparr>msgs := ms\<rparr>)\<rparr>)"
  by (auto simp: receive_def split: option.splits list.splits)

lemmas server_simps = addSubscriber_def deleteSubscriber_def NewLogServer_def log_start_def

lemma length_offer: "length (msgs s) \<le> cap \<Longrightarrow> length (msgs (offer cap json s)) \<le> cap"
  by (simp add: offer_def)

text \<open>The history is the end of the log.\<close>

lemma remember_drop:
  "remember json (drop (length l - 50) l) = drop (length (l @ [json]) - 50) (l @ [json])"
proof (cases "length l < 50")
  case False
  then have "Suc (length l) - 50 = Suc (length l - 50)" by simp
  with False show ?thesis by (simp add: remember_def drop_Suc flip: tl_drop)
qed (simp add: remember_def)

text \<open>What a connection was or will be sent of what the log holds.\<close>

definition due :: "log_state \<Rightarrow> nat \<Rightarrow> message list" where
  "due s c =
     written (conns s c) @
     (case phase (conns s c) of
        Replaying ms \<Rightarrow> ms
      | Streaming \<Rightarrow> (case subscribers (server s) c of None \<Rightarrow> [] | Some sub \<Rightarrow> msgs sub)
      | other \<Rightarrow> [])"

definition server_ok :: "log_state \<Rightarrow> bool" where
  "server_ok s \<longleftrightarrow>
     subscriberMessageBuffer (server s) = 16
     \<and> history (server s) = drop (length (logged s) - 50) (logged s)
     \<and> (\<forall>c. (subscribers (server s) c \<noteq> None) = (phase (conns s c) = Streaming))
     \<and> (\<forall>c sub. subscribers (server s) c = Some sub \<longrightarrow> length (msgs sub) \<le> 16)"

lemma server_okD:
  assumes "server_ok s"
  shows "subscribers (server s) c = Some sub \<Longrightarrow> length (msgs sub) \<le> 16"
    and "subscribers (server s) c = Some sub \<Longrightarrow> phase (conns s c) = Streaming"
    and "phase (conns s c) = Streaming \<Longrightarrow> \<exists>sub. subscribers (server s) c = Some sub"
    and "phase (conns s c) \<noteq> Streaming \<Longrightarrow> subscribers (server s) c = None"
  using assms unfolding server_ok_def by (blast, auto)

lemma server_ok_start: "server_ok log_start"
  by (simp add: server_ok_def server_simps)

lemma server_ok_step:
  assumes "log_step s t" and "server_ok s"
  shows "server_ok t"
  using assms
proof (cases rule: log_step.cases)
  case (fire json)
  with assms(2) show ?thesis
    by (auto simp: server_ok_def remember_drop length_offer)
next
  case (delivered c m ls)
  then obtain sub ms where sub: "subscribers (server s) c = Some sub" "msgs sub = m # ms"
    "ls = (server s)\<lparr>subscribers := (subscribers (server s))(c \<mapsto> sub\<lparr>msgs := ms\<rparr>)\<rparr>"
    by (auto simp: receive_Some)
  then have "Suc (length ms) \<le> 16" using server_okD(1) [OF assms(2) sub(1)] by simp
  then show ?thesis using delivered sub assms(2) by (auto simp: server_ok_def)
qed (auto simp: server_ok_def server_simps receive_Some split: if_splits)

lemma server_ok_run: "log_run s t \<Longrightarrow> server_ok s \<Longrightarrow> server_ok t"
  by (induction rule: log_run.induct) (auto intro: server_ok_step)

lemma subseq_offer:
  assumes "subseq (w @ msgs sub) l"
  shows "subseq (w @ msgs (offer cap json sub)) (l @ [json])"
proof (cases "length (msgs sub) < cap")
  case True
  then show ?thesis using list_emb_append_mono [OF assms, of "[json]" "[json]"] by (simp add: offer_def)
next
  case False
  then show ?thesis using list_emb_append_mono [OF assms, of "[]" "[json]"] by (simp add: offer_def)
qed

text \<open>A step of one connection, which leaves the others and the log alone.\<close>

lemma due_change:
  assumes "\<forall>c. subseq (due s c) (logged s)" and "logged t = logged s"
    and "\<And>c'. c' \<noteq> c \<Longrightarrow> conns t c' = conns s c' \<and> subscribers (server t) c' = subscribers (server s) c'"
    and "due t c = due s c \<or> due t c = written (conns s c)"
  shows "\<forall>c. subseq (due t c) (logged t)"
proof
  fix c'
  have "subseq (written (conns s c)) (due s c)" by (simp add: due_def prefix_imp_subseq)
  then have "subseq (due t c) (due s c)" using assms(4) by auto
  moreover have "due t c' = due s c'" if "c' \<noteq> c" using assms(3) [OF that] by (simp add: due_def split: phase.splits)
  ultimately show "subseq (due t c') (logged t)"
    using assms(1,2) subseq_order.trans [of "due t c" "due s c" "logged s"] by (cases "c' = c") simp_all
qed

lemma due_step:
  assumes "log_step s t" and "server_ok s" and due: "\<forall>c. subseq (due s c) (logged s)"
  shows "\<forall>c. subseq (due t c) (logged t)"
  using assms(1)
proof (cases rule: log_step.cases)
  case (fire json)
  show ?thesis
  proof
    fix c
    have old: "subseq (due s c) (logged s)" using due ..
    show "subseq (due t c) (logged t)"
    proof (cases "phase (conns s c) = Streaming")
      case True
      then obtain sub where "subscribers (server s) c = Some sub" using server_okD(3) [OF assms(2)] by blast
      with True old fire show ?thesis by (simp add: due_def subseq_offer)
    next
      case False
      then have "due t c = due s c" using fire by (simp add: due_def split: phase.splits)
      then show ?thesis using fire old list_emb_append_mono [OF old, of "[]" "[json]"] by simp
    qed
  qed
next
  case (accept c)
  have "history (server s) = drop (length (logged s) - 50) (logged s)" using assms(2) by (simp add: server_ok_def)
  then have "subseq (history (server s)) (logged s)"
    using list_emb_append2 [of "(=)" "history (server s)" "drop (length (logged s) - 50) (logged s)"
        "take (length (logged s) - 50) (logged s)"] by simp
  moreover have "due t c' = (if c' = c then history (server s) else due s c')" for c'
    using accept by (simp add: due_def split: phase.splits)
  ultimately show ?thesis using accept due by simp
next
  case (replayed c m ms)
  then show ?thesis by (intro due_change [OF due, where c = c]) (simp_all add: due_def)
next
  case (replay_failed c m ms)
  then show ?thesis by (intro due_change [OF due, where c = c]) (simp_all add: due_def)
next
  case (register c)
  then show ?thesis by (intro due_change [OF due, where c = c]) (simp_all add: due_def addSubscriber_def)
next
  case (delivered c m ls)
  then show ?thesis by (intro due_change [OF due, where c = c]) (auto simp: due_def receive_Some)
next
  case (delivery_failed c m ls)
  then show ?thesis
    by (intro due_change [OF due, where c = c]) (auto simp: due_def deleteSubscriber_def receive_Some)
next
  case (cancelled c)
  then show ?thesis by (intro due_change [OF due, where c = c]) (simp_all add: due_def deleteSubscriber_def)
qed

lemma due_run: "log_run s t \<Longrightarrow> server_ok s \<Longrightarrow> \<forall>c. subseq (due s c) (logged s) \<Longrightarrow>
  \<forall>c. subseq (due t c) (logged t)"
proof (induction rule: log_run.induct)
  case (go s t u)
  then show ?case using due_step server_ok_run by blast
qed simp

text \<open>A registered connection, from a state on: closed, kicked, or still owed everything.\<close>

definition kept_up :: "log_state \<Rightarrow> nat \<Rightarrow> log_state \<Rightarrow> bool" where
  "kept_up s c t \<longleftrightarrow>
     phase (conns t c) = Closed
     \<or> phase (conns t c) = Streaming
       \<and> (\<exists>sub. subscribers (server t) c = Some sub
            \<and> (slow sub \<or> (\<exists>new. logged t = logged s @ new \<and> due t c = due s c @ new)))"

lemma kept_up_step:
  assumes "log_step t u" and "server_ok t" and "kept_up s c t"
  shows "kept_up s c u"
  using assms(1)
proof (cases rule: log_step.cases)
  case (fire json)
  show ?thesis
  proof (cases "phase (conns t c) = Closed")
    case True
    then show ?thesis using fire by (simp add: kept_up_def)
  next
    case False
    with assms(3) obtain sub where sub: "phase (conns t c) = Streaming" "subscribers (server t) c = Some sub"
      and old: "slow sub \<or> (\<exists>new. logged t = logged s @ new \<and> due t c = due s c @ new)"
      unfolding kept_up_def by blast
    let ?sub = "offer (subscriberMessageBuffer (server t)) json sub"
    have "slow ?sub \<or> (\<exists>new. logged u = logged s @ new \<and> due u c = due s c @ new)"
      using old fire sub by (auto simp: offer_def due_def)
    then show ?thesis using fire sub by (auto simp: kept_up_def)
  qed
qed (use assms(3) in \<open>auto simp: kept_up_def due_def receive_Some addSubscriber_def deleteSubscriber_def\<close>)

lemma kept_up_run: "log_run s t \<Longrightarrow> server_ok s \<Longrightarrow> phase (conns s c) = Streaming \<Longrightarrow> kept_up s c t"
proof (induction rule: log_run.induct)
  case (stop s)
  then show ?case using server_okD(3) [of s c] by (auto simp: kept_up_def)
next
  case (go s t u)
  then show ?case using kept_up_step server_ok_run by blast
qed

text \<open>Lists of writes and rounds.\<close>

lemma replay_None: "snd (replay wr i hist) = None \<longleftrightarrow> (\<forall>k < length hist. wr (i + k) = None)"
proof (induction wr i hist rule: replay.induct)
  case (2 wr i m ms)
  have "(\<forall>k < length (m # ms). wr (i + k) = None)
      \<longleftrightarrow> wr i = None \<and> (\<forall>k < length ms. wr (Suc i + k) = None)"
    by (simp add: All_less_Suc2)
  then show ?case using 2 by (cases "wr i"; cases "replay wr (Suc i) ms") simp_all
qed simp

lemma replay_sent: "snd (replay wr i hist) = None \<Longrightarrow> fst (replay wr i hist) = hist"
  by (induction wr i hist rule: replay.induct) (auto split: option.splits prod.splits)

fun ends :: "select_event \<Rightarrow> bool" where
  "ends Done = True"
| "ends (Msg m r) = (r \<noteq> None)"

fun message_of :: "select_event \<Rightarrow> message list" where
  "message_of Done = []"
| "message_of (Msg m r) = (if r = None then [m] else [])"

lemma select_loop_returns:
  assumes "ends (events (i + n))" and "\<forall>k < n. \<not> ends (events (i + k))"
  shows "\<exists>e. select_loop events i sent = Some (sent @ concat (map (\<lambda>k. message_of (events (i + k))) [0..<n]), e)"
  using assms
proof (induction n arbitrary: i sent)
  case 0
  then show ?case
    by (cases "events i") (auto simp: select_loop.simps [of events i sent])
next
  case (Suc n)
  have "\<not> ends (events i)" using Suc.prems(2) by force
  then obtain m where m: "events i = Msg m None" by (cases "events i") auto
  have "\<forall>k < n. \<not> ends (events (Suc i + k))" using Suc.prems(2) by auto
  moreover have "ends (events (Suc i + n))" using Suc.prems(1) by simp
  ultimately obtain e where "select_loop events (Suc i) (sent @ [m])
      = Some ((sent @ [m]) @ concat (map (\<lambda>k. message_of (events (Suc i + k))) [0..<n]), e)"
    using Suc.IH by blast
  moreover have "map (\<lambda>k. message_of (events (i + k))) [0..<Suc n]
      = [m] # map (\<lambda>k. message_of (events (Suc i + k))) [0..<n]"
    using m by (simp add: map_upt_Suc del: upt_Suc)
  ultimately show ?case using m by (simp add: select_loop.simps [of events i sent])
qed

lemma select_loop_ends:
  assumes "select_loop events i sent = Some r"
  shows "\<exists>k. ends (events k)"
proof (rule select_loop.raw_induct [where P = "\<lambda>events i sent r. \<exists>k. ends (events k)", OF _ assms])
  fix loop events i sent r
  assume IH: "\<And>events i sent r. loop events i sent = Some r \<Longrightarrow> \<exists>k. ends (events k)"
    and eq: "(case events i of Done \<Rightarrow> Some (sent, ContextCanceled)
       | Msg m r \<Rightarrow> (case r of Some status \<Rightarrow> Some (sent, WriteFailed status)
           | None \<Rightarrow> loop events (Suc i) (sent @ [m]))) = Some r"
  show "\<exists>k. ends (events k)"
  proof (cases "ends (events i)")
    case False
    then obtain m where "events i = Msg m None" by (cases "events i") auto
    with eq show ?thesis by (intro IH [of events "Suc i" "sent @ [m]" r]) simp
  qed blast
qed

subsection \<open>Properties\<close>

text \<open>C20: in every state the interleaved loggers and connections can reach, the history is exactly the
  last fifty entries logged, no queue holds more than sixteen messages, and the registered
  subscribers are the connections that are streaming.\<close>

theorem log_server_type:
  assumes "log_run log_start s"
  shows "let ls = server s in
      history ls = drop (length (logged s) - 50) (logged s) \<and> length (history ls) \<le> 50
      \<and> dom (subscribers ls) = {c. phase (conns s c) = Streaming}
      \<and> (\<forall>sub \<in> ran (subscribers ls). length (msgs sub) \<le> subscriberMessageBuffer ls)
      \<and> subscriberMessageBuffer ls = 16"
proof -
  have ok: "server_ok s" by (rule server_ok_run [OF assms server_ok_start])
  then have "dom (subscribers (server s)) = {c. phase (conns s c) = Streaming}"
    by (auto simp: server_ok_def)
  moreover have "\<forall>sub \<in> ran (subscribers (server s)). length (msgs sub) \<le> 16"
    using server_okD(1) [OF ok] by (auto simp: ran_def)
  moreover have "length (history (server s)) \<le> 50" using ok by (simp add: server_ok_def)
  ultimately show ?thesis using ok by (simp add: server_ok_def Let_def)
qed

text \<open>no browser sees a log entry twice or out of order: what was written to a connection is at all
  times a subsequence of the log, and so is what it is still owed appended to it.\<close>

theorem log_order:
  assumes "log_run log_start s"
  shows "subseq (due s c) (logged s) \<and> prefix (written (conns s c)) (due s c)"
proof -
  have "\<forall>c. subseq (due log_start c) (logged log_start)" by (simp add: due_def log_start_def)
  with due_run [OF assms server_ok_start] show ?thesis by (simp add: due_def)
qed

text \<open>C22: a browser that is streaming and is not kicked for being slow gets everything logged meanwhile,
  in order: what it was sent or is owed grows by exactly what the log grew by.\<close>

theorem streaming_loses_nothing:
  assumes "log_run log_start s" and "log_run s t" and "phase (conns s c) = Streaming"
    and "phase (conns t c) \<noteq> Closed" and "subscribers (server t) c = Some sub" and "\<not> slow sub"
  shows "\<exists>new. logged t = logged s @ new \<and> due t c = due s c @ new"
  using kept_up_run [OF assms(2) server_ok_run [OF assms(1) server_ok_start] assms(3)] assms(4-6)
  by (auto simp: kept_up_def)

text \<open>but an entry logged after the history was copied and before the browser is registered is in
  neither, and the browser never gets it although it is streaming and was never slow.\<close>

theorem log_gap:
  "\<exists>(s :: log_state). log_run log_start s \<and> logged s = [''entry''] \<and> phase (conns s 0) = Streaming
     \<and> subscribers (server s) 0 = Some \<lparr>msgs = [], slow = False\<rparr> \<and> due s 0 = []"
proof -
  let ?a = "set_conn log_start 0 (Replaying []) []"
  have "log_step log_start ?a"
    using log_step.accept [of log_start 0] by (simp add: log_start_def NewLogServer_def)
  then have a: "log_run log_start ?a" by blast
  let ?f = "?a\<lparr>server := fst (Fire (server ?a) (Some ''entry'')), logged := logged ?a @ [''entry'']\<rparr>"
  have f: "log_run log_start ?f" by (rule log_run.go [OF a log_step.fire])
  let ?r = "set_conn (?f\<lparr>server := addSubscriber (server ?f) 0\<rparr>) 0 Streaming (written (conns ?f 0))"
  have "log_run log_start ?r" by (rule log_run.go [OF f]) (rule log_step.register, simp)
  then show ?thesis
    by (intro exI [of _ ?r]) (simp add: due_def addSubscriber_def log_start_def)
qed

text \<open>C21: serving a connection returns exactly when a write of the history fails, the connection ends
  or a later write fails; when it is the \<open>n\<close>th round that ends it, the browser was sent the history
  and the messages of the rounds before, and nothing else.\<close>

theorem subscribe_returns:
  "((\<exists>r. subscribe wr events hist = Some r)
      \<longleftrightarrow> (\<exists>k < length hist. wr k \<noteq> None) \<or> (\<exists>k. ends (events k)))
   \<and> ((\<forall>k < length hist. wr k = None) \<and> ends (events n) \<and> (\<forall>k < n. \<not> ends (events k)) \<longrightarrow>
      (\<exists>e. subscribe wr events hist = Some (hist @ concat (map (\<lambda>k. message_of (events k)) [0..<n]), e)))"
proof (cases "snd (replay wr 0 hist)")
  case None
  then have wrs: "\<forall>k < length hist. wr k = None" and sent: "replay wr 0 hist = (hist, None)"
    using replay_None [of wr 0 hist] replay_sent [of wr 0 hist] by (auto simp: prod_eq_iff)
  then have loop: "subscribe wr events hist = select_loop events 0 hist" by (simp add: subscribe_def)
  have "\<exists>r. select_loop events 0 hist = Some r" if "ends (events k)" for k
  proof -
    define n where "n = (LEAST k. ends (events k))"
    have "ends (events n)" "\<forall>k < n. \<not> ends (events k)"
      unfolding n_def using that by (auto intro: LeastI dest: not_less_Least)
    then show ?thesis using select_loop_returns [of events 0 n hist] by auto
  qed
  then show ?thesis
    using wrs loop select_loop_ends [of events 0 hist] select_loop_returns [of events 0 n hist] by auto
next
  case (Some e)
  then have "\<not> (\<forall>k < length hist. wr k = None)" using replay_None [of wr 0 hist] by auto
  moreover have "\<exists>r. subscribe wr events hist = Some r"
    using Some by (cases "replay wr 0 hist") (simp add: subscribe_def)
  ultimately show ?thesis by auto
qed

subsection \<open>Witnesses\<close>

text \<open>One entry, then a browser that connects, gets it and registers.\<close>

theorem log_server_type_witness:
  "\<exists>(s :: log_state). log_run log_start s \<and> history (server s) = [''entry''] \<and> length (history (server s)) \<le> 50"
proof -
  let ?f = "log_start\<lparr>server := fst (Fire (server log_start) (Some ''entry'')), logged := logged log_start @ [''entry'']\<rparr>"
  have f: "log_run log_start ?f" using log_step.fire by blast
  with log_server_type [OF f] show ?thesis
    by (intro exI [of _ ?f]) (simp add: log_start_def NewLogServer_def remember_def Let_def)
qed

definition example_streaming :: log_state where
  "example_streaming =
     set_conn (log_start\<lparr>server := addSubscriber NewLogServer 0\<rparr>) 0 Streaming []"

lemma example_streaming_run: "log_run log_start example_streaming"
proof -
  let ?a = "set_conn log_start 0 (Replaying []) []"
  have "log_step log_start ?a"
    using log_step.accept [of log_start 0] by (simp add: log_start_def NewLogServer_def)
  then have "log_run log_start ?a" by blast
  moreover have "log_step ?a example_streaming"
    using log_step.register [of ?a 0] by (simp add: example_streaming_def log_start_def set_conn_def)
  ultimately show ?thesis by blast
qed

theorem log_order_witness: "subseq (due example_streaming 0) (logged example_streaming)"
  using log_order [OF example_streaming_run] by blast

theorem streaming_loses_nothing_witness:
  "\<exists>(t :: log_state). log_run example_streaming t \<and> logged t = [''entry''] \<and> due t 0 = [''entry'']"
proof -
  let ?t = "example_streaming\<lparr>server := fst (Fire (server example_streaming) (Some ''entry'')),
    logged := logged example_streaming @ [''entry'']\<rparr>"
  have run: "log_run example_streaming ?t" using log_step.fire by blast
  have log: "logged ?t = [''entry'']" "due example_streaming 0 = []" "logged example_streaming = []"
    by (simp_all add: example_streaming_def log_start_def due_def addSubscriber_def)
  have "\<exists>new. logged ?t = logged example_streaming @ new \<and> due ?t 0 = due example_streaming 0 @ new"
    by (rule streaming_loses_nothing [OF example_streaming_run run, where sub = "\<lparr>msgs = [''entry''], slow = False\<rparr>"])
      (simp_all add: example_streaming_def addSubscriber_def NewLogServer_def offer_def)
  with run log show ?thesis by (intro exI [of _ ?t]) simp
qed

theorem subscribe_returns_witness:
  "\<exists>e. subscribe (\<lambda>_. None) (\<lambda>k. if k = 0 then Msg ''b'' None else Done) [''a''] = Some ([''a'', ''b''], e)"
  using subscribe_returns [of "\<lambda>_. None" "\<lambda>k. if k = 0 then Msg ''b'' None else Done" "[''a'']" 1] by simp

end
