(* ===== verification/Router.thy ===== *)
theory Router
  imports Auth
begin

section \<open>Routes: internal/server/router.go\<close>

text \<open>
  The routes of the two HTTP engines in the order they are registered, each with the pieces of its
  path, whether the authentication middleware was in force on its group when it was registered,
  and its handler. Joining the pieces and finding the route of a request is the web framework's:
  \<open>find_route\<close> is a parameter.
\<close>

subsection \<open>Groups and routes\<close>

datatype http_method = GET | POST | PATCH | DELETE

datatype handler =
    H_Ks | H_PostConfig | H_Files | H_Login | H_UI | H_RedirectRoot | H_Swagger
  | H_ListHosts | H_GetHost | H_SearchHost | H_CreateHost | H_UpdateHost | H_DeleteHost
  | H_ListDeviceClasses | H_GetDeviceClass | H_SearchDeviceClass | H_CreateDeviceClass
  | H_UpdateDeviceClass | H_DeleteDeviceClass
  | H_ListGroups | H_GetGroup | H_CreateGroup | H_UpdateGroup | H_DeleteGroup
  | H_ListImages | H_GetImage | H_CreateImage | H_UpdateImage | H_DeleteImage
  | H_ListUsers | H_GetUser | H_CreateUser | H_UpdateUser | H_DeleteUser
  | H_PostConfigID | H_Log | H_Logout | H_Session | H_Version

record route =
  rt_method :: http_method
  rt_path :: "string list"
  rt_guarded :: bool
  rt_handler :: handler

record router_group =
  rg_base :: "string list"
  rg_guarded :: bool

definition engine :: router_group where
  "engine = \<lparr>rg_base = [], rg_guarded = False\<rparr>"

definition Group :: "router_group \<Rightarrow> string \<Rightarrow> router_group" where
  "Group g rel = g\<lparr>rg_base := rg_base g @ [rel]\<rparr>"

definition Use_Middleware :: "router_group \<Rightarrow> router_group" where
  "Use_Middleware g = g\<lparr>rg_guarded := True\<rparr>"

definition Handle_route :: "router_group \<Rightarrow> http_method \<Rightarrow> string \<Rightarrow> handler \<Rightarrow> route" where
  "Handle_route g m rel h =
     \<lparr>rt_method = m, rt_path = rg_base g @ [rel], rt_guarded = rg_guarded g, rt_handler = h\<rparr>"

subsection \<open>The route table\<close>

definition newBootRouter :: "route list" where
  "newBootRouter = [Handle_route engine GET ''/esx/*filepath'' H_Files]"

definition registerV1 :: "router_group \<Rightarrow> bool \<Rightarrow> route list" where
  "registerV1 r has_log =
     (let v1 = Group r ''/v1'';
          hosts = Group v1 ''/hosts'';
          deviceClass = Group v1 ''/device_classes'';
          groups = Group v1 ''/groups'';
          images = Group v1 ''/images'';
          users = Group v1 ''/users''
      in [Handle_route hosts GET [] H_ListHosts,
          Handle_route hosts GET '':id'' H_GetHost,
          Handle_route hosts POST ''/search'' H_SearchHost,
          Handle_route hosts POST [] H_CreateHost,
          Handle_route hosts PATCH '':id'' H_UpdateHost,
          Handle_route hosts DELETE '':id'' H_DeleteHost,
          Handle_route deviceClass GET [] H_ListDeviceClasses,
          Handle_route deviceClass GET '':id'' H_GetDeviceClass,
          Handle_route deviceClass POST ''/search'' H_SearchDeviceClass,
          Handle_route deviceClass POST [] H_CreateDeviceClass,
          Handle_route deviceClass PATCH '':id'' H_UpdateDeviceClass,
          Handle_route deviceClass DELETE '':id'' H_DeleteDeviceClass,
          Handle_route groups GET [] H_ListGroups,
          Handle_route groups GET '':id'' H_GetGroup,
          Handle_route groups POST [] H_CreateGroup,
          Handle_route groups PATCH '':id'' H_UpdateGroup,
          Handle_route groups DELETE '':id'' H_DeleteGroup,
          Handle_route images GET [] H_ListImages,
          Handle_route images GET '':id'' H_GetImage,
          Handle_route images POST [] H_CreateImage,
          Handle_route images PATCH '':id'' H_UpdateImage,
          Handle_route images DELETE '':id'' H_DeleteImage,
          Handle_route users GET [] H_ListUsers,
          Handle_route users GET '':id'' H_GetUser,
          Handle_route users POST [] H_CreateUser,
          Handle_route users PATCH '':id'' H_UpdateUser,
          Handle_route users DELETE '':id'' H_DeleteUser,
          Handle_route v1 GET ''postconfig/:id'' H_PostConfigID]
         @ (if has_log then [Handle_route v1 GET ''log'' H_Log] else [])
         @ [Handle_route v1 POST ''logout'' H_Logout,
            Handle_route v1 GET ''session'' H_Session,
            Handle_route v1 GET ''version'' H_Version])"

definition newAPIRouter :: "bool \<Rightarrow> route list" where
  "newAPIRouter has_log =
     (let r = engine;
          authed = Use_Middleware (Group r ''/'')
      in [Handle_route r GET ''ks.cfg'' H_Ks,
          Handle_route r GET ''/v1/postconfig'' H_PostConfig,
          Handle_route r GET ''/esx/*filepath'' H_Files,
          Handle_route r POST ''/v1/login'' H_Login,
          Handle_route r GET ''/web/*all'' H_UI,
          Handle_route r GET ''/'' H_RedirectRoot,
          Handle_route authed GET ''/swagger/*any'' H_Swagger]
         @ registerV1 authed has_log)"

text \<open>\<^verbatim>\<open>NewRouters\<close>: the authentication state, and the routes of the API and of the boot engine. Without a
  state it makes one; without a user interface it takes the embedded one, which may fail.\<close>

definition default_auth :: auth_state where
  "default_auth =
     \<lparr>au_Sessions = NewSessions DefaultTTL, au_Throttle = NewThrottle 10 (15 * Minute), au_Secure = True\<rparr>"

definition NewRouters ::
    "auth_state option \<Rightarrow> bool \<Rightarrow> string option \<Rightarrow> bool \<Rightarrow> string + auth_state \<times> route list \<times> route list" where
  "NewRouters auth has_ui embedded_error has_log =
     (let a = (case auth of None \<Rightarrow> default_auth | Some a \<Rightarrow> a)
      in case (if has_ui then None else embedded_error) of
           Some e \<Rightarrow> Inl e
         | None \<Rightarrow> Inr (a, newAPIRouter has_log, newBootRouter))"

subsection \<open>Serving a request\<close>

text \<open>What an engine does with a request: run a handler, for an authenticated user or for nobody, or
  what the middleware answers, or, without a route, a redirect (the API) or not found (booting).\<close>

datatype served = Run handler "string option" | Refused verdict | Redirect int string | NoSuchRoute

record request =
  rq_method :: http_method
  rq_path :: string
  rq_remote :: string
  rq_cookie :: "string option"
  rq_basic :: "(string \<times> string) option"

definition serve_api ::
    "(route list \<Rightarrow> http_method \<Rightarrow> string \<Rightarrow> route option) \<Rightarrow> bool \<Rightarrow> auth_env \<Rightarrow> auth_state \<Rightarrow> request
     \<Rightarrow> int \<Rightarrow> int \<Rightarrow> int \<Rightarrow> int \<Rightarrow> served \<times> auth_state" where
  "serve_api find_route has_log env a rq t1 t2 t3 t4 =
     (case find_route (newAPIRouter has_log) (rq_method rq) (rq_path rq) of
        None \<Rightarrow> (Redirect 302 ''/web/'', a)
      | Some rt \<Rightarrow>
          if rt_guarded rt
          then (case Middleware env a (rq_remote rq) (rq_cookie rq) (rq_basic rq) t1 t2 t3 t4 of
                  (Next u, a) \<Rightarrow> (Run (rt_handler rt) (Some u), a)
                | (v, a) \<Rightarrow> (Refused v, a))
          else (Run (rt_handler rt) None, a))"

definition serve_boot ::
    "(route list \<Rightarrow> http_method \<Rightarrow> string \<Rightarrow> route option) \<Rightarrow> request \<Rightarrow> served" where
  "serve_boot find_route rq =
     (case find_route newBootRouter (rq_method rq) (rq_path rq) of
        None \<Rightarrow> NoSuchRoute
      | Some rt \<Rightarrow> Run (rt_handler rt) None)"

text \<open>\<^verbatim>\<open>logStaticFileRequests\<close>: the paths it logs before it goes on.\<close>

definition logStaticFileRequests :: "request \<Rightarrow> bool" where
  "logStaticFileRequests rq \<longleftrightarrow> rq_path rq = ''/esx.iso''"

subsection \<open>Facts\<close>

text \<open>What the framework's lookup promises: a route of the table, for the method asked for.\<close>

definition router_law :: "(route list \<Rightarrow> http_method \<Rightarrow> string \<Rightarrow> route option) \<Rightarrow> bool" where
  "router_law find_route \<longleftrightarrow>
     (\<forall>rs m p rt. find_route rs m p = Some rt \<longrightarrow> rt \<in> set rs \<and> rt_method rt = m)"

lemmas route_defs = Handle_route_def Group_def Use_Middleware_def engine_def Let_def

lemma registerV1_guarded: "\<forall>rt \<in> set (registerV1 g has_log). rt_guarded rt = rg_guarded g"
  by (simp add: registerV1_def route_defs)

lemma public_routes:
  "\<forall>rt \<in> set (newAPIRouter has_log). \<not> rt_guarded rt \<longrightarrow>
     (rt_method rt, rt_handler rt) \<in> {(GET, H_Ks), (GET, H_PostConfig), (GET, H_Files), (POST, H_Login),
        (GET, H_UI), (GET, H_RedirectRoot)}"
proof -
  have "\<forall>rt \<in> set (registerV1 (Use_Middleware (Group engine ''/'')) has_log). rt_guarded rt"
    using registerV1_guarded by (simp add: Use_Middleware_def)
  then show ?thesis by (simp add: newAPIRouter_def Let_def ball_Un) (simp add: route_defs)
qed

text \<open>How a request shows who it is from: by the token of a live session, or by a password.\<close>

definition authenticated :: "auth_env \<Rightarrow> auth_state \<Rightarrow> request \<Rightarrow> int \<Rightarrow> int \<Rightarrow> int \<Rightarrow> string \<Rightarrow> bool" where
  "authenticated env a rq t1 t2 t3 u \<longleftrightarrow>
     (\<exists>token. rq_cookie rq = Some token \<and> fst (Lookup (au_Sessions a) token t1 t2) = Some u)
     \<or> (\<exists>username password usr. rq_basic rq = Some (username, password)
          \<and> fst (Allowed (au_Throttle a) (throttleKey (rq_remote rq) username) t3)
          \<and> find_user env username = Inr usr \<and> bcrypt_matches env (u_Password usr) password
          \<and> u = u_Username usr)"

lemma served_authenticated:
  assumes "router_law find_route"
    and served: "serve_api find_route has_log env a rq t1 t2 t3 t4 = (Run h user, a')"
  shows "case user of
      None \<Rightarrow> a' = a \<and> (rq_method rq, h) \<in> {(GET, H_Ks), (GET, H_PostConfig), (GET, H_Files), (POST, H_Login),
                     (GET, H_UI), (GET, H_RedirectRoot)}
    | Some u \<Rightarrow> authenticated env a rq t1 t2 t3 u"
proof -
  obtain rt where find: "find_route (newAPIRouter has_log) (rq_method rq) (rq_path rq) = Some rt"
    and h: "h = rt_handler rt"
    using served by (auto simp: serve_api_def split: option.splits if_splits prod.splits verdict.splits)
  then have rt: "rt \<in> set (newAPIRouter has_log)" "rt_method rt = rq_method rq"
    using assms(1) unfolding router_law_def by blast+
  show ?thesis
  proof (cases user)
    case None
    then have "\<not> rt_guarded rt" "a' = a"
      using served find by (auto simp: serve_api_def split: if_splits prod.splits verdict.splits)
    with bspec [OF public_routes rt(1)] rt(2) h None show ?thesis by simp
  next
    case (Some u)
    then have "Middleware env a (rq_remote rq) (rq_cookie rq) (rq_basic rq) t1 t2 t3 t4 = (Next u, a')"
      using served find by (auto simp: serve_api_def split: if_splits prod.splits verdict.splits)
    from Middleware_Next [OF this] Some show ?thesis by (simp add: authenticated_def)
  qed
qed

lemma serve_boot_files: "router_law find_route \<Longrightarrow> serve_boot find_route rq \<in> {NoSuchRoute, Run H_Files None}"
  unfolding router_law_def
  by (auto simp: serve_boot_def newBootRouter_def Handle_route_def split: option.splits) fastforce

subsection \<open>Properties\<close>

text \<open>C5: every request the API runs a handler for is either for one of the six public handlers, under
  its method, or is made for a user whose live session token or whose password it carries; the
  boot engine runs nothing but the boot files.\<close>

theorem api_authenticated:
  assumes "router_law find_route"
    and served: "serve_api find_route has_log env a rq t1 t2 t3 t4 = (Run h user, a')"
  shows "(case user of
       None \<Rightarrow> a' = a \<and> (rq_method rq, h) \<in> {(GET, H_Ks), (GET, H_PostConfig), (GET, H_Files), (POST, H_Login),
                     (GET, H_UI), (GET, H_RedirectRoot)}
     | Some u \<Rightarrow>
         (\<exists>token. rq_cookie rq = Some token \<and> fst (Lookup (au_Sessions a) token t1 t2) = Some u)
         \<or> (\<exists>username password usr. rq_basic rq = Some (username, password)
              \<and> fst (Allowed (au_Throttle a) (throttleKey (rq_remote rq) username) t3)
              \<and> find_user env username = Inr usr \<and> bcrypt_matches env (u_Password usr) password
              \<and> u = u_Username usr))
    \<and> serve_boot find_route rq \<in> {NoSuchRoute, Run H_Files None}"
  using served_authenticated [OF assms] serve_boot_files [OF assms(1)] unfolding authenticated_def ..

subsection \<open>Witnesses\<close>

text \<open>The framework's lookup on pieces that are joined by appending, for a path without parameters.\<close>

definition example_find :: "route list \<Rightarrow> http_method \<Rightarrow> string \<Rightarrow> route option" where
  "example_find rs m p = List.find (\<lambda>rt. rt_method rt = m \<and> concat (rt_path rt) = p) rs"

lemma example_find_law: "router_law example_find"
  by (auto simp: router_law_def example_find_def find_Some_iff)

definition example_request :: request where
  "example_request = \<lparr>rq_method = GET, rq_path = ''//v1/hosts'', rq_remote = example_remote, rq_cookie = None,
     rq_basic = Some (''root'', ''s3cret'')\<rparr>"

lemma example_route: "example_find (newAPIRouter False) GET ''//v1/hosts''
    = Some \<lparr>rt_method = GET, rt_path = [''/'', ''/v1'', ''/hosts'', []], rt_guarded = True, rt_handler = H_ListHosts\<rparr>"
  by (simp add: example_find_def newAPIRouter_def registerV1_def route_defs)

theorem api_authenticated_witness:
  "fst (serve_api example_find False example_auth_env example_auth example_request 1 1 1 1)
     = Run H_ListHosts (Some ''root'')
   \<and> bcrypt_matches example_auth_env (u_Password example_user) ''s3cret''"
proof -
  have "fst (serve_api example_find False example_auth_env example_auth example_request 1 1 1 1)
      = Run H_ListHosts (Some ''root'')"
    by (simp add: serve_api_def example_request_def example_route Middleware_def basic_auth_def verify_def
        ComparePasswords_def example_auth_defs example_allowed zero_user_def Let_def)
  note ran = this
  then have run: "serve_api example_find False example_auth_env example_auth example_request 1 1 1 1
      = (Run H_ListHosts (Some ''root''), snd (serve_api example_find False example_auth_env example_auth example_request 1 1 1 1))"
    by (simp add: prod_eq_iff)
  show ?thesis
  proof
    show "bcrypt_matches example_auth_env (u_Password example_user) ''s3cret''"
      using api_authenticated [OF example_find_law run] by (simp add: example_auth_defs)
  qed (rule ran)
qed

end
