(* ===== verification/Certificates.thy ===== *)
theory Certificates
  imports Via_Prelude
begin

section \<open>Certificates: internal/crypto/main.go\<close>

text \<open>
  The files of the self-signed authority and of the server certificate. Signing and the encodings
  of X.509 are the standard library's cryptography and enter as an environment, as do the results
  of the file operations. A time is its calendar date and the rest of the day, which is what adding
  years works on.
\<close>

subsection \<open>Dates\<close>

record civil_time =
  year :: int
  month :: int
  day :: int
  clock :: int

definition leap_year :: "int \<Rightarrow> bool" where
  "leap_year y \<longleftrightarrow> y mod 4 = 0 \<and> (y mod 100 \<noteq> 0 \<or> y mod 400 = 0)"

text \<open>\<^verbatim>\<open>AddDate\<close> with years only: a leap day that is not in the target year is the next day.\<close>

definition AddDate :: "civil_time \<Rightarrow> int \<Rightarrow> civil_time" where
  "AddDate t years =
     (if month t = 2 \<and> day t = 29 \<and> \<not> leap_year (year t + years)
      then t\<lparr>year := year t + years, month := 3, day := 1\<rparr>
      else t\<lparr>year := year t + years\<rparr>)"

subsection \<open>Files\<close>

datatype pem = PEM string string | Truncated

record pem_file =
  f_perm :: int
  f_data :: pem

type_synonym files = "string \<rightharpoonup> pem_file"

record disk =
  open_ok :: "string \<Rightarrow> bool"
  encode_ok :: "string \<Rightarrow> bool"
  close_ok :: "string \<Rightarrow> bool"
  remove_ok :: "string \<Rightarrow> bool"

text \<open>\<^verbatim>\<open>os.OpenFile\<close> with create and truncate: the mode is only given to a file that is new.\<close>

definition opened :: "files \<Rightarrow> string \<Rightarrow> int \<Rightarrow> pem \<Rightarrow> files" where
  "opened fs path perm data =
     fs(path \<mapsto> \<lparr>f_perm = (case fs path of None \<Rightarrow> perm | Some f \<Rightarrow> f_perm f), f_data = data\<rparr>)"

definition removed :: "disk \<Rightarrow> files \<Rightarrow> string \<Rightarrow> files" where
  "removed d fs path = (if remove_ok d path then fs(path := None) else fs)"

text \<open>\<^verbatim>\<open>writePEM\<close>: its error, and the files.\<close>

definition writePEM :: "disk \<Rightarrow> string \<Rightarrow> int \<Rightarrow> pem \<Rightarrow> files \<Rightarrow> string option \<times> files" where
  "writePEM d path perm block fs =
     (if \<not> open_ok d path then (Some (''open '' @ path), fs)
      else if \<not> encode_ok d path
      then (Some (''encode '' @ path), removed d (opened fs path perm Truncated) path)
      else if \<not> close_ok d path
      then (Some (''close '' @ path), removed d (opened fs path perm Truncated) path)
      else (None, opened fs path perm block))"

subsection \<open>Certificates\<close>

datatype ext_key_usage = ExtKeyUsageClientAuth | ExtKeyUsageServerAuth

datatype key_usage = KeyUsageDigitalSignature | KeyUsageCertSign

record certificate =
  SerialNumber :: int
  Organization :: "string list"
  Country :: "string list"
  Province :: "string list"
  Locality :: "string list"
  CommonName :: string
  NotBefore :: civil_time
  NotAfter :: civil_time
  IsCA :: bool
  SubjectKeyId :: "int list"
  ExtKeyUsage :: "ext_key_usage list"
  KeyUsage :: "key_usage set"
  BasicConstraintsValid :: bool
  DNSNames :: "string list"
  EmailAddresses :: "string list"

text \<open>The two templates, from two readings of the clock.\<close>

definition ca_template :: "civil_time \<Rightarrow> civil_time \<Rightarrow> certificate" where
  "ca_template now1 now2 =
     \<lparr>SerialNumber = 1653, Organization = [''VMware ESX Server Default Certificate''], Country = [''US''],
      Province = [''California''], Locality = [''Palo Alto''], CommonName = [],
      NotBefore = now1, NotAfter = AddDate now2 10, IsCA = True, SubjectKeyId = [],
      ExtKeyUsage = [ExtKeyUsageClientAuth, ExtKeyUsageServerAuth],
      KeyUsage = {KeyUsageDigitalSignature, KeyUsageCertSign}, BasicConstraintsValid = True,
      DNSNames = [], EmailAddresses = []\<rparr>"

definition cert_template :: "string \<Rightarrow> civil_time \<Rightarrow> civil_time \<Rightarrow> certificate" where
  "cert_template cn now1 now2 =
     \<lparr>SerialNumber = 1658, Organization = [''VMware ESX Server Default Certificate''], Country = [''US''],
      Province = [''California''], Locality = [''Palo Alto''], CommonName = cn,
      NotBefore = now1, NotAfter = AddDate now2 10, IsCA = False, SubjectKeyId = [1, 2, 3, 4, 6],
      ExtKeyUsage = [ExtKeyUsageClientAuth, ExtKeyUsageServerAuth],
      KeyUsage = {KeyUsageDigitalSignature}, BasicConstraintsValid = False,
      DNSNames = [cn], EmailAddresses = [''ssl-certificates@vmware.com'']\<rparr>"

text \<open>What the standard library's cryptography does: signing the certificate of a key's public part under
  a parent with a private key, encoding a private key, and reading a key pair and a certificate; the
  precision the encoding leaves of a time, and the identifier it derives from a public key.\<close>

record 'k x509 =
  CreateCertificate :: "certificate \<Rightarrow> certificate \<Rightarrow> 'k \<Rightarrow> 'k \<Rightarrow> string + string"
  MarshalPKCS1PrivateKey :: "'k \<Rightarrow> string"
  LoadX509KeyPair :: "pem \<Rightarrow> pem \<Rightarrow> string + (string \<times> 'k)"
  ParseCertificate :: "string \<Rightarrow> string + certificate"
  wire_time :: "civil_time \<Rightarrow> civil_time"
  key_id :: "'k \<Rightarrow> int list"

text \<open>A function may end the process.\<close>

datatype ending = Fatal string | Returned

text \<open>The octal modes 0644 and 0600.\<close>

definition mode_0644 :: int where "mode_0644 = 6 * 8\<^sup>2 + 4 * 8 + 4"

definition mode_0600 :: int where "mode_0600 = 6 * 8\<^sup>2"

text \<open>Writing a certificate and its private key: the tail the two functions share.\<close>

definition write_pair ::
    "'k x509 \<Rightarrow> disk \<Rightarrow> string \<Rightarrow> string \<Rightarrow> string \<Rightarrow> 'k \<Rightarrow> files \<Rightarrow> ending \<times> files" where
  "write_pair x d crtPath keyPath crt priv fs =
     (case writePEM d crtPath mode_0644 (PEM ''CERTIFICATE'' crt) fs of
        (Some e, fs) \<Rightarrow> (Fatal (''cert: '' @ e), fs)
      | (None, fs) \<Rightarrow>
          (case writePEM d keyPath mode_0600 (PEM ''RSA PRIVATE KEY'' (MarshalPKCS1PrivateKey x priv)) fs of
             (Some e, fs) \<Rightarrow> (Fatal (''cert: '' @ e), fs)
           | (None, fs) \<Rightarrow> (Returned, fs)))"

definition CreateCA ::
    "'k x509 \<Rightarrow> disk \<Rightarrow> civil_time \<Rightarrow> civil_time \<Rightarrow> string + 'k \<Rightarrow> files \<Rightarrow> ending \<times> files" where
  "CreateCA x d now1 now2 key fs =
     (let ca = ca_template now1 now2
      in case key of
           Inl e \<Rightarrow> (Fatal (''cert: generate CA key: '' @ e), fs)
         | Inr priv \<Rightarrow>
             (case CreateCertificate x ca ca priv priv of
                Inl e \<Rightarrow> (Returned, fs)
              | Inr ca_b \<Rightarrow> write_pair x d ''cert/ca.crt'' ''cert/ca.key'' ca_b priv fs))"

definition CreateCert ::
    "'k x509 \<Rightarrow> disk \<Rightarrow> civil_time \<Rightarrow> civil_time \<Rightarrow> string + 'k \<Rightarrow> string \<Rightarrow> string \<Rightarrow> string \<Rightarrow> files
     \<Rightarrow> ending \<times> files" where
  "CreateCert x d now1 now2 key path name cn fs =
     (case (fs ''cert/ca.crt'', fs ''cert/ca.key'') of
        (Some crt, Some k) \<Rightarrow>
          (case LoadX509KeyPair x (f_data crt) (f_data k) of
             Inl e \<Rightarrow> (Fatal e, fs)
           | Inr (ca_b, ca_priv) \<Rightarrow>
               (case ParseCertificate x ca_b of
                  Inl e \<Rightarrow> (Fatal e, fs)
                | Inr ca \<Rightarrow>
                    (case key of
                       Inl e \<Rightarrow> (Fatal (''cert: generate key for '' @ name @ '': '' @ e), fs)
                     | Inr priv \<Rightarrow>
                         (case CreateCertificate x (cert_template cn now1 now2) ca priv ca_priv of
                            Inl e \<Rightarrow> (Fatal e, fs)
                          | Inr cert_b \<Rightarrow>
                              write_pair x d (path @ ''/'' @ name @ ''.crt'') (path @ ''/'' @ name @ ''.key'')
                                cert_b priv fs))))
      | missing \<Rightarrow> (Fatal ''open cert/ca'', fs))"

subsection \<open>Facts\<close>

lemma writePEM_None:
  "writePEM d path perm block fs = (None, fs') \<longleftrightarrow>
     open_ok d path \<and> encode_ok d path \<and> close_ok d path \<and> fs' = opened fs path perm block"
  by (auto simp: writePEM_def)

lemma write_pair_Returned:
  "write_pair x d crtPath keyPath crt priv fs = (Returned, fs') \<Longrightarrow>
     fs' = opened (opened fs crtPath mode_0644 (PEM ''CERTIFICATE'' crt)) keyPath mode_0600
        (PEM ''RSA PRIVATE KEY'' (MarshalPKCS1PrivateKey x priv))"
  by (auto simp: write_pair_def writePEM_None split: prod.splits option.splits)

lemma CreateCert_Returned:
  assumes "CreateCert x d now1 now2 key path name cn fs = (Returned, fs')"
  obtains crt k ca_b ca_priv ca priv cert_b where "fs ''cert/ca.crt'' = Some crt" and "fs ''cert/ca.key'' = Some k"
    and "LoadX509KeyPair x (f_data crt) (f_data k) = Inr (ca_b, ca_priv)" and "ParseCertificate x ca_b = Inr ca"
    and "key = Inr priv" and "CreateCertificate x (cert_template cn now1 now2) ca priv ca_priv = Inr cert_b"
    and "fs' = opened (opened fs (path @ ''/'' @ name @ ''.crt'') mode_0644 (PEM ''CERTIFICATE'' cert_b))
      (path @ ''/'' @ name @ ''.key'') mode_0600 (PEM ''RSA PRIVATE KEY'' (MarshalPKCS1PrivateKey x priv))"
  using assms by (auto simp: CreateCert_def split: option.splits sum.splits dest!: write_pair_Returned)

text \<open>
  What a certificate signed from a template for a key parses to: times have the precision of the
  encoding, being an authority is only said along with valid basic constraints, and an authority
  without a key identifier gets the one of its key.
\<close>

definition as_parsed :: "'k x509 \<Rightarrow> certificate \<Rightarrow> 'k \<Rightarrow> certificate" where
  "as_parsed x t pub =
     t\<lparr>NotBefore := wire_time x (NotBefore t), NotAfter := wire_time x (NotAfter t),
       IsCA := IsCA t \<and> BasicConstraintsValid t,
       SubjectKeyId := (if SubjectKeyId t = [] \<and> IsCA t then key_id x pub else SubjectKeyId t)\<rparr>"

text \<open>What the cryptography promises of the two templates: what was signed parses as said, and the
  certificate and its key are read back from their files as a pair.\<close>

definition x509_laws :: "'k x509 \<Rightarrow> bool" where
  "x509_laws x \<longleftrightarrow>
     (\<forall>t t1 t2 parent pub priv b. (t = ca_template t1 t2 \<or> t = cert_template ''server'' t1 t2) \<longrightarrow>
        CreateCertificate x t parent pub priv = Inr b \<longrightarrow>
        ParseCertificate x b = Inr (as_parsed x t pub)
        \<and> LoadX509KeyPair x (PEM ''CERTIFICATE'' b) (PEM ''RSA PRIVATE KEY'' (MarshalPKCS1PrivateKey x pub))
          = Inr (b, pub))"

lemma x509_lawsD:
  assumes "x509_laws x" and "CreateCertificate x t parent pub priv = Inr b"
    and "t = ca_template t1 t2 \<or> t = cert_template ''server'' t1 t2"
  shows "ParseCertificate x b = Inr (as_parsed x t pub)"
    and "LoadX509KeyPair x (PEM ''CERTIFICATE'' b) (PEM ''RSA PRIVATE KEY'' (MarshalPKCS1PrivateKey x pub)) = Inr (b, pub)"
  using assms unfolding x509_laws_def by blast+

lemma as_parsed_templates:
  "as_parsed x (ca_template t1 t2) pub = (ca_template t1 t2)\<lparr>NotBefore := wire_time x t1,
     NotAfter := wire_time x (AddDate t2 10), SubjectKeyId := key_id x pub\<rparr>"
  "as_parsed x (cert_template cn t1 t2) pub = (cert_template cn t1 t2)\<lparr>NotBefore := wire_time x t1,
     NotAfter := wire_time x (AddDate t2 10)\<rparr>"
  by (simp_all add: as_parsed_def ca_template_def cert_template_def)

text \<open>The two steps on a disk without their files.\<close>

lemma CreateCA_Returned:
  assumes "CreateCA x d t1 t2 ca_key fs = (Returned, fs1)"
  obtains (unsigned) "fs1 = fs"
  | (signed) ca_priv ca_b where "ca_key = Inr ca_priv"
      and "CreateCertificate x (ca_template t1 t2) (ca_template t1 t2) ca_priv ca_priv = Inr ca_b"
      and "fs1 = opened (opened fs ''cert/ca.crt'' mode_0644 (PEM ''CERTIFICATE'' ca_b)) ''cert/ca.key''
        mode_0600 (PEM ''RSA PRIVATE KEY'' (MarshalPKCS1PrivateKey x ca_priv))"
proof (cases ca_key)
  case (Inr ca_priv)
  note ca_key = Inr
  show ?thesis
  proof (cases "CreateCertificate x (ca_template t1 t2) (ca_template t1 t2) ca_priv ca_priv")
    case (Inl e)
    then show ?thesis using assms ca_key by (intro unsigned) (simp add: CreateCA_def Let_def)
  next
    case (Inr ca_b)
    then have "write_pair x d ''cert/ca.crt'' ''cert/ca.key'' ca_b ca_priv fs = (Returned, fs1)"
      using assms ca_key by (simp add: CreateCA_def Let_def)
    from signed [OF ca_key Inr write_pair_Returned [OF this]] show ?thesis .
  qed
qed (use assms in \<open>simp add: CreateCA_def Let_def\<close>)

lemma pair_made:
  assumes laws: "x509_laws x"
    and ca: "CreateCA x d t1 t2 ca_key fs = (Returned, fs1)"
    and cert: "CreateCert x d t3 t4 key ''./cert'' ''server'' ''server'' fs1 = (Returned, fs2)"
    and new: "fs ''cert/ca.crt'' = None" "fs ''cert/ca.key'' = None"
  obtains ca_priv priv ca_b cert_b where "ca_key = Inr ca_priv" and "key = Inr priv"
    and "CreateCertificate x (ca_template t1 t2) (ca_template t1 t2) ca_priv ca_priv = Inr ca_b"
    and "CreateCertificate x (cert_template ''server'' t3 t4) (as_parsed x (ca_template t1 t2) ca_priv) priv ca_priv
      = Inr cert_b"
    and "fs2 = opened (opened (opened (opened fs ''cert/ca.crt'' mode_0644 (PEM ''CERTIFICATE'' ca_b))
      ''cert/ca.key'' mode_0600 (PEM ''RSA PRIVATE KEY'' (MarshalPKCS1PrivateKey x ca_priv)))
      ''./cert/server.crt'' mode_0644 (PEM ''CERTIFICATE'' cert_b))
      ''./cert/server.key'' mode_0600 (PEM ''RSA PRIVATE KEY'' (MarshalPKCS1PrivateKey x priv))"
  using ca
proof (cases rule: CreateCA_Returned)
  case unsigned
  then show ?thesis using cert new by (auto elim!: CreateCert_Returned)
next
  case (signed ca_priv ca_b)
  note read = x509_lawsD [OF laws signed(2) disjI1 [OF refl]]
  have pair: "fs1 ''cert/ca.crt'' = Some \<lparr>f_perm = mode_0644, f_data = PEM ''CERTIFICATE'' ca_b\<rparr>"
    "fs1 ''cert/ca.key'' = Some \<lparr>f_perm = mode_0600, f_data = PEM ''RSA PRIVATE KEY'' (MarshalPKCS1PrivateKey x ca_priv)\<rparr>"
    using new by (simp_all add: signed(3) opened_def)
  show ?thesis
  proof (rule CreateCert_Returned [OF cert])
    fix crt k ca_b' ca_priv' ca' priv cert_b
    assume "fs1 ''cert/ca.crt'' = Some crt" "fs1 ''cert/ca.key'' = Some k"
      "LoadX509KeyPair x (f_data crt) (f_data k) = Inr (ca_b', ca_priv')" "ParseCertificate x ca_b' = Inr ca'"
      and made: "key = Inr priv" "CreateCertificate x (cert_template ''server'' t3 t4) ca' priv ca_priv' = Inr cert_b"
        "fs2 = opened (opened fs1 (''./cert'' @ ''/'' @ ''server'' @ ''.crt'') mode_0644 (PEM ''CERTIFICATE'' cert_b))
          (''./cert'' @ ''/'' @ ''server'' @ ''.key'') mode_0600 (PEM ''RSA PRIVATE KEY'' (MarshalPKCS1PrivateKey x priv))"
    then have "ca_priv' = ca_priv" "ca' = as_parsed x (ca_template t1 t2) ca_priv" using pair read by auto
    then show ?thesis using that [OF signed(1) made(1) signed(2)] made(2,3) by (simp add: signed(3))
  qed
qed

subsection \<open>Properties\<close>

text \<open>a PEM file is written whole or not at all: after an error it is as it was, gone, or, where even
  its removal fails, known to be truncated; an existing file keeps its mode, and no other file
  changes.\<close>

theorem pem_all_or_nothing:
  "(case writePEM d path perm block fs of
      (None, fs') \<Rightarrow> fs' path = Some \<lparr>f_perm = (case fs path of None \<Rightarrow> perm | Some f \<Rightarrow> f_perm f), f_data = block\<rparr>
    | (Some e, fs') \<Rightarrow>
        (if \<not> open_ok d path then fs' path = fs path
         else if remove_ok d path then fs' path = None
         else map_option f_data (fs' path) = Some Truncated))
    \<and> snd (writePEM d path perm block fs) |` (- {path}) = fs |` (- {path})"
  by (auto simp: writePEM_def opened_def removed_def restrict_map_def fun_eq_iff)

text \<open>C35: where no such files exist and both steps return, the authority's certificate is its template signed by
  itself, and the server's certificate is signed with the authority's key under that certificate as it is
  read back, with the key identifier the library gave it; what the server presents is no authority, bears exactly the
  name given and its own identifier, and ends as long after its beginning as the template; both private
  keys are on disk readable by their owner only, and each is read back with its certificate.\<close>

theorem certificates_created:
  assumes laws: "x509_laws x"
    and ca: "CreateCA x d t1 t2 ca_key fs = (Returned, fs1)"
    and cert: "CreateCert x d t3 t4 key ''./cert'' ''server'' ''server'' fs1 = (Returned, fs2)"
    and new: "fs ''cert/ca.crt'' = None" "fs ''cert/ca.key'' = None"
      "fs ''./cert/server.crt'' = None" "fs ''./cert/server.key'' = None"
  shows "\<exists>ca_priv priv root ca_b leaf cert_b. ca_key = Inr ca_priv \<and> key = Inr priv
    \<and> CreateCertificate x (ca_template t1 t2) (ca_template t1 t2) ca_priv ca_priv = Inr ca_b
    \<and> ParseCertificate x ca_b = Inr root \<and> IsCA root \<and> SubjectKeyId root = key_id x ca_priv
    \<and> CreateCertificate x (cert_template ''server'' t3 t4) root priv ca_priv = Inr cert_b
    \<and> ParseCertificate x cert_b = Inr leaf \<and> \<not> IsCA leaf \<and> CommonName leaf = ''server'' \<and> DNSNames leaf = [''server'']
    \<and> SubjectKeyId leaf = [1, 2, 3, 4, 6] \<and> KeyUsageCertSign \<notin> KeyUsage leaf
    \<and> NotBefore leaf = wire_time x t3 \<and> NotAfter leaf = wire_time x (AddDate t4 10)
    \<and> fs2 ''./cert/server.crt'' = Some \<lparr>f_perm = mode_0644, f_data = PEM ''CERTIFICATE'' cert_b\<rparr>
    \<and> fs2 ''./cert/server.key'' = Some \<lparr>f_perm = mode_0600,
         f_data = PEM ''RSA PRIVATE KEY'' (MarshalPKCS1PrivateKey x priv)\<rparr>
    \<and> fs2 ''cert/ca.key'' = Some \<lparr>f_perm = mode_0600,
         f_data = PEM ''RSA PRIVATE KEY'' (MarshalPKCS1PrivateKey x ca_priv)\<rparr>
    \<and> LoadX509KeyPair x (PEM ''CERTIFICATE'' cert_b) (PEM ''RSA PRIVATE KEY'' (MarshalPKCS1PrivateKey x priv))
        = Inr (cert_b, priv)"
proof (rule pair_made [OF laws ca cert new(1,2)])
  fix ca_priv priv ca_b cert_b
  assume made: "ca_key = Inr ca_priv" "key = Inr priv"
    "CreateCertificate x (ca_template t1 t2) (ca_template t1 t2) ca_priv ca_priv = Inr ca_b"
    "CreateCertificate x (cert_template ''server'' t3 t4) (as_parsed x (ca_template t1 t2) ca_priv) priv ca_priv
      = Inr cert_b"
    and fs2: "fs2 = opened (opened (opened (opened fs ''cert/ca.crt'' mode_0644 (PEM ''CERTIFICATE'' ca_b))
      ''cert/ca.key'' mode_0600 (PEM ''RSA PRIVATE KEY'' (MarshalPKCS1PrivateKey x ca_priv)))
      ''./cert/server.crt'' mode_0644 (PEM ''CERTIFICATE'' cert_b))
      ''./cert/server.key'' mode_0600 (PEM ''RSA PRIVATE KEY'' (MarshalPKCS1PrivateKey x priv))"
  note root = x509_lawsD [OF laws made(3) disjI1 [OF refl]] and leaf = x509_lawsD [OF laws made(4) disjI2 [OF refl]]
  show ?thesis
    by (rule exI [of _ ca_priv], rule exI [of _ priv], rule exI [of _ "as_parsed x (ca_template t1 t2) ca_priv"],
        rule exI [of _ ca_b], rule exI [of _ "as_parsed x (cert_template ''server'' t3 t4) priv"], rule exI [of _ cert_b])
      (use made root leaf new in \<open>simp add: fs2 opened_def as_parsed_templates\<close>,
        simp add: ca_template_def cert_template_def)
qed

subsection \<open>Witnesses\<close>

text \<open>An instance whose keys are numbers, whose certificates are spelt out by their serial number and key, whose times are
  cut to seconds, and whose disk never fails.\<close>

definition whole_seconds :: "civil_time \<Rightarrow> civil_time" where
  "whole_seconds t = t\<lparr>clock := clock t div 10 ^ 9 * 10 ^ 9\<rparr>"

definition example_x509 :: "civil_time \<Rightarrow> civil_time \<Rightarrow> nat x509" where
  "example_x509 t1 t2 =
     \<lparr>CreateCertificate = (\<lambda>t parent pub priv.
        if t = ca_template t1 t2 then Inr (''ca'' @ replicate pub (CHR ''#''))
        else if t = cert_template ''server'' t1 t2 then Inr (''server'' @ replicate pub (CHR ''#''))
        else Inl ''unsupported''),
      MarshalPKCS1PrivateKey = (\<lambda>k. replicate k (CHR ''#'')),
      LoadX509KeyPair = (\<lambda>c k. case (c, k) of (PEM ty b, PEM ty' k) \<Rightarrow> Inr (b, length k) | other \<Rightarrow> Inl ''truncated''),
      ParseCertificate = (\<lambda>b.
        let ca = take 2 b = ''ca''; t = (if ca then ca_template t1 t2 else cert_template ''server'' t1 t2)
        in Inr (t\<lparr>NotBefore := whole_seconds (NotBefore t), NotAfter := whole_seconds (NotAfter t),
             SubjectKeyId := (if ca then [int (length (drop 2 b))] else SubjectKeyId t)\<rparr>)),
      wire_time = whole_seconds, key_id = (\<lambda>k. [int k])\<rparr>"

definition good_disk :: disk where
  "good_disk = \<lparr>open_ok = (\<lambda>_. True), encode_ok = (\<lambda>_. True), close_ok = (\<lambda>_. True), remove_ok = (\<lambda>_. True)\<rparr>"

lemma templates_differ: "cert_template cn t1 t2 \<noteq> ca_template t3 t4"
  by (simp add: cert_template_def ca_template_def)

lemma example_x509_laws: "x509_laws (example_x509 t1 t2)"
  unfolding x509_laws_def
proof (intro allI impI)
  fix t t1' t2' parent pub priv b
  assume "CreateCertificate (example_x509 t1 t2) t parent pub priv = Inr b"
  then consider "t = ca_template t1 t2" "b = ''ca'' @ replicate pub (CHR ''#'')"
    | "t = cert_template ''server'' t1 t2" "b = ''server'' @ replicate pub (CHR ''#'')"
    by (auto simp: example_x509_def split: if_splits)
  then show "ParseCertificate (example_x509 t1 t2) b = Inr (as_parsed (example_x509 t1 t2) t pub)
      \<and> LoadX509KeyPair (example_x509 t1 t2) (PEM ''CERTIFICATE'' b)
          (PEM ''RSA PRIVATE KEY'' (MarshalPKCS1PrivateKey (example_x509 t1 t2) pub)) = Inr (b, pub)"
    by cases (simp_all add: as_parsed_templates example_x509_def Let_def, simp_all add: ca_template_def cert_template_def)
qed

lemma example_pair:
  "\<exists>fs1 fs2. CreateCA (example_x509 t t) good_disk t t (Inr 1) Map.empty = (Returned, fs1)
     \<and> CreateCert (example_x509 t t) good_disk t t (Inr 2) ''./cert'' ''server'' ''server'' fs1 = (Returned, fs2)"
  by (simp add: CreateCA_def CreateCert_def Let_def opened_def example_x509_def write_pair_def writePEM_def good_disk_def
      templates_differ)

theorem certificates_created_witness:
  "\<exists>(fs :: files) cert_b. fs ''./cert/server.crt'' = Some \<lparr>f_perm = mode_0644, f_data = PEM ''CERTIFICATE'' cert_b\<rparr>
     \<and> fs ''./cert/server.key'' = Some \<lparr>f_perm = mode_0600, f_data = PEM ''RSA PRIVATE KEY'' ''##''\<rparr>"
proof -
  define t :: civil_time where "t = \<lparr>year = 2024, month = 2, day = 29, clock = 0\<rparr>"
  from example_pair obtain fs1 fs2 where ca: "CreateCA (example_x509 t t) good_disk t t (Inr 1) Map.empty = (Returned, fs1)"
    and cert: "CreateCert (example_x509 t t) good_disk t t (Inr 2) ''./cert'' ''server'' ''server'' fs1 = (Returned, fs2)"
    by blast
  have "MarshalPKCS1PrivateKey (example_x509 t t) 2 = ''##''" by (simp add: example_x509_def numeral_2_eq_2)
  with certificates_created [OF example_x509_laws ca cert] show ?thesis by auto
qed

end
