(* ===== verification/Startup.thy ===== *)
theory Startup
  imports Users Dhcp Router Certificates
begin

section \<open>Starting up: cmd/go-via/main.go, internal/config, internal/store, dhcp.Init\<close>

text \<open>
  What happens between the command line and the listening servers: the identity of the build, the
  configuration and the interfaces to serve, the database file, the seeded rows, and the order in
  which the parts start. Results of the operating system and of the database library are
  parameters; ending the process (\<^verbatim>\<open>Fatal\<close>) is a value.
\<close>

subsection \<open>The build identity\<close>

record build =
  b_version :: string
  b_commit :: string
  b_date :: string

definition build_default :: build where
  "build_default = \<lparr>b_version = ''dev'', b_commit = ''none'', b_date = ''unknown''\<rparr>"

definition build_setting :: "string \<times> string \<Rightarrow> build \<Rightarrow> build" where
  "build_setting kv b =
     (let (key, val) = kv
      in if key = ''vcs.revision'' then (if b_commit b = ''none'' then b\<lparr>b_commit := val\<rparr> else b)
         else if key = ''vcs.time'' then (if b_date b = ''unknown'' then b\<lparr>b_date := val\<rparr> else b)
         else if key = ''vcs.modified''
         then (if val = ''true'' then b\<lparr>b_version := b_version b @ ''-dirty''\<rparr> else b)
         else b)"

text \<open>\<^verbatim>\<open>init\<close> on what the toolchain recorded, if anything.\<close>

definition build_init :: "(string \<times> string) list option \<Rightarrow> build \<Rightarrow> build" where
  "build_init info b = (case info of None \<Rightarrow> b | Some settings \<Rightarrow> fold build_setting settings b)"

definition Version_item :: "build \<Rightarrow> build reply" where
  "Version_item b = JSON 200 b"

subsection \<open>Configuration\<close>

record config =
  c_Debug :: bool
  c_Port :: int
  c_File :: string
  c_Interfaces :: "string list"
  c_DisableDhcp :: bool

text \<open>An interface, its addresses \<open>None\<close> when they cannot be read.\<close>

record net_if =
  if_Name :: string
  if_Loopback :: bool
  if_PointToPoint :: bool
  if_Addrs :: "if_addr list option"

definition if_v4 :: "net_if \<Rightarrow> (bytes \<times> (bytes \<times> bytes) option) option" where
  "if_v4 i = (case if_Addrs i of None \<Rightarrow> None | Some as \<Rightarrow> FindIPv4Addr as)"

fun find_interfaces :: "net_if list \<Rightarrow> string list" where
  "find_interfaces [] = []"
| "find_interfaces (v # vs) =
     (if if_Loopback v then find_interfaces vs
      else if if_PointToPoint v then find_interfaces vs
      else if if_v4 v = None then find_interfaces vs
      else if_Name v # find_interfaces vs)"

text \<open>\<^verbatim>\<open>Load\<close>: the library reads the flags, the environment and then the file named there, and checks the
  result; listing the interfaces may fail, which leaves none.\<close>

record config_lib =
  load_default :: "string + config"
  load_path :: "string \<Rightarrow> config \<Rightarrow> string + config"
  validate :: "config \<Rightarrow> string option"

definition Load :: "config_lib \<Rightarrow> net_if list option \<Rightarrow> string + config" where
  "Load lib ifs =
     (case load_default lib of
        Inl e \<Rightarrow> Inl e
      | Inr c \<Rightarrow>
          (case (if c_File c \<noteq> [] then load_path lib (c_File c) c else Inr c) of
             Inl e \<Rightarrow> Inl e
           | Inr c \<Rightarrow>
               (case validate lib c of
                  Some e \<Rightarrow> Inl e
                | None \<Rightarrow>
                    if c_Interfaces c = []
                    then Inr (c\<lparr>c_Interfaces := find_interfaces (case ifs of None \<Rightarrow> [] | Some vs \<Rightarrow> vs)\<rparr>)
                    else Inr c)))"

text \<open>The configuration in force, which \<^verbatim>\<open>Load\<close> leaves behind too.\<close>

definition Get :: "config option \<Rightarrow> config option" where
  "Get conf = conf"

definition Set :: "config \<Rightarrow> config option \<Rightarrow> config option" where
  "Set c conf = Some c"

subsection \<open>The database file\<close>

record gorm_config =
  SkipDefaultTransaction :: bool
  DisableForeignKeyConstraintWhenMigrating :: bool
  LogInfo :: bool

text \<open>What the operating system and the database library answer.\<close>

record store_os =
  db_missing :: bool
  mkdir_error :: "string option"
  create_error :: "string option"
  close_error :: "string option"
  gorm_Open :: "string \<Rightarrow> gorm_config \<Rightarrow> string option"

text \<open>\<^verbatim>\<open>Open\<close>: the error of opening the data source with the program's settings, if any.\<close>

definition Open :: "(string \<Rightarrow> gorm_config \<Rightarrow> string option) \<Rightarrow> string \<Rightarrow> bool \<Rightarrow> string option" where
  "Open gorm dsn debug = gorm dsn
     \<lparr>SkipDefaultTransaction = True, DisableForeignKeyConstraintWhenMigrating = True, LogInfo = debug\<rparr>"

definition Connect :: "store_os \<Rightarrow> bool \<Rightarrow> ending" where
  "Connect os debug =
     (let opening = (case Open (gorm_Open os) ''database/sqlite-database.db'' debug of
            Some e \<Rightarrow> Fatal (''Failed to open the SQLite database: '' @ e) | None \<Rightarrow> Returned)
      in if \<not> db_missing os then opening
         else (case mkdir_error os of
             Some e \<Rightarrow> Fatal (''could not create database directory: '' @ e)
           | None \<Rightarrow> (case create_error os of
               Some e \<Rightarrow> Fatal e
             | None \<Rightarrow> (case close_error os of
                 Some e \<Rightarrow> Fatal (''could not create database file: '' @ e)
               | None \<Rightarrow> opening))))"

subsection \<open>The TFTP server\<close>

text \<open>\<^verbatim>\<open>tftp.Serve\<close> returns when the library's server is shut down, and ends the process with status one when
  it cannot listen.\<close>

datatype exit = Shut_Down | Exit int

definition Serve :: "(string \<Rightarrow> string option) \<Rightarrow> exit" where
  "Serve ListenAndServe = (case ListenAndServe '':69'' of None \<Rightarrow> Shut_Down | Some e \<Rightarrow> Exit 1)"

subsection \<open>Seeded rows\<close>

definition defaultPassword :: string where
  "defaultPassword = ''VMware1!''"

text \<open>
  The administrator, by the library's \<^verbatim>\<open>FirstOrCreate\<close> on the row to look for and the attributes of a
  new one. The result is the error that is logged, if any, whether the start-up warns about the default
  password, and the database. A call that fails comes with the row that it leaves in memory, which has the
  attributes when only the insertion failed.
\<close>

definition seed_admin ::
    "('st \<Rightarrow> user \<Rightarrow> user \<Rightarrow> db_error \<times> user + user \<times> 'st) \<Rightarrow> (string \<Rightarrow> string option) \<Rightarrow> 'st
     \<Rightarrow> db_error option \<times> bool \<times> 'st" where
  "seed_admin first_or_create generate st =
     (let hp = HashAndSalt generate defaultPassword
      in case first_or_create st (zero_user\<lparr>u_Username := ''admin''\<rparr>)
             (zero_user\<lparr>u_Password := hp, u_MustChangePassword := True\<rparr>) of
           Inl (e, adm) \<Rightarrow> (Some e, u_MustChangePassword adm, st)
         | Inr (adm, st) \<Rightarrow> (None, u_MustChangePassword adm, st))"

definition seeded_classes :: "device_class list" where
  "seeded_classes =
     [\<lparr>dc_Name = ''PXE-UEFI_x64'', dc_VendorClass = ''PXEClient:Arch:00007'', dc_ID = 0\<rparr>,
      \<lparr>dc_Name = ''HTTP-UEFI_x64'', dc_VendorClass = ''HTTPClient:Arch:00016'', dc_ID = 0\<rparr>,
      \<lparr>dc_Name = ''PXE-UEFI_ARM64'', dc_VendorClass = ''PXEClient:Arch:00011'', dc_ID = 0\<rparr>,
      \<lparr>dc_Name = ''HTTP-UEFI_ARM64'', dc_VendorClass = ''HTTPClient:Arch:00011'', dc_ID = 0\<rparr>]"

definition seed_class ::
    "('st \<Rightarrow> device_class \<Rightarrow> db_error + device_class \<times> 'st) \<Rightarrow> device_class \<Rightarrow> 'st \<Rightarrow> 'st" where
  "seed_class first_or_create dc st = (case first_or_create st dc of Inl e \<Rightarrow> st | Inr (row, st) \<Rightarrow> st)"

definition seed_device_classes ::
    "('st \<Rightarrow> device_class \<Rightarrow> db_error + device_class \<times> 'st) \<Rightarrow> 'st \<Rightarrow> 'st" where
  "seed_device_classes first_or_create st = fold (seed_class first_or_create) seeded_classes st"

subsection \<open>The DHCP server of an interface\<close>

text \<open>\<^verbatim>\<open>Init\<close> up to the socket: the address to serve from, or the end of the process.\<close>

definition dhcp_open ::
    "(string \<Rightarrow> net_if option) \<Rightarrow> (string \<Rightarrow> string option) \<Rightarrow> string \<Rightarrow> string + bytes \<times> (bytes \<times> bytes) option" where
  "dhcp_open by_name listen_error intf =
     (case by_name intf of
        None \<Rightarrow> Inl ''dhcp: failed to open interface''
      | Some ifi \<Rightarrow>
          (case if_v4 ifi of
             None \<Rightarrow> Inl ''dhcp: failed to get interface IPv4 address''
           | Some (ip, ipNet) \<Rightarrow>
               (case listen_error intf of
                  Some e \<Rightarrow> Inl (''dhcp: failed to listen: '' @ e)
                | None \<Rightarrow> Inr (ip, ipNet))))"

text \<open>The read loop on what each read gives: an error, which ends the process, a frame without the four
  layers, which is passed over, or one with them. A message whose type option is empty
  ends the process too.\<close>

datatype frame = ReadError string | OtherFrame | DhcpFrame bytes bytes dhcpv4

fun read_loop ::
    "dhcp_env \<Rightarrow> bytes \<Rightarrow> bytes \<Rightarrow> (bytes \<times> bytes) option \<Rightarrow> frame list \<Rightarrow> outcome list \<times> ending option" where
  "read_loop env mac ip ipNet [] = ([], None)"
| "read_loop env mac ip ipNet (ReadError e # fs) =
     ([], Some (Fatal (''dhcp: failed to receive message: '' @ e)))"
| "read_loop env mac ip ipNet (OtherFrame # fs) = read_loop env mac ip ipNet fs"
| "read_loop env mac ip ipNet (DhcpFrame srcMAC srcIP req # fs) =
     (case serve_frame env mac ip ipNet srcMAC srcIP req of
        Crashed \<Rightarrow> ([Crashed], Some (Fatal ''panic''))
      | o1 \<Rightarrow> (case read_loop env mac ip ipNet fs of (os, e) \<Rightarrow> (o1 # os, e)))"

subsection \<open>The main program\<close>

datatype 'k action =
    Migrated | AdminSeeded | SeedingFailed db_error | DefaultPasswordWarned | DhcpStarted string | TftpStarted
  | RoutersMade | CertificatesMade | CertificateFound | HttpListens string | HttpsServes string string 'k
  | HttpsFailed string

text \<open>
  What the program meets: the results of the parts before, the database library, the clock (the
  readings of the two certificates), the file system and the cryptography. \<open>se_stat_error\<close> is an error of
  looking at the certificate other than its absence, \<open>se_listen\<close> one of listening on an address.
\<close>

record ('st, 'k) start_env =
  se_config :: "string + config"
  se_store :: store_os
  se_migrate :: "string option"
  se_first_or_create :: "'st \<Rightarrow> user \<Rightarrow> user \<Rightarrow> db_error \<times> user + user \<times> 'st"
  se_generate :: "string \<Rightarrow> string option"
  se_key :: "string + string"
  se_routers :: "string option"
  se_stat_error :: "string option"
  se_mkdir :: "string option"
  se_now :: "nat \<Rightarrow> civil_time"
  se_x509 :: "'k x509"
  se_disk :: disk
  se_ca_key :: "string + 'k"
  se_cert_key :: "string + 'k"
  se_listen :: "string \<Rightarrow> string option"

text \<open>\<^verbatim>\<open>RunTLS\<close> listens and reads the pair of files; without either it returns an error. The result is what
  it serves with.\<close>

definition RunTLS :: "('st, 'k) start_env \<Rightarrow> files \<Rightarrow> string \<Rightarrow> string \<Rightarrow> string \<Rightarrow> string + string \<times> 'k" where
  "RunTLS env fs addr certFile keyFile =
     (case se_listen env addr of
        Some e \<Rightarrow> Inl e
      | None \<Rightarrow>
          (case (fs certFile, fs keyFile) of
             (Some c, Some k) \<Rightarrow> LoadX509KeyPair (se_x509 env) (f_data c) (f_data k)
           | missing \<Rightarrow> Inl ''no such file''))"

definition listeners :: "('st, 'k) start_env \<Rightarrow> config \<Rightarrow> files \<Rightarrow> 'k action list" where
  "listeners env conf fs =
     (let listen = '':'' @ Itoa (c_Port conf)
      in [HttpListens '':80'',
          case RunTLS env fs listen ''./cert/server.crt'' ''./cert/server.key'' of
            Inl e \<Rightarrow> HttpsFailed e
          | Inr (crt, key) \<Rightarrow> HttpsServes listen crt key])"

text \<open>The last part: the certificate and the listeners. Where the certificate cannot be looked at for
  another reason than being absent, its information is nil and using it panics.\<close>

definition start_https :: "('st, 'k) start_env \<Rightarrow> config \<Rightarrow> files \<Rightarrow> 'k action list \<times> ending \<times> files" where
  "start_https env conf fs =
     (if se_stat_error env \<noteq> None then ([], Fatal ''panic'', fs)
      else if fs ''./cert/server.crt'' \<noteq> None then (CertificateFound # listeners env conf fs, Returned, fs)
      else
        (case se_mkdir env of
           Some e \<Rightarrow> ([], Fatal (''cert: could not create directory: '' @ e), fs)
         | None \<Rightarrow>
             (case CreateCA (se_x509 env) (se_disk env) (se_now env 0) (se_now env 1) (se_ca_key env) fs of
                (Fatal e, fs) \<Rightarrow> ([], Fatal e, fs)
              | (Returned, fs) \<Rightarrow>
                  (case CreateCert (se_x509 env) (se_disk env) (se_now env 2) (se_now env 3) (se_cert_key env)
                          ''./cert'' ''server'' ''server'' fs of
                     (Fatal e, fs) \<Rightarrow> ([], Fatal e, fs)
                   | (Returned, fs) \<Rightarrow> (CertificatesMade # listeners env conf fs, Returned, fs)))))"

definition main_run :: "('st, 'k) start_env \<Rightarrow> 'st \<Rightarrow> files \<Rightarrow> 'k action list \<times> ending \<times> 'st \<times> files" where
  "main_run env st fs =
     (case se_config env of
        Inl e \<Rightarrow> ([], Fatal ''failed to load config'', st, fs)
      | Inr conf \<Rightarrow>
          (case Connect (se_store env) (c_Debug conf) of
             Fatal e \<Rightarrow> ([], Fatal e, st, fs)
           | Returned \<Rightarrow>
               (case se_migrate env of
                  Some e \<Rightarrow> ([], Fatal e, st, fs)
                | None \<Rightarrow>
                    (let (err, warn, st) = seed_admin (se_first_or_create env) (se_generate env) st;
                         acts = [Migrated, case err of None \<Rightarrow> AdminSeeded | Some e \<Rightarrow> SeedingFailed e]
                           @ (if warn then [DefaultPasswordWarned] else [])
                     in case se_key env of
                          Inl e \<Rightarrow> (acts, Fatal (''secrets: '' @ e), st, fs)
                        | Inr key \<Rightarrow>
                            (let acts = acts
                                   @ (if c_DisableDhcp conf then [] else map DhcpStarted (c_Interfaces conf))
                                   @ [TftpStarted]
                             in case se_routers env of
                                  Some e \<Rightarrow> (acts, Fatal e, st, fs)
                                | None \<Rightarrow>
                                    (case start_https env conf fs of
                                       (last_acts, e, fs) \<Rightarrow> (acts @ RoutersMade # last_acts, e, st, fs)))))))"

subsection \<open>Facts\<close>

definition usable :: "net_if \<Rightarrow> bool" where
  "usable i \<longleftrightarrow> \<not> if_Loopback i \<and> \<not> if_PointToPoint i \<and> if_v4 i \<noteq> None"

lemma find_interfaces_filter: "find_interfaces vs = map if_Name (filter usable vs)"
  by (induction vs) (auto simp: usable_def)

lemma FindIPv4Addr_length: "FindIPv4Addr as = Some (ip, net) \<Longrightarrow> length ip = 4"
  by (induction as rule: FindIPv4Addr.induct) (use To4_length in \<open>auto split: if_splits\<close>)

lemma Load_Inr:
  assumes "Load lib ifs = Inr c"
  obtains c0 where "validate lib c0 = None"
    and "c = (if c_Interfaces c0 = []
      then c0\<lparr>c_Interfaces := find_interfaces (case ifs of None \<Rightarrow> [] | Some vs \<Rightarrow> vs)\<rparr> else c0)"
  using assms by (auto simp: Load_def Let_def split: sum.splits option.splits if_splits)

lemma find_distinct:
  "distinct (map f vs) \<Longrightarrow> v \<in> set vs \<Longrightarrow> List.find (\<lambda>i. f i = f v) vs = Some v"
  by (induction vs) force+

lemma Allowed_new: "Allowed (NewThrottle m w) k t = (True, NewThrottle m w)"
  by (simp add: Allowed_def NewThrottle_def Let_def)

text \<open>What the database library's \<^verbatim>\<open>FirstOrCreate\<close> promises of users: the row of that name as it is, or a
  new one of that name with the attributes.\<close>

definition first_or_create_law ::
    "('st \<Rightarrow> string \<Rightarrow> db_error + user) \<Rightarrow> ('st \<Rightarrow> user \<Rightarrow> user \<Rightarrow> db_error \<times> user + user \<times> 'st) \<Rightarrow> bool" where
  "first_or_create_law by_name first_or_create \<longleftrightarrow>
     (\<forall>st st' cond attrs u. first_or_create st cond attrs = Inr (u, st') \<longrightarrow>
        (case by_name st (u_Username cond) of
           Inr old \<Rightarrow> u = old \<and> st' = st
         | Inl e \<Rightarrow> (\<exists>k. u = attrs\<lparr>u_ID := k, u_Username := u_Username cond\<rparr>)
             \<and> by_name st' (u_Username cond) = Inr u))"

subsection \<open>Properties\<close>

text \<open>configured interfaces are served as they are; without any, exactly those that are neither loopback
  nor point to point and have an IPv4 address are, and the DHCP server of each of these comes up
  with such an address if its socket opens.\<close>

theorem interfaces_served:
  assumes "Load lib (Some vs) = Inr c" and "distinct (map if_Name vs)"
  shows "\<exists>c0. validate lib c0 = None
    \<and> (if c_Interfaces c0 \<noteq> [] then c = c0
       else c_Interfaces c = map if_Name (filter usable vs)
         \<and> (\<forall>n \<in> set (c_Interfaces c). \<exists>ip net.
              dhcp_open (\<lambda>n. List.find (\<lambda>i. if_Name i = n) vs) (\<lambda>_. None) n = Inr (ip, net) \<and> length ip = 4))"
proof (rule Load_Inr [OF assms(1)])
  fix c0
  assume c0: "validate lib c0 = None"
    and c: "c = (if c_Interfaces c0 = []
      then c0\<lparr>c_Interfaces := find_interfaces (case Some vs of None \<Rightarrow> [] | Some vs \<Rightarrow> vs)\<rparr> else c0)"
  have opens: "\<exists>ip net. dhcp_open (\<lambda>n. List.find (\<lambda>i. if_Name i = n) vs) (\<lambda>_. None) (if_Name v) = Inr (ip, net)
      \<and> length ip = 4" if v: "v \<in> set vs" "usable v" for v
  proof -
    obtain ip net where v4: "if_v4 v = Some (ip, net)" using v(2) by (auto simp: usable_def)
    then have "length ip = 4" using FindIPv4Addr_length by (auto simp: if_v4_def split: option.splits)
    then show ?thesis using v4 find_distinct [OF assms(2) v(1)] by (simp add: dhcp_open_def)
  qed
  have "c_Interfaces c = map if_Name (filter usable vs)" if "c_Interfaces c0 = []"
    using c that by (simp add: find_interfaces_filter)
  with opens c c0 show ?thesis by (intro exI [of _ c0]) auto
qed

text \<open>C34: on a fresh database the seeded administrator can log in with the documented password, from any
  address, and is told to change it; on every later start the account is left as it is, so its
  password is never set back.\<close>

theorem admin_seeded:
  assumes law: "first_or_create_law by_name first_or_create"
    and seeded: "first_or_create st (zero_user\<lparr>u_Username := ''admin''\<rparr>)
       (zero_user\<lparr>u_Password := HashAndSalt generate defaultPassword, u_MustChangePassword := True\<rparr>) = Inr (adm, st')"
    and hash: "generate defaultPassword = Some h" "matches h defaultPassword"
  shows "seed_admin first_or_create generate st = (None, u_MustChangePassword adm, st')
    \<and> (case by_name st ''admin'' of
        Inr old \<Rightarrow> st' = st \<and> adm = old
      | Inl e \<Rightarrow> \<exists>a' ck. Login \<lparr>find_user = by_name st', bcrypt_matches = matches\<rparr> default_auth r
            (Inr (''admin'', defaultPassword)) (Some b) t1 t2 t3
          = ((JSON 200 \<lparr>sr_Username = ''admin'', sr_MustChangePassword = True\<rparr>, Some ck), a') \<and> ck_Secure ck)"
proof
  show "seed_admin first_or_create generate st = (None, u_MustChangePassword adm, st')"
    using seeded by (simp add: seed_admin_def Let_def)
  note l = law [unfolded first_or_create_law_def, rule_format, OF seeded]
  show "case by_name st ''admin'' of
        Inr old \<Rightarrow> st' = st \<and> adm = old
      | Inl e \<Rightarrow> \<exists>a' ck. Login \<lparr>find_user = by_name st', bcrypt_matches = matches\<rparr> default_auth r
            (Inr (''admin'', defaultPassword)) (Some b) t1 t2 t3
          = ((JSON 200 \<lparr>sr_Username = ''admin'', sr_MustChangePassword = True\<rparr>, Some ck), a') \<and> ck_Secure ck"
  proof (cases "by_name st ''admin''")
    case (Inr old)
    then show ?thesis using l by simp
  next
    case (Inl e)
    with l obtain k where adm: "by_name st' ''admin'' = Inr adm"
      "adm = zero_user\<lparr>u_Password := h, u_MustChangePassword := True, u_ID := k, u_Username := ''admin''\<rparr>"
      using hash(1) by (auto simp: HashAndSalt_def)
    have "bind_login (Inr (''admin'', defaultPassword)) = Inr (''admin'', defaultPassword)"
      by (simp add: bind_login_Inr defaultPassword_def)
    from Login_checked [OF this, of default_auth r t1] show ?thesis
      using Inl adm hash(2)
      by (simp add: default_auth_def Allowed_new Create_def setCookie_def zero_user_def Let_def)
  qed
qed

text \<open>Every start ends early, with the files as they were and no HTTPS served, or comes to its last part.\<close>

lemma main_run_cases:
  assumes "main_run env st fs = (acts, e, st1, fs1)"
  obtains (early) "fs1 = fs" and "e \<noteq> Returned" and "\<And>a c k. HttpsServes a c k \<notin> set acts"
  | (late) conf last_acts where "se_config env = Inr conf" and "start_https env conf fs = (last_acts, e, fs1)"
      and "\<And>a c k. HttpsServes a c k \<in> set acts \<longleftrightarrow> HttpsServes a c k \<in> set last_acts"
proof -
  obtain err warn st' where s: "seed_admin (se_first_or_create env) (se_generate env) st = (err, warn, st')"
    by (metis prod.exhaust)
  show ?thesis
  proof (cases "\<exists>conf key. se_config env = Inr conf \<and> Connect (se_store env) (c_Debug conf) = Returned
      \<and> se_migrate env = None \<and> se_key env = Inr key \<and> se_routers env = None")
    case True
    then obtain conf key where ok: "se_config env = Inr conf" "Connect (se_store env) (c_Debug conf) = Returned"
      "se_migrate env = None" "se_key env = Inr key" "se_routers env = None" by blast
    obtain last_acts e' fs' where h: "start_https env conf fs = (last_acts, e', fs')" by (metis prod.exhaust)
    have eq: "acts = ([Migrated, case err of None \<Rightarrow> AdminSeeded | Some e \<Rightarrow> SeedingFailed e]
        @ (if warn then [DefaultPasswordWarned] else [])
        @ (if c_DisableDhcp conf then [] else map DhcpStarted (c_Interfaces conf)) @ [TftpStarted, RoutersMade])
        @ last_acts" "e' = e" "fs' = fs1"
      using assms ok s h by (simp_all add: main_run_def Let_def)
    show ?thesis
      by (rule late [OF ok(1), of last_acts]) (use h eq in \<open>auto split: option.splits\<close>)
  next
    case False
    then show ?thesis
      using assms s
      by (intro early) (auto simp: main_run_def Let_def split: sum.splits option.splits ending.splits prod.splits if_splits)
  qed
qed

lemma listeners_serve:
  "HttpsServes a c k \<in> set (listeners env conf fs) \<longleftrightarrow> a = '':'' @ Itoa (c_Port conf)
     \<and> RunTLS env fs a ''./cert/server.crt'' ''./cert/server.key'' = Inr (c, k)"
  by (auto simp: listeners_def Let_def split: sum.splits)

lemma RunTLS_Inr:
  "RunTLS env fs a crt key = Inr p \<longleftrightarrow> se_listen env a = None
     \<and> (\<exists>c k. fs crt = Some c \<and> fs key = Some k \<and> LoadX509KeyPair (se_x509 env) (f_data c) (f_data k) = Inr p)"
  by (auto simp: RunTLS_def split: option.splits)

lemma RunTLS_pair:
  assumes "fs crt = Some c" and "fs key = Some k" and "LoadX509KeyPair x (f_data c) (f_data k) = Inr p"
    and "se_x509 env = x"
  shows "RunTLS env fs a crt key = (case se_listen env a of None \<Rightarrow> Inr p | Some e \<Rightarrow> Inl e)"
  using assms by (simp add: RunTLS_def split: option.splits)

text \<open>A start that finds a certificate leaves the files as they are.\<close>

lemma found_certificate:
  assumes "main_run env st fs = (acts, e, st1, fs1)" and "fs ''./cert/server.crt'' = Some c"
  shows "fs1 = fs"
    and "HttpsServes a crt key \<in> set acts \<Longrightarrow> RunTLS env fs a ''./cert/server.crt'' ''./cert/server.key'' = Inr (crt, key)"
    and "e = Returned \<Longrightarrow> \<exists>conf. se_config env = Inr conf
      \<and> (\<forall>a c k. HttpsServes a c k \<in> set acts \<longleftrightarrow> HttpsServes a c k \<in> set (listeners env conf fs))"
proof -
  have "fs1 = fs \<and> ((\<forall>a c k. HttpsServes a c k \<notin> set acts) \<and> e \<noteq> Returned \<or> (\<exists>conf. se_config env = Inr conf
    \<and> (\<forall>a c k. HttpsServes a c k \<in> set acts \<longleftrightarrow> HttpsServes a c k \<in> set (listeners env conf fs))))"
    using assms(1)
  proof (cases rule: main_run_cases)
    case early
    then show ?thesis by blast
  next
    case (late conf last_acts)
    show ?thesis
    proof (cases "se_stat_error env")
      case (Some x)
      then show ?thesis using late by (auto simp: start_https_def)
    next
      case None
      then have "last_acts = CertificateFound # listeners env conf fs" "fs1 = fs"
        using late(2) assms(2) by (auto simp: start_https_def)
      then show ?thesis using late(1,3) by auto
    qed
  qed
  then show "fs1 = fs"
    and "HttpsServes a crt key \<in> set acts \<Longrightarrow> RunTLS env fs a ''./cert/server.crt'' ''./cert/server.key'' = Inr (crt, key)"
    and "e = Returned \<Longrightarrow> \<exists>conf. se_config env = Inr conf
      \<and> (\<forall>a c k. HttpsServes a c k \<in> set acts \<longleftrightarrow> HttpsServes a c k \<in> set (listeners env conf fs))"
    by (auto simp: listeners_serve)
qed

text \<open>C36: the web interface keeps its identity: a start without certificates that comes to serve HTTPS serves, on the configured
  port, a new certificate for the server, signed by the authority made along with it, with the key
  made for it, which is on disk readable by the owner only; and every later start, whatever else it meets,
  leaves these files alone and serves HTTPS with this certificate and key or not at all, and does if it comes to
  its end and can listen.\<close>

theorem certificate_kept:
  assumes laws: "x509_laws x" and x: "se_x509 env = x" "se_x509 env' = x"
    and new: "fs ''cert/ca.crt'' = None" "fs ''cert/ca.key'' = None"
      "fs ''./cert/server.crt'' = None" "fs ''./cert/server.key'' = None"
    and first: "main_run env st fs = (acts, e, st1, fs1)" and served: "HttpsServes addr crt key \<in> set acts"
    and later: "main_run env' st' fs1 = (acts', e', st2, fs2)"
  shows "(\<exists>conf. se_config env = Inr conf \<and> addr = '':'' @ Itoa (c_Port conf))
    \<and> se_cert_key env = Inr key
    \<and> (\<exists>ca_priv ca_b root. se_ca_key env = Inr ca_priv \<and> ParseCertificate x ca_b = Inr root \<and> IsCA root
        \<and> map_option f_data (fs1 ''cert/ca.crt'') = Some (PEM ''CERTIFICATE'' ca_b)
        \<and> CreateCertificate x (cert_template ''server'' (se_now env 2) (se_now env 3)) root key ca_priv = Inr crt)
    \<and> map_option f_perm (fs1 ''./cert/server.key'') = Some mode_0600
    \<and> fs2 = fs1
    \<and> (\<forall>a c k. HttpsServes a c k \<in> set acts' \<longrightarrow> c = crt \<and> k = key)
    \<and> (e' = Returned \<and> (\<forall>a. se_listen env' a = None) \<longrightarrow> (\<exists>a. HttpsServes a crt key \<in> set acts'))"
  using first
proof (cases rule: main_run_cases)
  case early
  then show ?thesis using served by blast
next
  case (late conf last_acts)
  then have "HttpsServes addr crt key \<in> set last_acts" using served by simp
  then obtain fs0 where ca: "CreateCA x (se_disk env) (se_now env 0) (se_now env 1) (se_ca_key env) fs = (Returned, fs0)"
    and cert: "CreateCert x (se_disk env) (se_now env 2) (se_now env 3) (se_cert_key env) ''./cert'' ''server'' ''server'' fs0
      = (Returned, fs1)"
    and l: "HttpsServes addr crt key \<in> set (listeners env conf fs1)"
    using late(2) new(3) x(1)
    by (auto simp: start_https_def split: if_splits option.splits prod.splits ending.splits)
  show ?thesis
  proof (rule pair_made [OF laws ca cert new(1,2)])
    fix ca_priv priv ca_b cert_b
    assume made: "se_ca_key env = Inr ca_priv" "se_cert_key env = Inr priv"
      "CreateCertificate x (ca_template (se_now env 0) (se_now env 1)) (ca_template (se_now env 0) (se_now env 1))
         ca_priv ca_priv = Inr ca_b"
      "CreateCertificate x (cert_template ''server'' (se_now env 2) (se_now env 3))
         (as_parsed x (ca_template (se_now env 0) (se_now env 1)) ca_priv) priv ca_priv = Inr cert_b"
      and fs1: "fs1 = opened (opened (opened (opened fs ''cert/ca.crt'' mode_0644 (PEM ''CERTIFICATE'' ca_b))
        ''cert/ca.key'' mode_0600 (PEM ''RSA PRIVATE KEY'' (MarshalPKCS1PrivateKey x ca_priv)))
        ''./cert/server.crt'' mode_0644 (PEM ''CERTIFICATE'' cert_b))
        ''./cert/server.key'' mode_0600 (PEM ''RSA PRIVATE KEY'' (MarshalPKCS1PrivateKey x priv))"
    note root = x509_lawsD [OF laws made(3) disjI1 [OF refl]] and leaf = x509_lawsD [OF laws made(4) disjI2 [OF refl]]
    have disk: "fs1 ''./cert/server.crt'' = Some \<lparr>f_perm = mode_0644, f_data = PEM ''CERTIFICATE'' cert_b\<rparr>"
      "fs1 ''./cert/server.key'' = Some \<lparr>f_perm = mode_0600,
         f_data = PEM ''RSA PRIVATE KEY'' (MarshalPKCS1PrivateKey x priv)\<rparr>"
      "map_option f_data (fs1 ''cert/ca.crt'') = Some (PEM ''CERTIFICATE'' ca_b)"
      using new by (simp_all add: fs1 opened_def)
    note run = RunTLS_pair [where fs = fs1, OF disk(1) disk(2), unfolded pem_file.simps, OF leaf(2)]
    have pair: "crt = cert_b" "key = priv" "addr = '':'' @ Itoa (c_Port conf)"
      using l run [OF x(1), of addr] by (auto simp: listeners_serve split: option.splits)
    note found = found_certificate [OF later disk(1)]
    have same: "c = crt \<and> k = key" if "HttpsServes a c k \<in> set acts'" for a c k
      using found(2) [OF that] run [OF x(2), of a] pair by (auto split: option.splits)
    have serves: "\<exists>a. HttpsServes a crt key \<in> set acts'" if ok: "e' = Returned" "\<forall>a. se_listen env' a = None"
    proof -
      obtain conf' where "HttpsServes a c k \<in> set acts' \<longleftrightarrow> HttpsServes a c k \<in> set (listeners env' conf' fs1)" for a c k
        using found(3) [OF ok(1)] by blast
      moreover have "HttpsServes ('':'' @ Itoa (c_Port conf')) crt key \<in> set (listeners env' conf' fs1)"
        using run [OF x(2)] ok(2) pair by (simp add: listeners_serve)
      ultimately show ?thesis by blast
    qed
    have "IsCA (as_parsed x (ca_template (se_now env 0) (se_now env 1)) ca_priv)"
      by (simp add: as_parsed_templates) (simp add: ca_template_def)
    then show ?thesis
      using late(1) made pair root(1) disk same serves found(1) by auto
  qed
qed

text \<open>Only the certificate is looked for: when the first start fails between the certificate and its key, every later start
  takes the certificate for granted and serves no HTTPS, until somebody removes it.\<close>

theorem half_pair_is_final:
  assumes "CreateCA x d t1 t2 (Inr ca_priv) fs = (Returned, fs0)"
    and "CreateCert x d t3 t4 key ''./cert'' ''server'' ''server'' fs0 = (e, fs1)" and "e \<noteq> Returned"
    and "fs1 ''./cert/server.crt'' = Some c" and "fs1 ''./cert/server.key'' = None"
    and "main_run env st fs1 = (acts, e', st1, fs2)"
  shows "fs2 = fs1 \<and> HttpsServes a crt k \<notin> set acts"
  using found_certificate(1,2) [OF assms(6,4)] assms(5) by (fastforce simp: RunTLS_Inr)

subsection \<open>Witnesses\<close>

definition example_if :: net_if where
  "example_if = \<lparr>if_Name = ''eth0'', if_Loopback = False, if_PointToPoint = False,
     if_Addrs = Some [IPNet [10, 0, 0, 1] [255, 255, 255, 0]]\<rparr>"

definition example_config :: config where
  "example_config = \<lparr>c_Debug = False, c_Port = 443, c_File = [], c_Interfaces = [], c_DisableDhcp = False\<rparr>"

theorem interfaces_served_witness:
  "\<exists>ip net. dhcp_open (\<lambda>n. List.find (\<lambda>i. if_Name i = n) [example_if]) (\<lambda>_. None) ''eth0'' = Inr (ip, net)
     \<and> length ip = 4"
proof -
  let ?lib = "\<lparr>load_default = Inr example_config, load_path = (\<lambda>f c. Inr c),
      validate = (\<lambda>c. if c_Interfaces c = [] then None else Some ''no'')\<rparr>"
  have "usable example_if" by (simp add: usable_def example_if_def if_v4_def)
  then have "Load ?lib (Some [example_if]) = Inr (example_config\<lparr>c_Interfaces := [''eth0'']\<rparr>)"
    by (simp add: Load_def example_config_def find_interfaces_filter) (simp add: example_if_def)
  from interfaces_served [OF this] show ?thesis by (auto split: if_splits)
qed

definition example_foc :: "user list \<Rightarrow> user \<Rightarrow> user \<Rightarrow> db_error \<times> user + user \<times> user list" where
  "example_foc st cond attrs =
     (case List.find (\<lambda>u. u_Username u = u_Username cond) st of
        Some u \<Rightarrow> Inr (u, st)
      | None \<Rightarrow> (let u = attrs\<lparr>u_ID := 1, u_Username := u_Username cond\<rparr> in Inr (u, u # st)))"

definition example_by_name :: "user list \<Rightarrow> string \<Rightarrow> db_error + user" where
  "example_by_name st n =
     (case List.find (\<lambda>u. u_Username u = n) st of None \<Rightarrow> Inl ErrRecordNotFound | Some u \<Rightarrow> Inr u)"

lemma example_foc_law: "first_or_create_law example_by_name example_foc"
  by (auto simp: first_or_create_law_def example_by_name_def example_foc_def Let_def split: option.splits)

theorem admin_seeded_witness:
  "\<exists>st' a' ck. Login \<lparr>find_user = example_by_name st', bcrypt_matches = (\<lambda>h p. h = ''hash'' \<and> p = ''VMware1!'')\<rparr>
       default_auth ''10.0.0.9:1'' (Inr (''admin'', ''VMware1!'')) (Some [1]) 1 1 1
     = ((JSON 200 \<lparr>sr_Username = ''admin'', sr_MustChangePassword = True\<rparr>, Some ck), a')"
proof -
  obtain adm st' where seeded: "example_foc [] (zero_user\<lparr>u_Username := ''admin''\<rparr>)
      (zero_user\<lparr>u_Password := HashAndSalt (\<lambda>p. Some ''hash'') defaultPassword, u_MustChangePassword := True\<rparr>)
    = Inr (adm, st')"
    by (simp add: example_foc_def Let_def)
  have "\<exists>a' ck. Login \<lparr>find_user = example_by_name st', bcrypt_matches = (\<lambda>h p. h = ''hash'' \<and> p = ''VMware1!'')\<rparr>
       default_auth ''10.0.0.9:1'' (Inr (''admin'', defaultPassword)) (Some [1]) 1 1 1
     = ((JSON 200 \<lparr>sr_Username = ''admin'', sr_MustChangePassword = True\<rparr>, Some ck), a') \<and> ck_Secure ck"
    using admin_seeded [OF example_foc_law seeded, of "''hash''" "\<lambda>h p. h = ''hash'' \<and> p = ''VMware1!''" "''10.0.0.9:1''" "[1]" 1 1 1]
    by (simp add: example_by_name_def defaultPassword_def)
  then show ?thesis unfolding defaultPassword_def by blast
qed

text \<open>A start that meets no trouble.\<close>

definition example_start :: "civil_time \<Rightarrow> (user list, nat) start_env" where
  "example_start t = \<lparr>se_config = Inr example_config,
     se_store = \<lparr>db_missing = False, mkdir_error = None, create_error = None, close_error = None,
       gorm_Open = (\<lambda>dsn conf. None)\<rparr>,
     se_migrate = None, se_first_or_create = example_foc, se_generate = (\<lambda>p. Some ''hash''), se_key = Inr ''key'',
     se_routers = None, se_stat_error = None, se_mkdir = None, se_now = (\<lambda>n. t), se_x509 = example_x509 t t,
     se_disk = good_disk, se_ca_key = Inr 1, se_cert_key = Inr 2, se_listen = (\<lambda>a. None)\<rparr>"

lemma example_start_run:
  "\<exists>acts st1 fs1. main_run (example_start t) [] Map.empty = (acts, Returned, st1, fs1)
     \<and> HttpsServes ('':'' @ Itoa 443) ''server##'' 2 \<in> set acts"
proof -
  from example_pair obtain fs0 fs1 where
    ca: "CreateCA (example_x509 t t) good_disk t t (Inr 1) Map.empty = (Returned, fs0)"
    and cert: "CreateCert (example_x509 t t) good_disk t t (Inr 2) ''./cert'' ''server'' ''server'' fs0 = (Returned, fs1)"
    by blast
  obtain ca_b where "fs1 = opened (opened (opened (opened Map.empty ''cert/ca.crt'' mode_0644 (PEM ''CERTIFICATE'' ca_b))
      ''cert/ca.key'' mode_0600 (PEM ''RSA PRIVATE KEY'' (MarshalPKCS1PrivateKey (example_x509 t t) 1)))
      ''./cert/server.crt'' mode_0644 (PEM ''CERTIFICATE'' ''server##''))
      ''./cert/server.key'' mode_0600 (PEM ''RSA PRIVATE KEY'' (MarshalPKCS1PrivateKey (example_x509 t t) 2))"
    by (rule pair_made [OF example_x509_laws ca cert])
      (auto simp: example_x509_def templates_differ numeral_2_eq_2)
  then have "RunTLS (example_start t) fs1 a ''./cert/server.crt'' ''./cert/server.key'' = Inr (''server##'', 2)" for a
    by (simp add: RunTLS_def opened_def example_start_def example_x509_def)
  then have l: "HttpsServes ('':'' @ Itoa 443) ''server##'' 2 \<in> set (listeners (example_start t) example_config fs1)"
    by (simp add: listeners_serve example_config_def)
  have "start_https (example_start t) example_config Map.empty
      = (CertificatesMade # listeners (example_start t) example_config fs1, Returned, fs1)"
    using ca cert by (simp add: start_https_def) (simp add: example_start_def)
  moreover obtain warn st1 where "seed_admin (se_first_or_create (example_start t)) (se_generate (example_start t)) []
      = (None, warn, st1)"
    by (simp add: seed_admin_def example_start_def example_foc_def Let_def)
  moreover have "se_config (example_start t) = Inr example_config" "se_migrate (example_start t) = None"
    "se_key (example_start t) = Inr ''key''" "se_routers (example_start t) = None"
    "Connect (se_store (example_start t)) (c_Debug example_config) = Returned"
    by (simp_all add: example_start_def Connect_def Open_def)
  ultimately show ?thesis
    using l by (simp add: main_run_def Let_def)
qed

theorem certificate_kept_witness:
  "\<exists>t acts st1 fs1 acts' e' st2. main_run (example_start t) [] Map.empty = (acts, Returned, st1, fs1)
     \<and> main_run (example_start t) st1 fs1 = (acts', e', st2, fs1)
     \<and> map_option f_perm (fs1 ''./cert/server.key'') = Some mode_0600
     \<and> (\<forall>a c k. HttpsServes a c k \<in> set acts' \<longrightarrow> c = ''server##'' \<and> k = 2)"
proof -
  define t :: civil_time where "t = \<lparr>year = 2024, month = 2, day = 29, clock = 0\<rparr>"
  from example_start_run obtain acts st1 fs1 where first: "main_run (example_start t) [] Map.empty = (acts, Returned, st1, fs1)"
    and served: "HttpsServes ('':'' @ Itoa 443) ''server##'' 2 \<in> set acts" by blast
  obtain acts' e' st2 fs2 where later: "main_run (example_start t) st1 fs1 = (acts', e', st2, fs2)"
    by (metis prod.exhaust)
  have x: "se_x509 (example_start t) = example_x509 t t" by (simp add: example_start_def)
  have "map_option f_perm (fs1 ''./cert/server.key'') = Some mode_0600" "fs2 = fs1"
    "\<forall>a c k. HttpsServes a c k \<in> set acts' \<longrightarrow> c = ''server##'' \<and> k = 2"
    using certificate_kept [OF example_x509_laws x x _ _ _ _ first served later] by simp_all
  with first later show ?thesis by blast
qed

end
