(* ===== verification/Transitions.thy ===== *)
theory Transitions
  imports Main
begin

section \<open>Runs and simulations\<close>

text \<open>
  What the step relations of the development share: a run is a list of events one after the other,
  and a simulation is the interface between the steps of a component and those of a simpler
  description of it. Properties of the description, proved there once, hold of the component.
\<close>

inductive run :: "('s \<Rightarrow> 'e \<Rightarrow> 's \<Rightarrow> bool) \<Rightarrow> 's \<Rightarrow> 'e list \<Rightarrow> 's \<Rightarrow> bool" for step where
  run_Nil: "run step s [] s"
| run_snoc: "run step s es s1 \<Longrightarrow> step s1 e s2 \<Longrightarrow> run step s (es @ [e]) s2"

lemma run_keeps:
  assumes "run step s es s'" and "P s" and "list_all ok es"
    and "\<And>s e s'. P s \<Longrightarrow> step s e s' \<Longrightarrow> ok e \<Longrightarrow> P s'"
  shows "P s'"
  using assms by (induction rule: run.induct) auto

lemma run_one: "step s e s' \<Longrightarrow> run step s [e] s'"
  using run_snoc [OF run_Nil] by fastforce

lemma run_trans: "run step s1 fs s2 \<Longrightarrow> run step s es s1 \<Longrightarrow> run step s (es @ fs) s2"
proof (induction rule: run.induct)
  case (run_snoc s fs s1 e s2)
  then show ?case using run.run_snoc [of step _ "es @ fs"] by simp
qed simp

lemma run_split:
  "run step s (es @ e # fs) s' \<Longrightarrow> \<exists>s1 s2. run step s es s1 \<and> step s1 e s2 \<and> run step s2 fs s'"
proof (induction fs arbitrary: s' rule: rev_induct)
  case Nil
  then show ?case by (cases rule: run.cases) (auto intro: run_Nil)
next
  case (snoc f fs)
  from snoc.prems obtain s2 where "run step s (es @ e # fs) s2" "step s2 f s'"
    by (cases rule: run.cases) auto
  with snoc.IH [of s2] show ?case by (metis run_snoc)
qed

text \<open>A description sees an event of the component as \<open>label\<close> of it, and its state through \<open>view\<close>; an
  event without a label is none of its concern.\<close>

locale simulation =
  fixes step :: "'c \<Rightarrow> 'd \<Rightarrow> 'c \<Rightarrow> bool"
    and inv :: "'c \<Rightarrow> bool"
    and view :: "'c \<Rightarrow> 'a"
    and label :: "'d \<Rightarrow> 'e option"
    and astep :: "'a \<Rightarrow> 'e \<Rightarrow> 'a \<Rightarrow> bool"
  assumes inv_step: "inv s \<Longrightarrow> step s d s' \<Longrightarrow> inv s'"
    and sim_step: "inv s \<Longrightarrow> step s d s' \<Longrightarrow> label d = Some e \<Longrightarrow> astep (view s) e (view s')"
    and silent: "inv s \<Longrightarrow> step s d s' \<Longrightarrow> label d = None \<Longrightarrow> view s' = view s"
begin

lemma inv_run: "run step s ds s' \<Longrightarrow> inv s \<Longrightarrow> inv s'"
  by (induction rule: run.induct) (auto intro: inv_step)

lemma sim_run: "run step s ds s' \<Longrightarrow> inv s \<Longrightarrow> run astep (view s) (List.map_filter label ds) (view s')"
proof (induction rule: run.induct)
  case (run_Nil s)
  then show ?case by (simp add: List.map_filter_def run.run_Nil)
next
  case (run_snoc s ds s1 d s2)
  then have IH: "run astep (view s) (List.map_filter label ds) (view s1)" and inv: "inv s1"
    using inv_run by auto
  show ?case
  proof (cases "label d")
    case None
    then show ?thesis using IH silent [OF inv run_snoc.hyps(2)] by (simp add: List.map_filter_def)
  next
    case (Some e)
    then show ?thesis
      using run.run_snoc [OF IH sim_step [OF inv run_snoc.hyps(2) Some]] by (simp add: List.map_filter_def)
  qed
qed

lemma transfer:
  assumes "run step s ds s'" and "inv s" and "P (view s)" and "list_all ok (List.map_filter label ds)"
    and "\<And>a e a'. P a \<Longrightarrow> astep a e a' \<Longrightarrow> ok e \<Longrightarrow> P a'"
  shows "P (view s')"
  by (rule run_keeps [of astep "view s" _ "view s'" P ok, OF sim_run [OF assms(1,2)] assms(3,4)]) (rule assms(5))

end

end
