(* ===== verification/Lifecycle.thy ===== *)
theory Lifecycle
  imports Install Transitions
begin

section \<open>The life of a host\<close>

text \<open>
  What a host on record goes through, as a small automaton over its row and over the copies of it that
  workers hold, and the proof that everything that happens in \<open>Install\<close>, boots, kickstarts, reports,
  workers and operators in any order, is for each host a run of it. What holds of the automaton is
  proved there and holds of the handlers.
\<close>

subsection \<open>The automaton\<close>

type_synonym life = "host option \<times> host list"

definition boot_stages :: "(int \<times> string) list" where
  "boot_stages = [(10, ''mboot.efi''), (12, ''crypto64.efi''), (15, ''installation'')]"

text \<open>An event is of another host, or fails, or does what it is for. A worker ends with the row as its
  copy has it, whether there still is a row or not, or, when it cannot save, drops its copy.\<close>

inductive life_step :: "int \<Rightarrow> life \<Rightarrow> event \<Rightarrow> life \<Rightarrow> bool" for i where
  elsewhere: "life_step i l e l"
| booting: "(n, t) \<in> set boot_stages \<Longrightarrow> life_step i (Some h, js) Booted (Some (at_stage h n t), js)"
| appearing: "(n, t) \<in> set boot_stages \<Longrightarrow>
    life_step i (None, js) Booted (Some ((at_stage zero_host n t)\<lparr>h_ID := i\<rparr>), js)"
| disarming: "life_step i (Some h, js) Kickstarted (Some (h\<lparr>h_Reimage := False\<rparr>), js)"
| serving: "life_step i (Some h, js) Kickstarted (Some (at_stage (h\<lparr>h_Reimage := False\<rparr>) 50 ''kickstart''), js)"
| reporting: "life_step i (Some h, js) Reported (Some h, js @ [h])"
| completing: "life_step i (r, before @ j # after) Worked (Some (at_stage j 100 ''completed''), before @ after)"
| dropping: "life_step i (r, before @ j # after) Worked (r, before @ after)"
| operating: "life_step i (r, js) Operated (r', js)"

text \<open>How the automaton sees the state of an installation.\<close>

definition row_of :: "('st, host) table \<Rightarrow> 'st \<Rightarrow> int \<Rightarrow> host option" where
  "row_of tb db i = (case tb_First tb db i of Inl e \<Rightarrow> None | Inr h \<Rightarrow> Some h)"

definition life_of :: "('st, host) table \<Rightarrow> int \<Rightarrow> 'st install \<Rightarrow> life" where
  "life_of tb i s = (row_of tb (in_db s) i, filter (\<lambda>j. h_ID j = i) (in_jobs s))"

text \<open>Workers only hold hosts that were read from the table.\<close>

definition jobs_stored :: "('st, host) table \<Rightarrow> 'st ks_env \<Rightarrow> 'st install \<Rightarrow> bool" where
  "jobs_stored tb env s \<longleftrightarrow> ks_laws tb env \<and> list_all (\<lambda>j. h_ID j \<noteq> 0) (in_jobs s)"

subsection \<open>Every handler follows the automaton\<close>

lemma row_of_Some: "row_of tb db i = Some h \<longleftrightarrow> tb_First tb db i = Inr h"
  by (simp add: row_of_def split: sum.splits)

lemma row_of_Inr [simp]: "tb_First tb db i = Inr h \<Longrightarrow> row_of tb db i = Some h"
  by (simp add: row_of_def)

lemma row_of_cong: "tb_First tb db' i = tb_First tb db i \<Longrightarrow> row_of tb db' i = row_of tb db i"
  by (simp add: row_of_def)

lemma saved_cases:
  assumes tl: "table_laws tb h_ID (\<lambda>k h. h\<lparr>h_ID := k\<rparr>)"
  obtains (same) "row_of tb (saved tb db h) i = row_of tb db i"
  | (replaced) "h_ID h = i" "i \<noteq> 0" "row_of tb (saved tb db h) i = Some h"
  | (made) "h_ID h = 0" "row_of tb db i = None" "row_of tb (saved tb db h) i = Some (h\<lparr>h_ID := i\<rparr>)"
proof (cases "tb_Save tb db h")
  case (Inl e)
  then show ?thesis using same by (simp add: saved_def)
next
  case (Inr p)
  then obtain b db' where save: "tb_Save tb db h = Inr (b, db')" "saved tb db h = db'"
    by (cases p) (simp add: saved_def)
  show ?thesis
  proof (cases "h_ID h = 0")
    case True
    then obtain k where k: "b = h\<lparr>h_ID := k\<rparr>" "tb_First tb db k = Inl ErrRecordNotFound" "tb_First tb db' k = Inr b"
        "\<forall>k'. k' \<noteq> k \<longrightarrow> tb_First tb db' k' = tb_First tb db k'"
      using table_lawsD(6) [OF tl save(1)] unfolding created_def by blast
    show ?thesis
    proof (cases "i = k")
      case True
      with k save(2) \<open>h_ID h = 0\<close> show ?thesis by (intro made) (simp_all add: row_of_def)
    next
      case False
      with k save(2) show ?thesis by (intro same row_of_cong) simp
    qed
  next
    case False
    note replace = table_lawsD(3) [OF tl save(1) False]
    show ?thesis
    proof (cases "h_ID h = i")
      case True
      with False replace save(2) show ?thesis by (intro replaced) auto
    next
      case other: False
      with replace save(2) show ?thesis by (intro same row_of_cong) auto
    qed
  qed
qed

text \<open>A boot request saves the row of its host, moved on, or a new one.\<close>

lemma boot_step:
  assumes laws: "ks_laws tb env" and "host_by_ip senv = ke_find env db"
    and "snd (readHandler senv raddr laddr f) = hs \<or> snd (Files senv raddr laddr f) = hs"
  shows "life_step i (row_of tb db i, js) Booted (row_of tb (foldl (saved tb) db hs) i, js)"
proof -
  have tl: "table_laws tb h_ID (\<lambda>k h. h\<lparr>h_ID := k\<rparr>)" using laws by (simp add: ks_laws_def)
  consider "hs = []"
    | n t where "(n, t) \<in> set boot_stages" "hs = [at_stage (host_for senv (host_part raddr)) n t]"
    using boot_saves [OF assms(3)] by (auto simp: boot_stages_def)
  then show ?thesis
  proof cases
    case 1
    then show ?thesis by (simp add: life_step.elsewhere)
  next
    case (2 n t)
    let ?h = "host_for senv (host_part raddr)"
    show ?thesis
      using tl
  proof (cases rule: saved_cases [where h = "at_stage ?h n t" and db = db and i = i])
      case same
      then show ?thesis using 2 by (simp add: life_step.elsewhere)
    next
      case replaced
      then have "ke_find env db (host_part raddr) = Inr ?h"
        using assms(2) by (auto simp: host_for_def zero_host_def split: sum.splits)
      from found_row(1) [OF laws this] have "row_of tb db i = Some ?h" using replaced(1) by simp
      then show ?thesis using 2 replaced(3) by (simp add: life_step.booting)
    next
      case made
      then have "?h = zero_host"
        using assms(2) found_row(2) [OF laws] by (auto simp: host_for_def split: sum.splits)
      then show ?thesis using 2 made(2,3) by (simp add: life_step.appearing)
    qed
  qed
qed

lemma kickstart_step:
  assumes laws: "ks_laws tb env" and ks: "Ks tb env key db raddr via = (r, db')"
  shows "life_step i (row_of tb db i, js) Kickstarted (row_of tb db' i, js)"
proof (cases "\<exists>item st1. ke_find env db (host_part raddr) = Inr item
    \<and> ke_unflag env db item (host_part raddr) = Inr st1")
  case True
  then obtain item st1 where f: "ke_find env db (host_part raddr) = Inr item"
    "ke_unflag env db item (host_part raddr) = Inr st1" by blast
  show ?thesis
  proof (rule Ks_row [OF laws f ks])
    fix h
    assume h: "tb_First tb db' (h_ID item) = Inr h"
      "h = item\<lparr>h_Reimage := False\<rparr> \<or> h = at_stage (item\<lparr>h_Reimage := False\<rparr>) 50 ''kickstart''"
      "\<forall>k. k \<noteq> h_ID item \<longrightarrow> tb_First tb db' k = tb_First tb db k"
    show ?thesis
    proof (cases "i = h_ID item")
      case True
      then have "row_of tb db i = Some item" "row_of tb db' i = Some h"
        using found_row(1) [OF laws f(1)] h(1) by simp_all
      then show ?thesis using h(2) life_step.disarming [of i item js] life_step.serving [of i item js] by auto
    next
      case False
      then show ?thesis using h(3) row_of_cong [of tb db' i db] by (simp add: life_step.elsewhere)
    qed
  qed
next
  case False
  then have "db' = db" using ks by (auto simp: Ks_def Let_def split: sum.splits)
  then show ?thesis by (simp add: life_step.elsewhere)
qed

lemma reported_row:
  assumes "ks_laws tb env"
    and "PostConfig env db raddr = (r, Some job) \<or> PostConfigID tb db param = (r, Some job)"
  shows "tb_First tb db (h_ID job) = Inr job" and "h_ID job \<noteq> 0"
proof -
  have tl: "table_laws tb h_ID (\<lambda>k h. h\<lparr>h_ID := k\<rparr>)" using assms(1) by (simp add: ks_laws_def)
  show row: "tb_First tb db (h_ID job) = Inr job"
    using assms(2) found_row(1) [OF assms(1)] table_lawsD(1) [OF tl]
    by (fastforce simp: PostConfig_def PostConfigID_def split: sum.splits)
  show "h_ID job \<noteq> 0" by (rule table_lawsD(5) [OF tl row])
qed

lemma worker_step:
  assumes tl: "table_laws tb h_ID (\<lambda>k h. h\<lparr>h_ID := k\<rparr>)" and "h_ID job \<noteq> 0"
    and "ProvisioningWorker tb cb db job = (db', req)"
  shows "life_step i (row_of tb db i, filter (\<lambda>j. h_ID j = i) (before @ job # after)) Worked
    (row_of tb db' i, filter (\<lambda>j. h_ID j = i) (before @ after))"
proof -
  have db': "db' = saved tb db (at_stage job 100 ''completed'')"
    using assms(3) by (simp add: ProvisioningWorker_def Let_def)
  show ?thesis
    using tl
  proof (cases rule: saved_cases [where h = "at_stage job 100 ''completed''" and db = db and i = i])
    case same
    then show ?thesis by (auto simp: db' intro: life_step.elsewhere life_step.dropping)
  next
    case replaced
    then show ?thesis by (auto simp: db' intro: life_step.completing)
  next
    case made
    then show ?thesis using assms(2) by simp
  qed
qed

interpretation life: simulation "install_step tb env cb key" "jobs_stored tb env" "life_of tb i" Some "life_step i"
  for tb :: "('st, host) table" and env cb key i
proof unfold_locales
  fix s d s' e
  assume inv: "jobs_stored tb env s" and step: "install_step tb env cb key s d s'"
  then have laws: "ks_laws tb env" by (simp add: jobs_stored_def)
  then have tl: "table_laws tb h_ID (\<lambda>k h. h\<lparr>h_ID := k\<rparr>)" by (simp add: ks_laws_def)
  show "jobs_stored tb env s'"
    using step inv reported_row(2) [OF laws, of "in_db s"] by cases (fastforce simp: jobs_stored_def)+
  have "life_step i (life_of tb i s) d (life_of tb i s')"
    using step
  proof cases
    case (tftp senv raddr laddr f hs)
    then show ?thesis using boot_step [OF laws tftp(3) disjI1 [OF tftp(4)]] by (simp add: life_of_def)
  next
    case (http senv raddr laddr f hs)
    then show ?thesis using boot_step [OF laws http(3) disjI2 [OF http(4)]] by (simp add: life_of_def)
  next
    case (kickstart raddr via r db)
    then show ?thesis using kickstart_step [OF laws] by (simp add: life_of_def)
  next
    case (report raddr r job param)
    then show ?thesis
      using reported_row(1) [OF laws report(3)] life_step.reporting [of i job "filter (\<lambda>j. h_ID j = i) (in_jobs s)"]
      by (auto simp: life_of_def intro: life_step.elsewhere)
  next
    case (worker before job after db req)
    then show ?thesis using worker_step [OF tl, of job cb "in_db s"] inv by (simp add: life_of_def jobs_stored_def)
  qed (auto simp: life_of_def intro: life_step.operating)
  then show "life_step i (life_of tb i s) e (life_of tb i s')" if "Some d = Some e" using that by simp
qed simp

lemma install_run_run: "install_run tb env cb key s es s' \<Longrightarrow> run (install_step tb env cb key) s es s'"
  by (induction rule: install_run.induct) (auto intro: run.intros)

subsection \<open>Properties\<close>

text \<open>C4: whatever happens to the hosts on record, in whatever order, for each of them it is a run of the
  automaton: every boot, kickstart, report and worker does to the row, and to the copies the
  workers hold, what the automaton says or nothing.\<close>

theorem installation_follows_life:
  assumes "jobs_stored tb env s" and "install_run tb env cb key s es s'"
  shows "run (life_step i) (life_of tb i s) es (life_of tb i s')"
  using life.sim_run [OF install_run_run [OF assms(2)] assms(1), of i] by (simp add: List.map_filter_def)

text \<open>Two states of one host differ in the flag and in the progress only.\<close>

definition same_host :: "host \<Rightarrow> host \<Rightarrow> bool" where
  "same_host h g \<longleftrightarrow> g = h\<lparr>h_Reimage := h_Reimage g, h_Progress := h_Progress g, h_Progresstext := h_Progresstext g\<rparr>"

lemma same_host_updates [simp]:
  "same_host h h" "same_host h (at_stage g n t) \<longleftrightarrow> same_host h g" "same_host h (g\<lparr>h_Reimage := b\<rparr>) \<longleftrightarrow> same_host h g"
  by (cases h; cases g; auto simp: same_host_def at_stage_def)+

text \<open>only an operator changes what a host is: as long as none acts, whatever boot files, kickstarts and
  reports anybody asks for, the row of a host stays on record with its key, address, hardware address,
  name and group, and only its flag and its progress change.\<close>

theorem only_operators_change_hosts:
  assumes "jobs_stored tb env s" and "tb_First tb (in_db s) i = Inr h"
    and "list_all (\<lambda>j. h_ID j = i \<longrightarrow> same_host h j) (in_jobs s)"
    and "install_run tb env cb key s es s'" and "Operated \<notin> set es"
  shows "\<exists>g. tb_First tb (in_db s') i = Inr g \<and> same_host h g"
proof -
  define P where "P l \<longleftrightarrow> (\<exists>g. fst l = Some g \<and> same_host h g) \<and> list_all (same_host h) (snd l)" for l :: life
  have "P (life_of tb i s')"
  proof (rule life.transfer [OF install_run_run [OF assms(4)] assms(1)])
    show "P (life_of tb i s)" using assms(2,3) by (simp add: P_def life_of_def list_all_iff)
    show "list_all (\<lambda>e. e \<noteq> Operated) (List.map_filter Some es)"
      using assms(5) by (auto simp: List.map_filter_def list_all_iff)
  next
    fix l e l'
    assume "P l" and "life_step i l e l'" and "e \<noteq> Operated"
    from this(2,1,3) show "P l'" by cases (auto simp: P_def)
  qed
  then show ?thesis by (auto simp: P_def life_of_def row_of_Some)
qed

text \<open>deleting a host between its report and the end of the worker has no effect: the worker saves its
  copy, and the row is back on record, complete.\<close>

theorem deleted_host_comes_back:
  assumes "ks_laws tb env" and "PostConfig env db raddr = (r, Some job)"
    and "pathID param = Inr (h_ID job)" and "DeleteHost tb db param = (NoContent, db1)"
    and "tb_Save tb db1 (at_stage job 100 ''completed'') = Inr (row, db2)"
  shows "tb_First tb db1 (h_ID job) = Inl ErrRecordNotFound
    \<and> tb_First tb (fst (ProvisioningWorker tb cb db1 job)) (h_ID job) = Inr (at_stage job 100 ''completed'')"
proof
  have tl: "table_laws tb h_ID (\<lambda>k h. h\<lparr>h_ID := k\<rparr>)" using assms(1) by (simp add: ks_laws_def)
  note row = reported_row [OF assms(1), of db raddr r job param, OF disjI1 [OF assms(2)]]
  from crud_Delete_NoContent [OF assms(4) [unfolded DeleteHost_def]] assms(3) row(1)
  have "tb_Delete tb db job = Inr db1" by auto
  then show "tb_First tb db1 (h_ID job) = Inl ErrRecordNotFound" using table_lawsD(4) [OF tl] by blast
  show "tb_First tb (fst (ProvisioningWorker tb cb db1 job)) (h_ID job) = Inr (at_stage job 100 ''completed'')"
    using table_lawsD(3) [OF tl assms(5)] row(2) assms(5) by (simp add: ProvisioningWorker_def saved_def Let_def)
qed

subsection \<open>The properties at work\<close>

lemma installing_row [simp]: "h_ID installing = 1"
  by (simp add: installing_def ks_host_def)

lemma installing_stored: "jobs_stored ks_hosts example_env before_boot"
  by (simp add: jobs_stored_def example_env_laws before_boot_def)

lemma installing_reports:
  "PostConfig example_env [installing] ''10.0.0.7:4021'' = (JSON 200 installing, Some installing)"
  using installing_found by (simp add: PostConfig_def before_boot_def)

definition completed_db :: "host list" where
  "completed_db = fst (ProvisioningWorker ks_hosts example_callback [installing] installing)"

lemma completed_row: "tb_First ks_hosts completed_db 1 = Inr (at_stage installing 100 ''completed'')"
  by (simp add: completed_db_def ProvisioningWorker_def saved_def ks_hosts_def list_table_def Let_def)

lemma reported_and_completed:
  "install_run ks_hosts example_env example_callback [] before_boot [Reported, Worked] \<lparr>in_db = completed_db, in_jobs = []\<rparr>"
proof -
  let ?s1 = "before_boot\<lparr>in_jobs := [installing]\<rparr>"
  have s1: "install_step ks_hosts example_env example_callback [] before_boot Reported ?s1"
    using install_step.report [of example_env before_boot "''10.0.0.7:4021''" "JSON 200 installing" installing]
      installing_reports by (simp add: before_boot_def)
  have "install_step ks_hosts example_env example_callback [] ?s1 Worked \<lparr>in_db = completed_db, in_jobs = [] @ []\<rparr>"
    by (rule install_step.worker [of _ _ installing _ _ _ _ "snd (ProvisioningWorker ks_hosts example_callback [installing] installing)"])
      (simp_all add: before_boot_def completed_db_def)
  with install_run.start [THEN install_run.step, OF s1, THEN install_run.step] show ?thesis by simp
qed

theorem installation_follows_life_witness:
  "run (life_step 1) (Some installing, []) [Reported, Worked] (Some (at_stage installing 100 ''completed''), [])"
proof -
  have "tb_First ks_hosts [installing] 1 = Inr installing" by (simp add: ks_hosts_def list_table_def Let_def)
  then show ?thesis
    using installation_follows_life [OF installing_stored reported_and_completed, of 1] completed_row
    by (simp add: life_of_def before_boot_def)
qed

theorem only_operators_change_hosts_witness:
  "\<exists>g. tb_First ks_hosts completed_db 1 = Inr g \<and> same_host installing g"
proof -
  have "tb_First ks_hosts (in_db before_boot) 1 = Inr installing"
    by (simp add: before_boot_def ks_hosts_def list_table_def Let_def)
  from only_operators_change_hosts [OF installing_stored this _ reported_and_completed]
  show ?thesis by (simp add: before_boot_def)
qed

theorem deleted_host_comes_back_witness:
  "tb_First ks_hosts [] 1 = Inl ErrRecordNotFound
   \<and> tb_First ks_hosts (fst (ProvisioningWorker ks_hosts example_callback [] installing)) 1
     = Inr (at_stage installing 100 ''completed'')"
proof -
  have p: "pathID (Itoa 1) = Inr (h_ID installing)" using pathID_Itoa [of 1] by (simp add: int_fits_def)
  have "DeleteHost ks_hosts [installing] (Itoa 1) = (NoContent, [])"
    using p by (simp add: DeleteHost_def crud_Delete_def load_def ks_hosts_def list_table_def Let_def)
  moreover have "tb_Save ks_hosts [] (at_stage installing 100 ''completed'')
      = Inr (at_stage installing 100 ''completed'', [at_stage installing 100 ''completed''])"
    by (simp add: ks_hosts_def list_table_def Let_def)
  ultimately show ?thesis
    using deleted_host_comes_back [OF example_env_laws installing_reports p] by simp
qed

end
