(* ===== verification/Api_Doc.thy ===== *)
theory Api_Doc
  imports Router Crud Users Host_Groups Hosts Images Group_Options
begin

section \<open>The documentation of the API: docs/docs.go\<close>

text \<open>
  The OpenAPI document the program serves under \<^verbatim>\<open>/swagger\<close>, as data: one definition for each path of
  it, with its operations, their parameters and the replies they promise, and one for each model of
  a body. The facts compare it with the code: with the routes that are registered (\<^verbatim>\<open>Router\<close>) and
  with the status of every reply of every handler.
\<close>

datatype doc_schema = Ref string | ArrayOf doc_schema | Typed string | MapOf doc_schema

datatype doc_param = Param (pa_name: string) (pa_in: string) (pa_required: bool) (pa_schema: doc_schema)
  (pa_description: string)

datatype doc_response = Response (rs_status: int) (rs_description: string) (rs_schema: "doc_schema option")

datatype doc_op = Op (op_path: string) (op_method: http_method) (op_consumes: "string list")
  (op_produces: "string list") (op_tags: "string list") (op_summary: string)
  (op_params: "doc_param list") (op_responses: "doc_response list")

datatype doc_model = Model (mo_name: string) (mo_required: "string list")
  (mo_members: "(string \<times> doc_schema \<times> string) list")

subsection \<open>Paths and models\<close>

definition doc_device_classes :: "doc_op list" where
  "doc_device_classes =
     [Op ''/device_classes'' GET [''application/json''] [''application/json''] [''device_classes'']
        ''Get all device classes''
        []
        [Response 200 ''OK'' (Some (ArrayOf (Ref ''#/definitions/model.DeviceClass''))),
         Response 500 ''Internal Server Error'' (Some (Ref ''#/definitions/model.APIError''))],
      Op ''/device_classes'' POST [''application/json''] [''application/json''] [''device_classes'']
        ''Create a new device class''
        [Param ''item'' ''body'' True (Ref ''#/definitions/model.DeviceClassForm'') ''Add an device class'']
        [Response 200 ''OK'' (Some (Ref ''#/definitions/model.DeviceClass'')),
         Response 400 ''Bad Request'' (Some (Ref ''#/definitions/model.APIError'')),
         Response 500 ''Internal Server Error'' (Some (Ref ''#/definitions/model.APIError''))]]"

definition doc_device_classes_search :: "doc_op list" where
  "doc_device_classes_search =
     [Op ''/device_classes/search'' POST [''application/json''] [''application/json''] [''device_classes'']
        ''Search for an device class''
        [Param ''item'' ''body'' True (Ref ''#/definitions/model.DeviceClass'') ''Fields to search for'']
        [Response 200 ''OK'' (Some (Ref ''#/definitions/model.DeviceClass'')),
         Response 400 ''Bad Request'' (Some (Ref ''#/definitions/model.APIError'')),
         Response 404 ''Not Found'' (Some (Ref ''#/definitions/model.APIError'')),
         Response 500 ''Internal Server Error'' (Some (Ref ''#/definitions/model.APIError''))]]"

definition doc_device_classes_id :: "doc_op list" where
  "doc_device_classes_id =
     [Op ''/device_classes/{id}'' GET [''application/json''] [''application/json''] [''device_classes'']
        ''Get an existing device class''
        [Param ''id'' ''path'' True (Typed ''integer'') ''DeviceClass ID'']
        [Response 200 ''OK'' (Some (Ref ''#/definitions/model.DeviceClass'')),
         Response 400 ''Bad Request'' (Some (Ref ''#/definitions/model.APIError'')),
         Response 404 ''Not Found'' (Some (Ref ''#/definitions/model.APIError'')),
         Response 500 ''Internal Server Error'' (Some (Ref ''#/definitions/model.APIError''))],
      Op ''/device_classes/{id}'' DELETE [''application/json''] [''application/json''] [''device_classes'']
        ''Remove an existing device class''
        [Param ''id'' ''path'' True (Typed ''integer'') ''DeviceClass ID'']
        [Response 204 ''No Content'' (None),
         Response 404 ''Not Found'' (Some (Ref ''#/definitions/model.APIError'')),
         Response 500 ''Internal Server Error'' (Some (Ref ''#/definitions/model.APIError''))],
      Op ''/device_classes/{id}'' PATCH [''application/json''] [''application/json''] [''device_classes'']
        ''Update an existing device class''
        [Param ''id'' ''path'' True (Typed ''integer'') ''DeviceClass ID'',
         Param ''item'' ''body'' True (Ref ''#/definitions/model.DeviceClassForm'') ''Update an ip device class'']
        [Response 200 ''OK'' (Some (Ref ''#/definitions/model.DeviceClass'')),
         Response 400 ''Bad Request'' (Some (Ref ''#/definitions/model.APIError'')),
         Response 404 ''Not Found'' (Some (Ref ''#/definitions/model.APIError'')),
         Response 500 ''Internal Server Error'' (Some (Ref ''#/definitions/model.APIError''))]]"

definition doc_groups :: "doc_op list" where
  "doc_groups =
     [Op ''/groups'' GET [''application/json''] [''application/json''] [''groups'']
        ''Get all groups''
        []
        [Response 200 ''OK'' (Some (ArrayOf (Ref ''#/definitions/model.Group''))),
         Response 500 ''Internal Server Error'' (Some (Ref ''#/definitions/model.APIError''))],
      Op ''/groups'' POST [''application/json''] [''application/json''] [''groups'']
        ''Create a new group''
        [Param ''item'' ''body'' True (Ref ''#/definitions/model.GroupRequest'') ''Add ip group'']
        [Response 200 ''OK'' (Some (Ref ''#/definitions/model.Group'')),
         Response 400 ''Bad Request'' (Some (Ref ''#/definitions/model.APIError'')),
         Response 500 ''Internal Server Error'' (Some (Ref ''#/definitions/model.APIError''))]]"

definition doc_groups_id :: "doc_op list" where
  "doc_groups_id =
     [Op ''/groups/{id}'' GET [''application/json''] [''application/json''] [''groups'']
        ''Get an existing group''
        [Param ''id'' ''path'' True (Typed ''integer'') ''Group ID'']
        [Response 200 ''OK'' (Some (Ref ''#/definitions/model.Group'')),
         Response 400 ''Bad Request'' (Some (Ref ''#/definitions/model.APIError'')),
         Response 404 ''Not Found'' (Some (Ref ''#/definitions/model.APIError'')),
         Response 500 ''Internal Server Error'' (Some (Ref ''#/definitions/model.APIError''))],
      Op ''/groups/{id}'' DELETE [''application/json''] [''application/json''] [''groups'']
        ''Remove an existing group''
        [Param ''id'' ''path'' True (Typed ''integer'') ''Group ID'']
        [Response 204 ''No Content'' (None),
         Response 404 ''Not Found'' (Some (Ref ''#/definitions/model.APIError'')),
         Response 500 ''Internal Server Error'' (Some (Ref ''#/definitions/model.APIError''))],
      Op ''/groups/{id}'' PATCH [''application/json''] [''application/json''] [''groups'']
        ''Update an existing group''
        [Param ''id'' ''path'' True (Typed ''integer'') ''Group ID'',
         Param ''item'' ''body'' True (Ref ''#/definitions/model.GroupRequest'') ''Update an group'']
        [Response 200 ''OK'' (Some (Ref ''#/definitions/model.Group'')),
         Response 400 ''Bad Request'' (Some (Ref ''#/definitions/model.APIError'')),
         Response 404 ''Not Found'' (Some (Ref ''#/definitions/model.APIError'')),
         Response 500 ''Internal Server Error'' (Some (Ref ''#/definitions/model.APIError''))]]"

definition doc_hosts :: "doc_op list" where
  "doc_hosts =
     [Op ''/hosts'' GET [''application/json''] [''application/json''] [''hosts'']
        ''Get all hosts''
        []
        [Response 200 ''OK'' (Some (ArrayOf (Ref ''#/definitions/model.Host''))),
         Response 500 ''Internal Server Error'' (Some (Ref ''#/definitions/model.APIError''))],
      Op ''/hosts'' POST [''application/json''] [''application/json''] [''hosts'']
        ''Create a new host''
        [Param ''item'' ''body'' True (Ref ''#/definitions/model.HostForm'') ''Add a host'']
        [Response 200 ''OK'' (Some (Ref ''#/definitions/model.Host'')),
         Response 400 ''Bad Request'' (Some (Ref ''#/definitions/model.APIError'')),
         Response 500 ''Internal Server Error'' (Some (Ref ''#/definitions/model.APIError''))]]"

definition doc_hosts_search :: "doc_op list" where
  "doc_hosts_search =
     [Op ''/hosts/search'' POST [''application/json''] [''application/json''] [''hosts'']
        ''Search for an host''
        [Param ''item'' ''body'' True (Ref ''#/definitions/model.Host'') ''Fields to search for'']
        [Response 200 ''OK'' (Some (Ref ''#/definitions/model.Host'')),
         Response 400 ''Bad Request'' (Some (Ref ''#/definitions/model.APIError'')),
         Response 404 ''Not Found'' (Some (Ref ''#/definitions/model.APIError'')),
         Response 500 ''Internal Server Error'' (Some (Ref ''#/definitions/model.APIError''))]]"

definition doc_hosts_id :: "doc_op list" where
  "doc_hosts_id =
     [Op ''/hosts/{id}'' GET [''application/json''] [''application/json''] [''hosts'']
        ''Get an existing Host''
        [Param ''id'' ''path'' True (Typed ''integer'') ''Host ID'']
        [Response 200 ''OK'' (Some (Ref ''#/definitions/model.Host'')),
         Response 400 ''Bad Request'' (Some (Ref ''#/definitions/model.APIError'')),
         Response 404 ''Not Found'' (Some (Ref ''#/definitions/model.APIError'')),
         Response 500 ''Internal Server Error'' (Some (Ref ''#/definitions/model.APIError''))],
      Op ''/hosts/{id}'' DELETE [''application/json''] [''application/json''] [''hosts'']
        ''Remove an existing host''
        [Param ''id'' ''path'' True (Typed ''integer'') ''Host ID'']
        [Response 204 ''No Content'' (None),
         Response 404 ''Not Found'' (Some (Ref ''#/definitions/model.APIError'')),
         Response 500 ''Internal Server Error'' (Some (Ref ''#/definitions/model.APIError''))],
      Op ''/hosts/{id}'' PATCH [''application/json''] [''application/json''] [''hosts'']
        ''Update an existing host''
        [Param ''id'' ''path'' True (Typed ''integer'') ''Host ID'',
         Param ''item'' ''body'' True (Ref ''#/definitions/model.HostForm'') ''Update a host'']
        [Response 200 ''OK'' (Some (Ref ''#/definitions/model.Host'')),
         Response 400 ''Bad Request'' (Some (Ref ''#/definitions/model.APIError'')),
         Response 404 ''Not Found'' (Some (Ref ''#/definitions/model.APIError'')),
         Response 500 ''Internal Server Error'' (Some (Ref ''#/definitions/model.APIError''))]]"

definition doc_images :: "doc_op list" where
  "doc_images =
     [Op ''/images'' GET [''application/json''] [''application/json''] [''images'']
        ''Get all images''
        []
        [Response 200 ''OK'' (Some (ArrayOf (Ref ''#/definitions/model.Image''))),
         Response 500 ''Internal Server Error'' (Some (Ref ''#/definitions/model.APIError''))],
      Op ''/images'' POST [''application/json''] [''application/json''] [''images'']
        ''Create a new image''
        [Param ''item'' ''body'' True (Ref ''#/definitions/model.ImageForm'') ''Add image'']
        [Response 200 ''OK'' (Some (Ref ''#/definitions/model.Image'')),
         Response 400 ''Bad Request'' (Some (Ref ''#/definitions/model.APIError'')),
         Response 500 ''Internal Server Error'' (Some (Ref ''#/definitions/model.APIError''))]]"

definition doc_images_id :: "doc_op list" where
  "doc_images_id =
     [Op ''/images/{id}'' GET [''application/json''] [''application/json''] [''images'']
        ''Get an existing image''
        [Param ''id'' ''path'' True (Typed ''integer'') ''Image ID'']
        [Response 200 ''OK'' (Some (Ref ''#/definitions/model.Image'')),
         Response 400 ''Bad Request'' (Some (Ref ''#/definitions/model.APIError'')),
         Response 404 ''Not Found'' (Some (Ref ''#/definitions/model.APIError'')),
         Response 500 ''Internal Server Error'' (Some (Ref ''#/definitions/model.APIError''))],
      Op ''/images/{id}'' DELETE [''application/json''] [''application/json''] [''images'']
        ''Remove an existing image''
        [Param ''id'' ''path'' True (Typed ''integer'') ''Image ID'']
        [Response 204 ''No Content'' (None),
         Response 404 ''Not Found'' (Some (Ref ''#/definitions/model.APIError'')),
         Response 500 ''Internal Server Error'' (Some (Ref ''#/definitions/model.APIError''))],
      Op ''/images/{id}'' PATCH [''application/json''] [''application/json''] [''images'']
        ''Update an existing image''
        [Param ''id'' ''path'' True (Typed ''integer'') ''Image ID'',
         Param ''item'' ''body'' True (Ref ''#/definitions/model.ImageForm'') ''Update an image'']
        [Response 200 ''OK'' (Some (Ref ''#/definitions/model.Image'')),
         Response 400 ''Bad Request'' (Some (Ref ''#/definitions/model.APIError'')),
         Response 404 ''Not Found'' (Some (Ref ''#/definitions/model.APIError'')),
         Response 500 ''Internal Server Error'' (Some (Ref ''#/definitions/model.APIError''))]]"

definition doc_login :: "doc_op list" where
  "doc_login =
     [Op ''/login'' POST [''application/json''] [''application/json''] [''auth'']
        ''Log in and receive a session cookie''
        [Param ''item'' ''body'' True (Ref ''#/definitions/api.loginRequest'') ''Credentials'']
        [Response 200 ''OK'' (Some (Ref ''#/definitions/api.SessionResponse'')),
         Response 400 ''Bad Request'' (Some (Ref ''#/definitions/model.APIError'')),
         Response 401 ''Unauthorized'' (Some (Ref ''#/definitions/model.APIError'')),
         Response 429 ''Too Many Requests'' (Some (Ref ''#/definitions/model.APIError''))]]"

definition doc_logout :: "doc_op list" where
  "doc_logout =
     [Op ''/logout'' POST [] [''application/json''] [''auth'']
        ''Log out''
        []
        [Response 204 ''No Content'' (None)]]"

definition doc_session :: "doc_op list" where
  "doc_session =
     [Op ''/session'' GET [] [''application/json''] [''auth'']
        ''Describe the current session''
        []
        [Response 200 ''OK'' (Some (Ref ''#/definitions/api.SessionResponse'')),
         Response 401 ''Unauthorized'' (Some (Ref ''#/definitions/model.APIError''))]]"

definition doc_users :: "doc_op list" where
  "doc_users =
     [Op ''/users'' GET [''application/json''] [''application/json''] [''users'']
        ''Get all users''
        []
        [Response 200 ''OK'' (Some (ArrayOf (Ref ''#/definitions/model.User''))),
         Response 500 ''Internal Server Error'' (Some (Ref ''#/definitions/model.APIError''))],
      Op ''/users'' POST [''application/json''] [''application/json''] [''users'']
        ''Create a new user''
        [Param ''item'' ''body'' True (Ref ''#/definitions/model.UserRequest'') ''Add an user'']
        [Response 200 ''OK'' (Some (Ref ''#/definitions/model.User'')),
         Response 400 ''Bad Request'' (Some (Ref ''#/definitions/model.APIError'')),
         Response 500 ''Internal Server Error'' (Some (Ref ''#/definitions/model.APIError''))]]"

definition doc_users_search :: "doc_op list" where
  "doc_users_search =
     [Op ''/users/search'' POST [''application/json''] [''application/json''] [''users'']
        ''Search for a user''
        [Param ''item'' ''body'' True (Ref ''#/definitions/model.User'') ''Fields to search for'']
        [Response 200 ''OK'' (Some (Ref ''#/definitions/model.User'')),
         Response 400 ''Bad Request'' (Some (Ref ''#/definitions/model.APIError'')),
         Response 404 ''Not Found'' (Some (Ref ''#/definitions/model.APIError'')),
         Response 500 ''Internal Server Error'' (Some (Ref ''#/definitions/model.APIError''))]]"

definition doc_users_id :: "doc_op list" where
  "doc_users_id =
     [Op ''/users/{id}'' GET [''application/json''] [''application/json''] [''users'']
        ''Get an existing user''
        [Param ''id'' ''path'' True (Typed ''integer'') ''User ID'']
        [Response 200 ''OK'' (Some (Ref ''#/definitions/model.User'')),
         Response 400 ''Bad Request'' (Some (Ref ''#/definitions/model.APIError'')),
         Response 404 ''Not Found'' (Some (Ref ''#/definitions/model.APIError'')),
         Response 500 ''Internal Server Error'' (Some (Ref ''#/definitions/model.APIError''))],
      Op ''/users/{id}'' DELETE [''application/json''] [''application/json''] [''users'']
        ''Remove an existing user''
        [Param ''id'' ''path'' True (Typed ''integer'') ''User ID'']
        [Response 204 ''No Content'' (None),
         Response 404 ''Not Found'' (Some (Ref ''#/definitions/model.APIError'')),
         Response 500 ''Internal Server Error'' (Some (Ref ''#/definitions/model.APIError''))],
      Op ''/users/{id}'' PATCH [''application/json''] [''application/json''] [''users'']
        ''Update an existing user''
        [Param ''id'' ''path'' True (Typed ''integer'') ''User ID'',
         Param ''item'' ''body'' True (Ref ''#/definitions/model.UserRequest'') ''Update a user'']
        [Response 200 ''OK'' (Some (Ref ''#/definitions/model.User'')),
         Response 400 ''Bad Request'' (Some (Ref ''#/definitions/model.APIError'')),
         Response 404 ''Not Found'' (Some (Ref ''#/definitions/model.APIError'')),
         Response 500 ''Internal Server Error'' (Some (Ref ''#/definitions/model.APIError''))]]"

definition doc_model_sessionresponse :: doc_model where
  "doc_model_sessionresponse =
     Model ''api.SessionResponse'' []
       [(''must_change_password'', Typed ''boolean'', (Join [''MustChangePassword tells the UI to force a password change before'',
           ''letting the operator do anything else.''] [CHR 0x0A])),
        (''username'', Typed ''string'', [])]"

definition doc_model_loginrequest :: doc_model where
  "doc_model_loginrequest =
     Model ''api.loginRequest'' [''password'', ''username'']
       [(''password'', Typed ''string'', []),
        (''username'', Typed ''string'', [])]"

definition doc_model_apierror :: doc_model where
  "doc_model_apierror =
     Model ''model.APIError'' []
       [(''error_message'', Typed ''string'', []),
        (''error_status'', Typed ''integer'', [])]"

definition doc_model_deviceclass :: doc_model where
  "doc_model_deviceclass =
     Model ''model.DeviceClass'' []
       [(''created_at'', Typed ''string'', []),
        (''deleted_at'', Typed ''string'', []),
        (''id'', Typed ''integer'', []),
        (''name'', Typed ''string'', []),
        (''updated_at'', Typed ''string'', []),
        (''vendor_class'', Typed ''string'', [])]"

definition doc_model_deviceclassform :: doc_model where
  "doc_model_deviceclassform =
     Model ''model.DeviceClassForm'' []
       [(''name'', Typed ''string'', []),
        (''vendor_class'', Typed ''string'', [])]"

definition doc_model_group :: doc_model where
  "doc_model_group =
     Model ''model.Group'' []
       [(''bootdisk'', Typed ''string'', []),
        (''bootmethod'', Typed ''string'', []),
        (''callbackurl'', Typed ''string'', []),
        (''created_at'', Typed ''string'', []),
        (''deleted_at'', Typed ''string'', []),
        (''device'', Typed ''string'', []),
        (''dns'', Typed ''string'', []),
        (''gateway'', Typed ''string'', []),
        (''host'', ArrayOf (Ref ''#/definitions/model.Host''), []),
        (''id'', Typed ''integer'', []),
        (''image_id'', Typed ''integer'', []),
        (''ks'', Typed ''string'', []),
        (''name'', Typed ''string'', []),
        (''netmask'', Typed ''string'', []),
        (''ntp'', Typed ''string'', []),
        (''options'', MapOf (Typed ''string''), []),
        (''syslog'', Typed ''string'', []),
        (''updated_at'', Typed ''string'', []),
        (''vlan'', Typed ''string'', [])]"

definition doc_model_grouprequest :: doc_model where
  "doc_model_grouprequest =
     Model ''model.GroupRequest'' []
       [(''bootdisk'', Typed ''string'', []),
        (''bootmethod'', Typed ''string'', []),
        (''callbackurl'', Typed ''string'', []),
        (''device'', Typed ''string'', []),
        (''dns'', Typed ''string'', []),
        (''gateway'', Typed ''string'', []),
        (''image_id'', Typed ''integer'', []),
        (''ks'', Typed ''string'', []),
        (''name'', Typed ''string'', []),
        (''netmask'', Typed ''string'', []),
        (''ntp'', Typed ''string'', []),
        (''options'', MapOf (Typed ''string''), []),
        (''password'', Typed ''string'', (Join [''Password is the ESXi root password, in the clear on the way in. It is'',
           ''encrypted before it reaches the database and never sent back out.''] [CHR 0x0A])),
        (''syslog'', Typed ''string'', []),
        (''vlan'', Typed ''string'', [])]"

definition doc_model_host :: doc_model where
  "doc_model_host =
     Model ''model.Host'' []
       [(''created_at'', Typed ''string'', []),
        (''deleted_at'', Typed ''string'', []),
        (''domain'', Typed ''string'', []),
        (''expires_at'', Typed ''string'', []),
        (''first_seen'', Typed ''string'', []),
        (''group'', Ref ''#/definitions/model.Group'', []),
        (''group_id'', Typed ''integer'', []),
        (''hostname'', Typed ''string'', []),
        (''id'', Typed ''integer'', []),
        (''ip'', Typed ''string'', []),
        (''ks'', Typed ''string'', []),
        (''last_seen'', Typed ''string'', []),
        (''last_seen_relay'', Typed ''string'', ''DHCP parameters''),
        (''mac'', Typed ''string'', []),
        (''missing_options'', Typed ''string'', []),
        (''progress'', Typed ''integer'', []),
        (''progresstext'', Typed ''string'', []),
        (''reimage'', Typed ''boolean'', []),
        (''updated_at'', Typed ''string'', [])]"

definition doc_model_hostform :: doc_model where
  "doc_model_hostform =
     Model ''model.HostForm'' []
       [(''domain'', Typed ''string'', []),
        (''group_id'', Typed ''integer'', []),
        (''hostname'', Typed ''string'', []),
        (''ip'', Typed ''string'', []),
        (''ks'', Typed ''string'', []),
        (''mac'', Typed ''string'', []),
        (''progress'', Typed ''integer'', []),
        (''progresstext'', Typed ''string'', []),
        (''reimage'', Typed ''boolean'', [])]"

definition doc_model_image :: doc_model where
  "doc_model_image =
     Model ''model.Image'' []
       [(''created_at'', Typed ''string'', []),
        (''deleted_at'', Typed ''string'', []),
        (''description'', Typed ''string'', []),
        (''hash'', Typed ''string'', []),
        (''id'', Typed ''integer'', []),
        (''iso_image'', Typed ''string'', []),
        (''path'', Typed ''string'', []),
        (''size'', Typed ''integer'', []),
        (''updated_at'', Typed ''string'', [])]"

definition doc_model_imageform :: doc_model where
  "doc_model_imageform =
     Model ''model.ImageForm'' []
       [(''description'', Typed ''string'', []),
        (''hash'', Typed ''string'', []),
        (''iso_image'', Typed ''string'', []),
        (''path'', Typed ''string'', []),
        (''size'', Typed ''integer'', [])]"

definition doc_model_user :: doc_model where
  "doc_model_user =
     Model ''model.User'' []
       [(''comment'', Typed ''string'', []),
        (''created_at'', Typed ''string'', []),
        (''deleted_at'', Typed ''string'', []),
        (''email'', Typed ''string'', []),
        (''id'', Typed ''integer'', []),
        (''must_change_password'', Typed ''boolean'', (Join [''MustChangePassword marks an account still carrying the credential it'',
           ''was seeded with. go-via hands out ESXi root passwords, so shipping a'',
           ''documented default is worth surfacing until it is replaced.''] [CHR 0x0A])),
        (''updated_at'', Typed ''string'', []),
        (''username'', Typed ''string'', [])]"

definition doc_model_userrequest :: doc_model where
  "doc_model_userrequest =
     Model ''model.UserRequest'' []
       [(''comment'', Typed ''string'', []),
        (''email'', Typed ''string'', []),
        (''password'', Typed ''string'', []),
        (''username'', Typed ''string'', [])]"

definition api_doc :: "doc_op list" where
  "api_doc = doc_device_classes @ doc_device_classes_search @ doc_device_classes_id @ doc_groups @ doc_groups_id
     @ doc_hosts @ doc_hosts_search @ doc_hosts_id @ doc_images @ doc_images_id @ doc_login @ doc_logout
     @ doc_session @ doc_users @ doc_users_search @ doc_users_id"

definition api_models :: "doc_model list" where
  "api_models = [doc_model_sessionresponse, doc_model_loginrequest, doc_model_apierror, doc_model_deviceclass,
     doc_model_deviceclassform, doc_model_group, doc_model_grouprequest, doc_model_host, doc_model_hostform,
     doc_model_image, doc_model_imageform, doc_model_user, doc_model_userrequest]"

text \<open>What the template of the document is filled with.\<close>

record spec =
  sp_Version :: string
  sp_Host :: string
  sp_BasePath :: string
  sp_Schemes :: "string list"
  sp_Title :: string
  sp_Description :: string

definition SwaggerInfo :: spec where
  "SwaggerInfo = \<lparr>sp_Version = ''0.1'', sp_Host = [], sp_BasePath = ''/v1'', sp_Schemes = [],
     sp_Title = ''go-via'', sp_Description = ''VMware Imaging Appliances written in GO with full HTTP-REST API''\<rparr>"

subsection \<open>The document and the routes\<close>

text \<open>A parameter of a path is in braces in the document and follows a colon in a route, whose pieces
  are joined as Go joins paths.\<close>

definition doc_url :: "string \<Rightarrow> string" where
  "doc_url p = sp_BasePath SwaggerInfo
     @ concat (map (\<lambda>c. if c = CHR ''{'' then '':'' else if c = CHR ''}'' then [] else [c]) p)"

definition route_url :: "route \<Rightarrow> string" where
  "route_url rt = path_Join (''/'' # rt_path rt)"

text \<open>The statuses the document lists for an operation.\<close>

definition documented_codes :: "http_method \<Rightarrow> string \<Rightarrow> int list" where
  "documented_codes m p =
     (case List.find (\<lambda>d. op_method d = m \<and> op_path d = p) api_doc of
        None \<Rightarrow> [] | Some d \<Rightarrow> map rs_status (op_responses d))"

lemmas doc_paths = doc_device_classes_def doc_device_classes_search_def doc_device_classes_id_def doc_groups_def
  doc_groups_id_def doc_hosts_def doc_hosts_search_def doc_hosts_id_def doc_images_def doc_images_id_def
  doc_login_def doc_logout_def doc_session_def doc_users_def doc_users_search_def doc_users_id_def

text \<open>The status of a reply: without a body it is 204.\<close>

fun reply_code :: "'a reply \<Rightarrow> int" where
  "reply_code (JSON s b) = s"
| "reply_code (Error s e) = s"
| "reply_code NoContent = 204"

subsection \<open>The statuses of the handlers\<close>

lemma list_codes: "reply_code (crud_List tb st) \<in> {200, 500}"
  by (simp add: crud_List_def split: sum.splits)

lemma load_codes: "load tb st i = Inl r \<Longrightarrow> reply_code r = 404 \<or> reply_code r = 500"
  by (auto simp: load_def split: sum.splits db_error.splits)

lemma get_codes: "reply_code (crud_Get tb st param) \<in> {200, 400, 404, 500}"
  using load_codes [of tb st] by (fastforce simp: crud_Get_def split: sum.splits)

lemma search_codes: "reply_code (crud_Search tb st body) \<in> {200, 400, 404}"
  by (auto simp: crud_Search_def split: sum.splits db_error.splits)

lemma create_codes: "reply_code (fst (crud_Create tb assemble st body)) \<in> {200, 400, 500}"
  by (auto simp: crud_Create_def split: sum.splits)

lemma update_codes: "reply_code (fst (crud_Update tb merge assemble st param body)) \<in> {200, 400, 404, 500}"
  using load_codes [of tb st] by (fastforce simp: crud_Update_def split: sum.splits)

lemma delete_codes: "Atoi param \<noteq> None \<Longrightarrow> reply_code (fst (crud_Delete tb st param)) \<in> {204, 404, 500}"
  "Atoi param = None \<Longrightarrow> reply_code (fst (crud_Delete tb st param)) = 400"
  using load_codes [of tb st] by (fastforce simp: crud_Delete_def pathID_def split: sum.splits option.splits)+

lemma reload_codes: "reply_code (fst (reload tb key item st)) \<in> {200, 500}"
  by (simp add: reload_def split: sum.splits)

lemma create_user_codes: "reply_code (fst (CreateUser tb generate st body)) \<in> {200, 400, 500}"
  by (auto simp: CreateUser_def Let_def split: sum.splits)

lemma update_user_codes: "reply_code (fst (UpdateUser tb merge generate st a param body)) \<in> {200, 400, 404, 500}"
  using load_codes [of tb st] by (fastforce simp: UpdateUser_def Let_def split: sum.splits prod.splits)

lemma create_group_codes: "reply_code (fst (CreateGroup tb env st body)) \<in> {200, 400, 500}"
  using reload_codes [of tb g_ID] by (fastforce simp: CreateGroup_def Let_def split: sum.splits option.splits prod.splits)

lemma finish_codes: "reply_code (fst (finish_update tb form st item)) \<in> {200, 500}"
  using reload_codes [of tb g_ID] by (simp add: finish_update_def split: sum.splits prod.splits)

lemma update_group_codes: "reply_code ` set (fst (UpdateGroup tb merge env st param body)) \<subseteq> {200, 400, 404, 500}"
proof -
  define S :: "int set" where "S = {200, 400, 404, 500}"
  have codes: "400 \<in> S" "500 \<in> S" "reply_code (fst (finish_update tb form st item)) \<in> S" for form st item
    using finish_codes [of tb form st item] by (auto simp: S_def)
  have "load tb st i = Inl r \<Longrightarrow> reply_code r \<in> S" for i and r :: "group reply"
    using load_codes [of tb st i r] by (auto simp: S_def)
  with codes have "reply_code ` set (fst (UpdateGroup tb merge env st param body)) \<subseteq> S"
    by (auto simp: UpdateGroup_def Let_def case_prod_unfold split: sum.splits option.splits)
  then show ?thesis by (simp add: S_def)
qed

lemma check_ip_codes: "check_ip item g = Some r \<Longrightarrow> reply_code r \<in> {400, 500}"
  by (auto simp: check_ip_def split: if_splits option.splits sum.splits)

lemma create_host_codes: "reply_code (fst (CreateHost tb find_group st body)) \<in> {200, 400, 500}"
  using reload_codes [of tb h_ID] check_ip_codes
  by (fastforce simp: CreateHost_def Let_def split: sum.splits option.splits prod.splits)

lemma update_host_codes: "reply_code ` set (fst (UpdateHost tb merge st param body)) \<subseteq> {200, 400, 404, 500}"
  using load_codes [of tb st] reload_codes [of tb h_ID]
  by (fastforce simp: UpdateHost_def Let_def case_prod_unfold split: sum.splits)

lemma create_image_codes: "reply_code ` set (fst (CreateImage tb env st form)) \<subseteq> {200, 400, 500}"
proof -
  have one: "reply_code (fst (create_image tb env st f)) \<in> {200, 400, 500}" for st f
    by (simp add: create_image_def Let_def split: prod.splits option.splits sum.splits bool.splits)
  have "reply_code ` set (fst (create_images tb env st files)) \<subseteq> {200, 400, 500}" for files
  proof (induction files arbitrary: st)
    case (Cons f fs)
    obtain r ops st' where r: "create_image tb env st f = (r, ops, st')" by (metis prod_cases3)
    then show ?case using Cons.IH [of st'] one [of st f] by (cases r) (simp_all add: case_prod_unfold)
  qed simp
  then show ?thesis by (simp add: CreateImage_def split: sum.splits)
qed

lemma delete_image_codes:
  "Atoi param \<noteq> None \<Longrightarrow> reply_code (fst (DeleteImage tb group_using env st param)) \<in> {204, 404, 409, 500}"
  "Atoi param = None \<Longrightarrow> reply_code (fst (DeleteImage tb group_using env st param)) = 400"
  using load_codes [of tb st] by (fastforce simp: DeleteImage_def in_use_def pathID_def Let_def split: sum.splits option.splits)+

lemma delete_codes_if:
  "reply_code (fst (crud_Delete tb st param)) \<in> {204, 404, 500} \<union> (if Atoi param = None then {400} else {})"
  using delete_codes [of param tb st] by (cases "Atoi param") auto

lemma delete_image_codes_if:
  "reply_code (fst (DeleteImage tb group_using env st param)) \<in> {204, 404, 409, 500} \<union> (if Atoi param = None then {400} else {})"
  using delete_image_codes [of param tb group_using env st] by (cases "Atoi param") auto

lemma session_codes: "reply_code (Session env name) \<in> {200, 401}"
  by (simp add: Session_def split: sum.splits)

lemma login_codes:
  "reply_code (fst (fst (Login env a r body random t1 t2 t3))) \<in> {200, 400, 401, 429} \<union> (if random = None then {500} else {})"
proof (cases rule: Login_cases [where body = body and a = a and r = r and ?t1.0 = t1])
  case (checked u p th)
  then show ?thesis
    by (simp add: Login_checked [OF checked] Create_def Let_def split: sum.splits option.splits prod.splits)
qed (simp_all add: Login_unbound Login_blocked)

subsection \<open>References\<close>

fun schema_refs :: "doc_schema \<Rightarrow> string list" where
  "schema_refs (Ref r) = [r]"
| "schema_refs (ArrayOf s) = schema_refs s"
| "schema_refs (MapOf s) = schema_refs s"
| "schema_refs (Typed t) = []"

text \<open>Every name of a model that the document refers to.\<close>

definition doc_refs :: "string list" where
  "doc_refs =
     concat (map (\<lambda>d. concat (map (\<lambda>p. schema_refs (pa_schema p)) (op_params d))
               @ concat (map (\<lambda>r. case rs_schema r of None \<Rightarrow> [] | Some s \<Rightarrow> schema_refs s) (op_responses d))) api_doc)
     @ concat (map (\<lambda>m. concat (map (\<lambda>(n, s, d). schema_refs s) (mo_members m))) api_models)"

lemma codes:
  "documented_codes GET ''/device_classes'' = [200, 500]"
  "documented_codes GET ''/device_classes/{id}'' = [200, 400, 404, 500]"
  "documented_codes POST ''/device_classes/search'' = [200, 400, 404, 500]"
  "documented_codes POST ''/device_classes'' = [200, 400, 500]"
  "documented_codes PATCH ''/device_classes/{id}'' = [200, 400, 404, 500]"
  "documented_codes DELETE ''/device_classes/{id}'' = [204, 404, 500]"
  "documented_codes GET ''/groups'' = [200, 500]"
  "documented_codes GET ''/groups/{id}'' = [200, 400, 404, 500]"
  "documented_codes POST ''/groups'' = [200, 400, 500]"
  "documented_codes PATCH ''/groups/{id}'' = [200, 400, 404, 500]"
  "documented_codes DELETE ''/groups/{id}'' = [204, 404, 500]"
  "documented_codes GET ''/hosts'' = [200, 500]"
  "documented_codes GET ''/hosts/{id}'' = [200, 400, 404, 500]"
  "documented_codes POST ''/hosts/search'' = [200, 400, 404, 500]"
  "documented_codes POST ''/hosts'' = [200, 400, 500]"
  "documented_codes PATCH ''/hosts/{id}'' = [200, 400, 404, 500]"
  "documented_codes DELETE ''/hosts/{id}'' = [204, 404, 500]"
  "documented_codes GET ''/images'' = [200, 500]"
  "documented_codes GET ''/images/{id}'' = [200, 400, 404, 500]"
  "documented_codes POST ''/images'' = [200, 400, 500]"
  "documented_codes PATCH ''/images/{id}'' = [200, 400, 404, 500]"
  "documented_codes DELETE ''/images/{id}'' = [204, 404, 500]"
  "documented_codes GET ''/users'' = [200, 500]"
  "documented_codes GET ''/users/{id}'' = [200, 400, 404, 500]"
  "documented_codes POST ''/users/search'' = [200, 400, 404, 500]"
  "documented_codes POST ''/users'' = [200, 400, 500]"
  "documented_codes PATCH ''/users/{id}'' = [200, 400, 404, 500]"
  "documented_codes DELETE ''/users/{id}'' = [204, 404, 500]"
  "documented_codes GET ''/session'' = [200, 401]"
  "documented_codes POST ''/login'' = [200, 400, 401, 429]"
  by code_simp+

lemmas reply_rules = list_codes [THEN rev_subsetD] get_codes [THEN rev_subsetD] search_codes [THEN rev_subsetD]
  create_codes [THEN rev_subsetD] update_codes [THEN rev_subsetD] delete_codes_if [THEN rev_subsetD]
  create_user_codes [THEN rev_subsetD] update_user_codes [THEN rev_subsetD] create_group_codes [THEN rev_subsetD]
  update_group_codes [THEN subset_trans] create_host_codes [THEN rev_subsetD] update_host_codes [THEN subset_trans]
  create_image_codes [THEN subset_trans] delete_image_codes_if [THEN rev_subsetD] session_codes [THEN rev_subsetD]
  login_codes [THEN rev_subsetD]

subsection \<open>Properties\<close>

text \<open>The search of users is documented, but no route leads to it.\<close>

lemma users_search_unrouted:
  "list_ex (\<lambda>d. op_method d = POST \<and> doc_url (op_path d) = ''/v1/users/search'') api_doc
   \<and> list_all (\<lambda>rt. \<not> (rt_method rt = POST \<and> route_url rt = ''/v1/users/search'')) (newAPIRouter has_log)"
  by (cases has_log; simp only:; code_simp)

text \<open>Every model the document refers to is defined in it.\<close>

lemma references_defined:
  "list_all (\<lambda>r. r \<in> set (map (\<lambda>m. ''#/definitions/'' @ mo_name m) api_models)) doc_refs"
  by code_simp


text \<open>C40: the document asks for the options of a group as strings: of such a body no option is ever set,
  and the decoder fails as soon as one of them is an option.\<close>

theorem documented_options_ignored:
  "map_of (mo_members doc_model_grouprequest) ''options'' = Some (MapOf (Typed ''string''), [])
   \<and> UnmarshalOptions (json_print (JObj (map (\<lambda>(k, v). (k, JStr v)) kvs)))
     = (zero_options, list_ex (\<lambda>(k, v). find_field k \<noteq> None) kvs)"
proof
  show "map_of (mo_members doc_model_grouprequest) ''options'' = Some (MapOf (Typed ''string''), [])"
    by code_simp
  let ?body = "JObj (map (\<lambda>(k, v). (k, JStr v)) kvs)"
  have depth: "foldr (\<lambda>(k, v). max (json_depth v)) (map (\<lambda>(k, v). (k, JStr v)) kvs) 0 = 0"
    by (induction kvs) auto
  have "json_Parse (json_print ?body) = Some ?body"
    by (rule json_text.dec_enc) (auto simp: maxNestingDepth_def depth list_all_iff)
  moreover have "fold decode_member (map (\<lambda>(k, v). (k, JStr v)) kvs) (zero_options, e)
      = (zero_options, e \<or> list_ex (\<lambda>(k, v). find_field k \<noteq> None) kvs)" for e
    by (induction kvs arbitrary: e) (auto simp: decode_member_def split: option.splits)
  ultimately show "UnmarshalOptions (json_print ?body) = (zero_options, list_ex (\<lambda>(k, v). find_field k \<noteq> None) kvs)"
    by (simp add: UnmarshalOptions_def)
qed

text \<open>The refusals of the middleware are documented for the two operations of the session only, and a
  refused request reaches neither handler nor database.\<close>

theorem refusals_undocumented:
  "map op_path (filter (\<lambda>d. 401 \<in> set (map rs_status (op_responses d))) api_doc) = [''/login'', ''/session'']
   \<and> map op_path (filter (\<lambda>d. 429 \<in> set (map rs_status (op_responses d))) api_doc) = [''/login'']
   \<and> Middleware env a remote None None t1 t2 t3 t4 = (AbortWithStatus 401, a)"
  by (intro conjI, code_simp, code_simp, simp add: Middleware_def basic_auth_def)

text \<open>The password of a group or of an account is a member of the bodies a client sends and of no body
  the API answers with.\<close>

theorem passwords_not_documented:
  "map mo_name (filter (\<lambda>m. ''password'' \<in> set (map fst (mo_members m))) api_models)
     = [''api.loginRequest'', ''model.GroupRequest'', ''model.UserRequest'']
   \<and> filter (\<lambda>d. list_ex (\<lambda>r. rs_schema r \<in> Some ` {Ref ''#/definitions/api.loginRequest'',
         Ref ''#/definitions/model.GroupRequest'', Ref ''#/definitions/model.UserRequest''}) (op_responses d)) api_doc = []"
  by (intro conjI; code_simp)

end
