(* ===== verification/Appliance.thy ===== *)
theory Appliance
  imports Lifecycle Router Users
begin

section \<open>The appliance as a whole\<close>

text \<open>
  The routers, the middleware, every handler that changes hosts, accounts or sessions, the TFTP server
  and the workers, together on one state: the table of hosts and the workers' copies of its rows, the
  table of accounts, and the sessions and the throttle. A request goes through \<open>serve_api\<close>, which
  decides whether a handler runs and for whom, and the handler does to the state what its own theory
  says. Handlers of other tables may change what is loaded with a host, the row of its group, but
  no column of a host. Times, bodies and random bytes are whatever they are.
\<close>

subsection \<open>State and steps\<close>

record ('st, 'u) appliance =
  ap_hosts :: "('st, host) table"
  ap_ks :: "'st ks_env"
  ap_callback :: callback_env
  ap_key :: string
  ap_accounts :: "('u, user) table"
  ap_account :: "'u \<Rightarrow> string \<Rightarrow> db_error + user"
  ap_bcrypt :: "string \<Rightarrow> string \<Rightarrow> bool"
  ap_generate :: "string \<Rightarrow> string option"
  ap_route :: "route list \<Rightarrow> http_method \<Rightarrow> string \<Rightarrow> route option"
  ap_log :: bool

record ('st, 'u) system =
  sy_hosts :: "'st install"
  sy_accounts :: 'u
  sy_auth :: auth_state

abbreviation hosts_db :: "('st, 'u) system \<Rightarrow> 'st" where
  "hosts_db s \<equiv> in_db (sy_hosts s)"

definition set_hosts :: "'st \<Rightarrow> ('st, 'u) system \<Rightarrow> ('st, 'u) system" where
  "set_hosts db s = s\<lparr>sy_hosts := (sy_hosts s)\<lparr>in_db := db\<rparr>\<rparr>"

definition add_job :: "host option \<Rightarrow> ('st, 'u) system \<Rightarrow> ('st, 'u) system" where
  "add_job j s = (case j of
     None \<Rightarrow> s | Some job \<Rightarrow> s\<lparr>sy_hosts := (sy_hosts s)\<lparr>in_jobs := in_jobs (sy_hosts s) @ [job]\<rparr>\<rparr>)"

definition accounts :: "('st, 'u) appliance \<Rightarrow> ('st, 'u) system \<Rightarrow> auth_env" where
  "accounts ap s = \<lparr>find_user = ap_account ap (sy_accounts s), bcrypt_matches = ap_bcrypt ap\<rparr>"

text \<open>A host without the row of its group, which other handlers may change.\<close>

definition ungrouped :: "host \<Rightarrow> host" where
  "ungrouped h = h\<lparr>h_Group := zero_group\<rparr>"

definition same_columns :: "('st, host) table \<Rightarrow> 'st \<Rightarrow> 'st \<Rightarrow> bool" where
  "same_columns tb db db' \<longleftrightarrow> (\<forall>i. map_option ungrouped (row_of tb db' i) = map_option ungrouped (row_of tb db i))"

definition operator_handlers :: "handler list" where
  "operator_handlers = [H_CreateHost, H_UpdateHost, H_DeleteHost]"

definition table_handlers :: "handler list" where
  "table_handlers = [H_CreateGroup, H_UpdateGroup, H_DeleteGroup, H_CreateImage, H_UpdateImage, H_DeleteImage,
     H_CreateDeviceClass, H_UpdateDeviceClass, H_DeleteDeviceClass]"

definition reading_handlers :: "handler list" where
  "reading_handlers = [H_UI, H_RedirectRoot, H_Swagger, H_ListHosts, H_GetHost, H_SearchHost, H_ListDeviceClasses,
     H_GetDeviceClass, H_SearchDeviceClass, H_ListGroups, H_GetGroup, H_ListImages, H_GetImage, H_ListUsers, H_GetUser,
     H_Log, H_Session, H_Version]"

text \<open>What a handler does to the state.\<close>

inductive performs :: "('st, 'u) appliance \<Rightarrow> request \<Rightarrow> handler \<Rightarrow> ('st, 'u) system \<Rightarrow> ('st, 'u) system \<Rightarrow> bool"
  for ap rq where
  ks: "Ks (ap_hosts ap) (ap_ks ap) (ap_key ap) (hosts_db s) (rq_remote rq) via = (r, db) \<Longrightarrow>
    performs ap rq H_Ks s (set_hosts db s)"
| report: "PostConfig (ap_ks ap) (hosts_db s) (rq_remote rq) = (r, job) \<Longrightarrow>
    performs ap rq H_PostConfig s (add_job job s)"
| report_id: "PostConfigID (ap_hosts ap) (hosts_db s) param = (r, job) \<Longrightarrow>
    performs ap rq H_PostConfigID s (add_job job s)"
| files: "host_by_ip senv = ke_find (ap_ks ap) (hosts_db s) \<Longrightarrow> snd (Files senv (rq_remote rq) laddr f) = hs \<Longrightarrow>
    performs ap rq H_Files s (set_hosts (foldl (saved (ap_hosts ap)) (hosts_db s) hs) s)"
| update_host: "UpdateHost (ap_hosts ap) merge (hosts_db s) param body = (rs, db) \<Longrightarrow>
    performs ap rq H_UpdateHost s (set_hosts db s)"
| create_host: "CreateHost (ap_hosts ap) find_group (hosts_db s) body = (r, db) \<Longrightarrow>
    performs ap rq H_CreateHost s (set_hosts db s)"
| delete_host: "DeleteHost (ap_hosts ap) (hosts_db s) param = (r, db) \<Longrightarrow>
    performs ap rq H_DeleteHost s (set_hosts db s)"
| login: "Login (accounts ap s) (sy_auth s) (rq_remote rq) form random t1 t2 t3 = (r, a) \<Longrightarrow>
    performs ap rq H_Login s (s\<lparr>sy_auth := a\<rparr>)"
| logout: "Logout (sy_auth s) (rq_cookie rq) = (ck, a) \<Longrightarrow> performs ap rq H_Logout s (s\<lparr>sy_auth := a\<rparr>)"
| create_user: "CreateUser (ap_accounts ap) (ap_generate ap) (sy_accounts s) uform = (ur, us) \<Longrightarrow>
    performs ap rq H_CreateUser s (s\<lparr>sy_accounts := us\<rparr>)"
| update_user: "UpdateUser (ap_accounts ap) umerge (ap_generate ap) (sy_accounts s) (sy_auth s) param uform = (ur, us, a) \<Longrightarrow>
    performs ap rq H_UpdateUser s (s\<lparr>sy_accounts := us, sy_auth := a\<rparr>)"
| delete_user: "DeleteUser (ap_accounts ap) (sy_accounts s) param = (ur, us) \<Longrightarrow>
    performs ap rq H_DeleteUser s (s\<lparr>sy_accounts := us\<rparr>)"
| other_table: "h \<in> set table_handlers \<Longrightarrow> same_columns (ap_hosts ap) (hosts_db s) db \<Longrightarrow>
    performs ap rq h s (set_hosts db s)"
| reading: "h \<in> set reading_handlers \<Longrightarrow> performs ap rq h s s"

text \<open>What happens to the appliance: a TFTP request, a request to one of the two HTTP engines with what it
  came to, or the end of a worker.\<close>

datatype act = Tftp string | Boot_Http request | Api request served | Worker_Ends

inductive sys_step :: "('st, 'u) appliance \<Rightarrow> ('st, 'u) system \<Rightarrow> act \<Rightarrow> ('st, 'u) system \<Rightarrow> bool" for ap where
  tftp: "host_by_ip senv = ke_find (ap_ks ap) (hosts_db s) \<Longrightarrow> snd (readHandler senv raddr laddr f) = hs \<Longrightarrow>
    sys_step ap s (Tftp raddr) (set_hosts (foldl (saved (ap_hosts ap)) (hosts_db s) hs) s)"
| boot: "serve_boot (ap_route ap) rq = Run h None \<Longrightarrow> performs ap rq h s s' \<Longrightarrow> sys_step ap s (Boot_Http rq) s'"
| unrouted: "serve_boot (ap_route ap) rq = NoSuchRoute \<Longrightarrow> sys_step ap s (Boot_Http rq) s"
| api: "serve_api (ap_route ap) (ap_log ap) (accounts ap s) (sy_auth s) rq t1 t2 t3 t4 = (Run h u, a) \<Longrightarrow>
    performs ap rq h (s\<lparr>sy_auth := a\<rparr>) s' \<Longrightarrow> sys_step ap s (Api rq (Run h u)) s'"
| refused: "serve_api (ap_route ap) (ap_log ap) (accounts ap s) (sy_auth s) rq t1 t2 t3 t4 = (v, a) \<Longrightarrow>
    \<forall>h u. v \<noteq> Run h u \<Longrightarrow> sys_step ap s (Api rq v) (s\<lparr>sy_auth := a\<rparr>)"
| worker: "in_jobs (sy_hosts s) = before @ job # after \<Longrightarrow>
    ProvisioningWorker (ap_hosts ap) (ap_callback ap) (hosts_db s) job = (db, sent) \<Longrightarrow>
    sys_step ap s Worker_Ends (s\<lparr>sy_hosts := \<lparr>in_db = db, in_jobs = before @ after\<rparr>\<rparr>)"

subsection \<open>The automaton of a host, seen from the whole\<close>

fun event_of :: "handler \<Rightarrow> event option" where
  "event_of H_Ks = Some Kickstarted"
| "event_of H_PostConfig = Some Reported"
| "event_of H_PostConfigID = Some Reported"
| "event_of H_Files = Some Booted"
| "event_of H_CreateHost = Some Operated"
| "event_of H_UpdateHost = Some Operated"
| "event_of H_DeleteHost = Some Operated"
| "event_of h = None"

fun event_of_act :: "act \<Rightarrow> event option" where
  "event_of_act (Tftp raddr) = Some Booted"
| "event_of_act (Boot_Http rq) = Some Booted"
| "event_of_act (Api rq (Run h u)) = event_of h"
| "event_of_act (Api rq v) = None"
| "event_of_act Worker_Ends = Some Worked"

definition sys_inv :: "('st, 'u) appliance \<Rightarrow> ('st, 'u) system \<Rightarrow> bool" where
  "sys_inv ap s \<longleftrightarrow> router_law (ap_route ap) \<and> jobs_stored (ap_hosts ap) (ap_ks ap) (sy_hosts s)"

definition host_view :: "('st, 'u) appliance \<Rightarrow> int \<Rightarrow> ('st, 'u) system \<Rightarrow> life" where
  "host_view ap i s = (case life_of (ap_hosts ap) i (sy_hosts s) of (r, js) \<Rightarrow> (map_option ungrouped r, map ungrouped js))"

lemma hosts_set [simp]: "sy_hosts (set_hosts db s) = (sy_hosts s)\<lparr>in_db := db\<rparr>"
  "sy_hosts (add_job None s) = sy_hosts s"
  "sy_hosts (add_job (Some j) s) = (sy_hosts s)\<lparr>in_jobs := in_jobs (sy_hosts s) @ [j]\<rparr>"
  by (simp_all add: set_hosts_def add_job_def)

lemma ungrouped_updates: "ungrouped (at_stage h n t) = at_stage (ungrouped h) n t"
  "ungrouped (h\<lparr>h_Reimage := b\<rparr>) = (ungrouped h)\<lparr>h_Reimage := b\<rparr>"
  "ungrouped (h\<lparr>h_ID := k\<rparr>) = (ungrouped h)\<lparr>h_ID := k\<rparr>" "ungrouped zero_host = zero_host"
  "ungrouped (ungrouped h) = ungrouped h" "h_Reimage (ungrouped h) = h_Reimage h"
  by (simp_all add: ungrouped_def at_stage_def zero_host_def)

lemma ungrouped_step:
  assumes "life_step i (r, js) e (r', js')"
  shows "life_step i (map_option ungrouped r, map ungrouped js) e (map_option ungrouped r', map ungrouped js')"
  using assms by cases (auto simp: ungrouped_updates intro: life_step.intros)

text \<open>A handler that changes hosts is a step of \<open>Install\<close>; the others leave the columns of every host
  alone.\<close>

lemma performs_hosts:
  assumes "performs ap rq h s s'"
  shows "(\<exists>e. event_of h = Some e \<and>
        (install_step (ap_hosts ap) (ap_ks ap) (ap_callback ap) (ap_key ap) (sy_hosts s) e (sy_hosts s')
         \<or> sy_hosts s' = sy_hosts s))
    \<or> event_of h = None \<and> in_jobs (sy_hosts s') = in_jobs (sy_hosts s)
        \<and> same_columns (ap_hosts ap) (hosts_db s) (hosts_db s')"
  using assms
proof cases
  case (report r job)
  then show ?thesis by (cases job) (auto simp: add_job_def intro!: install_step.report [OF disjI1])
next
  case (report_id param r job)
  then show ?thesis by (cases job) (auto simp: add_job_def intro!: install_step.report [OF disjI2])
next
  case (files senv laddr f hs)
  then show ?thesis using install_step.http by fastforce
next
  case (other_table db)
  then show ?thesis by (auto simp: table_handlers_def)
next
  case reading
  then show ?thesis by (auto simp: reading_handlers_def same_columns_def)
qed (auto simp: same_columns_def intro: install_step.intros)

lemma performs_stored:
  assumes "performs ap rq h s s'" and "jobs_stored (ap_hosts ap) (ap_ks ap) (sy_hosts s)"
  shows "jobs_stored (ap_hosts ap) (ap_ks ap) (sy_hosts s')"
  using performs_hosts [OF assms(1)] life.inv_step [OF assms(2)] assms(2) by (auto simp: jobs_stored_def)

lemma performs_view:
  assumes "performs ap rq h s s'" and inv: "jobs_stored (ap_hosts ap) (ap_ks ap) (sy_hosts s)"
  shows "event_of h = Some e \<Longrightarrow> life_step i (host_view ap i s) e (host_view ap i s')"
    and "event_of h = None \<Longrightarrow> host_view ap i s' = host_view ap i s"
  using performs_hosts [OF assms(1)] life.sim_step [OF inv, of _ _ _ _ e i]
  by (auto simp: host_view_def life_of_def same_columns_def intro: ungrouped_step life_step.elsewhere)

interpretation whole: simulation "sys_step ap" "sys_inv ap" "host_view ap i" event_of_act "life_step i"
  for ap :: "('st, 'u) appliance" and i
proof unfold_locales
  fix s d s' e
  assume inv: "sys_inv ap s" and step: "sys_step ap s d s'"
  then have stored: "jobs_stored (ap_hosts ap) (ap_ks ap) (sy_hosts s)" and law: "router_law (ap_route ap)"
    by (simp_all add: sys_inv_def)
  have tftp: "install_step (ap_hosts ap) (ap_ks ap) (ap_callback ap) (ap_key ap) (sy_hosts s) Booted (sy_hosts s')"
    if "d = Tftp raddr" for raddr
    using step that by cases (auto intro: install_step.tftp)
  have worker: "install_step (ap_hosts ap) (ap_ks ap) (ap_callback ap) (ap_key ap) (sy_hosts s) Worked (sy_hosts s')"
    if "d = Worker_Ends"
    using step that by cases (auto intro: install_step.worker)
  show "sys_inv ap s'"
    using step stored law life.inv_step [OF stored tftp] life.inv_step [OF stored worker] performs_stored
    by cases (fastforce simp: sys_inv_def)+
  have lifted: "life_step i (host_view ap i s) e (host_view ap i s')"
    if "install_step (ap_hosts ap) (ap_ks ap) (ap_callback ap) (ap_key ap) (sy_hosts s) e (sy_hosts s')" for e
    using life.sim_step [OF stored that, of e i] by (auto simp: host_view_def life_of_def intro: ungrouped_step)
  show "life_step i (host_view ap i s) e (host_view ap i s')" if "event_of_act d = Some e"
  proof (cases d)
    case (Tftp raddr)
    then show ?thesis using lifted [OF tftp] that by simp
  next
    case Worker_Ends
    then show ?thesis using lifted [OF worker] that by simp
  next
    case (Boot_Http rq)
    show ?thesis
      using step unfolding Boot_Http
    proof cases
      case (boot h)
      then have "h = H_Files" using serve_boot_files [OF law, of rq] by simp
      then show ?thesis using performs_view(1) [OF boot(2) stored] that Boot_Http by simp
    qed (simp add: life_step.elsewhere)
  next
    case (Api rq v)
    show ?thesis
      using step unfolding Api
    proof cases
      case (api t1 t2 t3 t4 h u a)
      then show ?thesis
        using performs_view(1) [OF api(3), of e i] stored that Api by (simp add: host_view_def)
    next
      case (refused t1 t2 t3 t4 a)
      then show ?thesis using that Api by (cases v) auto
    qed
  qed
  show "host_view ap i s' = host_view ap i s" if "event_of_act d = None"
  proof (cases d)
    case (Api rq v)
    show ?thesis
      using step unfolding Api
    proof cases
      case (api t1 t2 t3 t4 h u a)
      then show ?thesis
        using performs_view(2) [OF api(3), of i] stored that Api by (simp add: host_view_def)
    next
      case (refused t1 t2 t3 t4 a)
      then show ?thesis by (simp add: host_view_def)
    qed
  qed (use that in simp_all)
qed

text \<open>Every handler does something, or nothing, and ends.\<close>

lemma performs_total: "\<exists>s'. performs ap rq h s s'"
proof -
  define senv where "senv = \<lparr>host_by_ip = ke_find (ap_ks ap) (hosts_db s), image_by_id = (\<lambda>_. Inl ErrRecordNotFound),
     group_by_ref = (\<lambda>_. Inl ErrRecordNotFound), stat_ok = (\<lambda>_. False), read_file = (\<lambda>_. None),
     unicode_upper = (\<lambda>s. s), conf_port = 443\<rparr>"
  have files: "\<exists>s'. performs ap rq H_Files s s'"
    using performs.files [of senv ap s rq "[]" "[]"] by (auto simp: senv_def)
  have tables: "\<exists>s'. performs ap rq h s s'" if "h \<in> set table_handlers \<or> h \<in> set reading_handlers" for h
    using that performs.other_table [of h ap s "hosts_db s" rq] performs.reading [of h ap rq s]
    by (auto simp: same_columns_def)
  note split = prod.collapse [symmetric]
  note one = performs.ks [where via = None, OF split] performs.report [OF split] performs.report_id [where param = "[]", OF split]
    performs.update_host [where merge = "\<lambda>d s. Inr s" and param = "[]" and body = "Inl []", OF split]
    performs.create_host [where find_group = "\<lambda>st r. Inl ErrRecordNotFound" and body = "Inl []", OF split]
    performs.delete_host [where param = "[]", OF split]
    performs.login [where form = "Inl []" and random = None and ?t1.0 = 0 and ?t2.0 = 0 and ?t3.0 = 0, OF split]
    performs.logout [OF split] performs.create_user [where uform = "Inl []", OF split]
    performs.delete_user [where param = "[]", OF split]
  obtain ur us a where "UpdateUser (ap_accounts ap) (\<lambda>d s. Inr s) (ap_generate ap) (sy_accounts s) (sy_auth s) [] (Inl [])
      = (ur, us, a)"
    by (metis prod_cases3)
  note two = performs.update_user [OF this]
  show ?thesis
    using files tables by (cases h) (simp_all add: table_handlers_def reading_handlers_def, (blast intro: one two)+)
qed

subsection \<open>Operators\<close>

lemma Operated_act: "event_of_act d = Some Operated \<longleftrightarrow> (\<exists>rq h u. d = Api rq (Run h u) \<and> h \<in> set operator_handlers)"
  unfolding operator_handlers_def
  by (cases d rule: event_of_act.cases; simp; rename_tac rq h u; case_tac h; simp)

text \<open>A step of an operator's handler is a request of an authenticated user.\<close>

lemma operator_step:
  assumes "router_law (ap_route ap)" and "sys_step ap s (Api rq (Run h u)) s'" and "h \<in> set operator_handlers"
  obtains user t1 t2 t3 where "u = Some user" and "authenticated (accounts ap s) (sy_auth s) rq t1 t2 t3 user"
  using assms(2)
proof cases
  case (api t1 t2 t3 t4 a)
  from served_authenticated [OF assms(1) api(1)] assms(3) that show ?thesis
    by (cases u) (auto simp: operator_handlers_def)
qed simp

lemma operator_acted:
  assumes inv: "sys_inv ap s" and "P (host_view ap i s)" and run: "run (sys_step ap) s es s'"
    and "\<not> P (host_view ap i s')"
    and keep: "\<And>l e l'. P l \<Longrightarrow> life_step i l e l' \<Longrightarrow> e \<noteq> Operated \<Longrightarrow> P l'"
  shows "\<exists>es1 s1 rq h u es2 t1 t2 t3. es = es1 @ Api rq (Run h (Some u)) # es2 \<and> run (sys_step ap) s es1 s1
    \<and> h \<in> set operator_handlers \<and> authenticated (accounts ap s1) (sy_auth s1) rq t1 t2 t3 u"
proof -
  have "\<not> list_all (\<lambda>e. e \<noteq> Operated) (List.map_filter event_of_act es)"
  proof
    assume "list_all (\<lambda>e. e \<noteq> Operated) (List.map_filter event_of_act es)"
    from whole.transfer [where P = P, OF run inv assms(2) this keep] assms(4) show False by simp
  qed
  then obtain d where "d \<in> set es" "event_of_act d = Some Operated"
    by (force simp: list_all_iff List.map_filter_def)
  then obtain es1 es2 rq h u where d: "es = es1 @ Api rq (Run h u) # es2" "h \<in> set operator_handlers"
    by (auto simp: Operated_act dest: split_list)
  then obtain s1 s2 where s1: "run (sys_step ap) s es1 s1" "sys_step ap s1 (Api rq (Run h u)) s2"
    using run_split run by metis
  have "router_law (ap_route ap)" using inv by (simp add: sys_inv_def)
  from operator_step [OF this s1(2) d(2)] obtain user t1 t2 t3 where
    "u = Some user" "authenticated (accounts ap s1) (sy_auth s1) rq t1 t2 t3 user" .
  with d s1(1) show ?thesis by blast
qed

text \<open>A host is as it was, and is not flagged unless it was.\<close>

definition kept_host :: "host \<Rightarrow> host \<Rightarrow> bool" where
  "kept_host h g \<longleftrightarrow> same_host (ungrouped h) (ungrouped g) \<and> (h_Reimage g \<longrightarrow> h_Reimage h)"

definition kept_life :: "host \<Rightarrow> life \<Rightarrow> bool" where
  "kept_life h l \<longleftrightarrow> (\<exists>g. fst l = Some g \<and> kept_host h g) \<and> list_all (kept_host h) (snd l)"

lemma kept_host_updates [simp]: "kept_host h (at_stage g n t) = kept_host h g"
  "kept_host h g \<Longrightarrow> kept_host h (g\<lparr>h_Reimage := False\<rparr>)" "kept_host h h" "kept_host h (ungrouped g) = kept_host h g"
  by (simp_all add: kept_host_def ungrouped_updates)

lemma kept_step: "kept_life h l \<Longrightarrow> life_step i l e l' \<Longrightarrow> e \<noteq> Operated \<Longrightarrow> kept_life h l'"
  by (erule life_step.cases) (auto simp: kept_life_def)

lemma kept_view:
  "kept_life h (host_view ap i s) \<longleftrightarrow>
     (\<exists>g. tb_First (ap_hosts ap) (hosts_db s) i = Inr g \<and> kept_host h g)
     \<and> list_all (\<lambda>j. h_ID j = i \<longrightarrow> kept_host h j) (in_jobs (sy_hosts s))"
  by (auto simp: kept_life_def host_view_def life_of_def list_all_iff row_of_Some)

lemma kept_unless_operator:
  assumes "sys_inv ap s" and "tb_First (ap_hosts ap) (hosts_db s) i = Inr h"
    and "list_all (\<lambda>j. h_ID j = i \<longrightarrow> kept_host h j) (in_jobs (sy_hosts s))"
    and "run (sys_step ap) s es s'"
    and "\<not> (\<exists>g. tb_First (ap_hosts ap) (hosts_db s') i = Inr g \<and> kept_host h g)"
  shows "\<exists>es1 s1 rq hd u es2 t1 t2 t3. es = es1 @ Api rq (Run hd (Some u)) # es2 \<and> run (sys_step ap) s es1 s1
    \<and> hd \<in> set operator_handlers \<and> authenticated (accounts ap s1) (sy_auth s1) rq t1 t2 t3 u"
proof (rule operator_acted [where P = "kept_life h" and i = i, OF assms(1) _ assms(4)])
  show "kept_life h (host_view ap i s)" using assms(2,3) by (auto simp: kept_view)
  show "\<not> kept_life h (host_view ap i s')" using assms(5) by (simp add: kept_view)
qed (rule kept_step)

subsection \<open>Properties\<close>


text \<open>C7: when the DHCP server answers a host that was not flagged before, an authenticated user's request
  to change hosts lies in between.\<close>

theorem dhcp_serves_on_orders:
  assumes "sys_inv ap s" and "tb_First (ap_hosts ap) (hosts_db s) i = Inr h" and "\<not> h_Reimage h"
    and "list_all (\<lambda>j. h_ID j = i \<longrightarrow> kept_host h j) (in_jobs (sy_hosts s))"
    and "run (sys_step ap) s es s'"
    and "findHostByMAC denv mac = Inr (Some g)" and "tb_First (ap_hosts ap) (hosts_db s') i = Inr g"
  shows "\<exists>es1 s1 rq hd u es2 t1 t2 t3. es = es1 @ Api rq (Run hd (Some u)) # es2 \<and> run (sys_step ap) s es1 s1
    \<and> hd \<in> {H_CreateHost, H_UpdateHost, H_DeleteHost} \<and> authenticated (accounts ap s1) (sy_auth s1) rq t1 t2 t3 u"
proof -
  have "h_Reimage g" using assms(6) by (auto simp: findHostByMAC_def split: sum.splits db_error.splits if_splits)
  then have "\<not> (\<exists>g. tb_First (ap_hosts ap) (hosts_db s') i = Inr g \<and> kept_host h g)"
    using assms(3,7) by (simp add: kept_host_def)
  from kept_unless_operator [OF assms(1,2,4,5) this] show ?thesis by (simp add: operator_handlers_def)
qed

text \<open>no request gets stuck: whatever its route, its credentials and the state, an engine gives it to a
  handler that ends, refuses it or redirects it.\<close>

theorem requests_are_served:
  "\<exists>v s'. sys_step ap s (Api rq v) s'
    \<and> (\<exists>a. serve_api (ap_route ap) (ap_log ap) (accounts ap s) (sy_auth s) rq t1 t2 t3 t4 = (v, a))"
proof -
  obtain v a where v: "serve_api (ap_route ap) (ap_log ap) (accounts ap s) (sy_auth s) rq t1 t2 t3 t4 = (v, a)"
    by fastforce
  show ?thesis
  proof (cases "\<exists>h u. v = Run h u")
    case True
    then obtain h u where run: "v = Run h u" by blast
    from performs_total obtain s' where "performs ap rq h (s\<lparr>sy_auth := a\<rparr>) s'" by blast
    from sys_step.api [OF v [unfolded run] this] v run show ?thesis by blast
  next
    case False
    with sys_step.refused [OF v] v show ?thesis by blast
  qed
qed

subsection \<open>The properties at work\<close>

definition example_appliance :: "(host list, user list) appliance" where
  "example_appliance = \<lparr>ap_hosts = ks_hosts, ap_ks = example_env, ap_callback = example_callback, ap_key = [],
     ap_accounts = example_users, ap_account = (\<lambda>us. find_user example_auth_env),
     ap_bcrypt = bcrypt_matches example_auth_env, ap_generate = (\<lambda>p. None), ap_route = example_find, ap_log = False\<rparr>"

definition example_system :: "host \<Rightarrow> (host list, user list) system" where
  "example_system h = \<lparr>sy_hosts = \<lparr>in_db = [h], in_jobs = []\<rparr>, sy_accounts = [example_user], sy_auth = example_auth\<rparr>"

definition change_request :: "http_method \<Rightarrow> request" where
  "change_request m = \<lparr>rq_method = m, rq_path = ''//v1/hosts:id'', rq_remote = example_remote, rq_cookie = None,
     rq_basic = Some (''root'', ''s3cret'')\<rparr>"

lemma example_sys_inv: "sys_inv example_appliance (example_system h)"
  by (simp add: sys_inv_def example_appliance_def example_find_law jobs_stored_def example_env_laws example_system_def)

lemma change_routes:
  "example_find (newAPIRouter False) DELETE ''//v1/hosts:id''
    = Some \<lparr>rt_method = DELETE, rt_path = [''/'', ''/v1'', ''/hosts'', '':id''], rt_guarded = True, rt_handler = H_DeleteHost\<rparr>"
  "example_find (newAPIRouter False) PATCH ''//v1/hosts:id''
    = Some \<lparr>rt_method = PATCH, rt_path = [''/'', ''/v1'', ''/hosts'', '':id''], rt_guarded = True, rt_handler = H_UpdateHost\<rparr>"
  by (simp_all add: example_find_def newAPIRouter_def registerV1_def route_defs)

lemma change_served:
  assumes "example_find (newAPIRouter False) m ''//v1/hosts:id'' = Some rt" and "rt_guarded rt"
  obtains a where "serve_api (ap_route example_appliance) (ap_log example_appliance)
      (accounts example_appliance (example_system h)) (sy_auth (example_system h)) (change_request m) 1 1 1 1
    = (Run (rt_handler rt) (Some ''root''), a)"
proof -
  have env: "accounts example_appliance (example_system h) = example_auth_env"
    by (simp add: accounts_def example_appliance_def)
  have "fst (serve_api example_find False example_auth_env example_auth (change_request m) 1 1 1 1)
      = Run (rt_handler rt) (Some ''root'')"
    using assms by (simp add: serve_api_def change_request_def Middleware_def basic_auth_def verify_def
        ComparePasswords_def example_auth_defs example_allowed zero_user_def Let_def)
  then show ?thesis
    by (intro that [of "snd (serve_api example_find False example_auth_env example_auth (change_request m) 1 1 1 1)"])
      (simp only: env, simp add: example_appliance_def example_system_def prod_eq_iff)
qed

lemma example_key: "pathID (Itoa 1) = Inr 1"
  by (rule pathID_Itoa) (simp add: int_fits_def)

lemma installing_alone: "tb_First ks_hosts [h] 1 = Inr h" if "h_ID h = 1"
  using that by (simp add: ks_hosts_def list_table_def Let_def)

lemma example_deletes:
  obtains s' where "sys_step example_appliance (example_system installing)
      (Api (change_request DELETE) (Run H_DeleteHost (Some ''root''))) s'" and "hosts_db s' = []"
proof -
  obtain a where a: "serve_api (ap_route example_appliance) (ap_log example_appliance)
      (accounts example_appliance (example_system installing)) (sy_auth (example_system installing))
      (change_request DELETE) 1 1 1 1 = (Run H_DeleteHost (Some ''root''), a)"
    by (rule change_served [OF change_routes(1), where h = installing]) auto
  let ?s = "(example_system installing)\<lparr>sy_auth := a\<rparr>"
  have "DeleteHost (ap_hosts example_appliance) (hosts_db ?s) (Itoa 1) = (NoContent, [])"
    by (simp add: DeleteHost_def crud_Delete_def example_key load_def example_appliance_def example_system_def
        ks_hosts_def list_table_def Let_def)
  then have "performs example_appliance (change_request DELETE) H_DeleteHost ?s (set_hosts [] ?s)"
    by (rule performs.delete_host)
  from that [OF sys_step.api [OF a this]] show ?thesis by simp
qed

lemma example_flags:
  defines "h0 \<equiv> installing\<lparr>h_Reimage := False\<rparr>"
  obtains s' where "sys_step example_appliance (example_system h0)
      (Api (change_request PATCH) (Run H_UpdateHost (Some ''root''))) s'"
    and "hosts_db s' = [h0\<lparr>h_Reimage := True, h_Progress := h_Progress installing\<rparr>]"
proof -
  obtain a where a: "serve_api (ap_route example_appliance) (ap_log example_appliance)
      (accounts example_appliance (example_system h0)) (sy_auth (example_system h0))
      (change_request PATCH) 1 1 1 1 = (Run H_UpdateHost (Some ''root''), a)"
    by (rule change_served [OF change_routes(2), where h = h0]) auto
  let ?s = "(example_system h0)\<lparr>sy_auth := a\<rparr>" and ?h = "h0\<lparr>h_Reimage := True, h_Progress := h_Progress installing\<rparr>"
  have "h_ID h0 = 1" "h_Reimage installing" by (simp_all add: h0_def installing_def ks_host_def)
  then have "UpdateHost (ap_hosts example_appliance) (\<lambda>d s. Inr d) (hosts_db ?s) (Itoa 1) (Inr installing)
      = ([JSON 200 ?h], [?h])"
    by (simp add: UpdateHost_def example_key load_def reload_def force_fields_def example_appliance_def
        example_system_def ks_hosts_def list_table_def Let_def)
  then have "performs example_appliance (change_request PATCH) H_UpdateHost ?s (set_hosts [?h] ?s)"
    by (rule performs.update_host)
  from that [OF sys_step.api [OF a this]] show ?thesis by simp
qed


theorem dhcp_serves_on_orders_witness:
  "\<exists>rq hd u t1 t2 t3. authenticated (accounts example_appliance (example_system (installing\<lparr>h_Reimage := False\<rparr>)))
       example_auth rq t1 t2 t3 u
     \<and> Api rq (Run hd (Some u)) = Api (change_request PATCH) (Run H_UpdateHost (Some ''root''))"
proof (rule example_flags)
  let ?off = "installing\<lparr>h_Reimage := False\<rparr>"
  let ?on = "?off\<lparr>h_Reimage := True, h_Progress := h_Progress installing\<rparr>"
  let ?denv = "\<lparr>find_by_mac = (\<lambda>_. Inr ?on), load_host = (\<lambda>_. Inr ?on), unicode_lower = (\<lambda>s. s), map_order = (\<lambda>k. k)\<rparr>"
  fix s'
  assume step: "sys_step example_appliance (example_system ?off)
      (Api (change_request PATCH) (Run H_UpdateHost (Some ''root''))) s'" and now: "hosts_db s' = [?on]"
  have row: "tb_First (ap_hosts example_appliance) (hosts_db (example_system ?off)) 1 = Inr ?off"
    "tb_First (ap_hosts example_appliance) (hosts_db s') 1 = Inr ?on"
    by (simp_all add: now example_appliance_def example_system_def installing_alone)
  have served: "findHostByMAC ?denv ''x'' = Inr (Some ?on)" by (simp add: findHostByMAC_def)
  have "\<not> h_Reimage ?off" "list_all (\<lambda>j. h_ID j = 1 \<longrightarrow> kept_host ?off j) (in_jobs (sy_hosts (example_system ?off)))"
    by (simp_all add: example_system_def)
  from dhcp_serves_on_orders [OF example_sys_inv row(1) this run_one [of "sys_step example_appliance", OF step] served row(2)]
  obtain es1 s1 rq hd u es2 t1 t2 t3 where e:
    "[Api (change_request PATCH) (Run H_UpdateHost (Some ''root''))] = es1 @ Api rq (Run hd (Some u)) # es2"
    "run (sys_step example_appliance) (example_system ?off) es1 s1"
    "authenticated (accounts example_appliance s1) (sy_auth s1) rq t1 t2 t3 u"
    by blast
  then have "es1 = []" by (cases es1) auto
  with e have "s1 = example_system ?off" by (auto elim: run.cases)
  with e \<open>es1 = []\<close> show ?thesis by (fastforce simp: example_system_def)
qed

end
