(* ===== verification/Boot_Chain.thy ===== *)
theory Boot_Chain
  imports Api_Doc Appliance Dhcp_Properties
begin

section \<open>From the first packet to the report\<close>

text \<open>
  The stations of an installation name the next one to the host: the offer gives it the address by
  which the boot transports and the kickstart handler find it, boot.cfg gives it the URL of its
  kickstart and, over HTTP, of its files, and the kickstart the URL of its report. Here the ends
  are put together: the address leads to the same host, and every URL to a public route.
\<close>

subsection \<open>Addresses\<close>

lemma host_part_dotted:
  assumes "length ip = 4" and "CHR '':'' \<notin> set port" and "CHR ''['' \<notin> set port" and "CHR '']'' \<notin> set port"
  shows "host_part (dotted ip @ '':'' @ port) = dotted ip"
proof -
  from length_4_cases [OF assms(1)] obtain a b c d where ip: "ip = [a, b, c, d]" by blast
  have "x \<notin> set (dotted ip)" if "of_char x \<noteq> (46::nat)" "of_char x < (48::nat) \<or> (57::nat) < of_char x" for x
    using that nat_digits_no_sep [of x] by (auto simp: ip dotted_def)
  from this [of "CHR '':''"] this [of "CHR ''[''"] this [of "CHR '']''"]
  have "set (dotted ip) \<inter> {CHR '':'', CHR ''['', CHR '']''} = {}" by simp
  moreover have "dotted ip \<noteq> []" by (simp add: ip dotted_def)
  ultimately show ?thesis using SplitHostPort_plain [of "dotted ip" port] assms by (simp add: host_part_def)
qed

text \<open>C10: a host on record under an address is led through its installation by that address: the offer
  names it, the boot.cfg fetched from it is rendered from the image of the host's group with the
  host's own hardware address, network and the URL of this server's kickstart, and the kickstart
  fetched from it is the host's, with the password of its group.\<close>

theorem boot_chain:
  assumes "find_by_mac denv (ToLower (unicode_lower denv) (HW_String (ClientHWAddr req))) = Inr h" and "h_Reimage h"
    and "h_IP h = dotted ip" and "length ip = 4" and "CHR '':'' \<notin> set port \<and> CHR ''['' \<notin> set port \<and> CHR '']'' \<notin> set port"
    and "host_by_ip senv (h_IP h) = Inr h"
    and "Config (stat_ok senv) (i_Path (image_for senv h)) = Inr path" and "read_file senv path = Some bc"
    and "ke_find kenv db (h_IP h) = Inr h" and "ke_unflag kenv db h (h_IP h) = Inr db1"
    and "Decrypt (g_Password (h_Group h)) key = Inr password" and "h_Ks h = []" and "g_Ks (h_Group h) = []"
  shows "\<exists>offer raddr. processDiscover denv req sourceNet server = Inr offer
    \<and> raddr = dotted (To4 (YourClientIP offer)) @ '':'' @ port
    \<and> fst (Files senv raddr laddr ''/boot.cfg'') = Data (RenderConfig bc
        \<lparr>p_Prefix = HTTPPrefix ''https'' (host_part laddr) (conf_port senv),
         p_KickstartURL = KickstartURL (host_part laddr) (conf_port senv), p_Mac = h_Mac h, p_IP = h_IP h,
         p_Netmask = g_Netmask (group_for senv h), p_Gateway = g_Gateway (group_for senv h),
         p_Vlan = g_Vlan (h_Group h), p_AllowLegacyCPU = True\<rparr>)
    \<and> fst (Ks tb kenv key db raddr (Some local))
      = KsText (kickstart_text h (fst (UnmarshalOptions (g_Options (h_Group h)))) password local)"
proof -
  have "findHostByMAC denv (HW_String (ClientHWAddr req)) = Inr (Some h)"
    using assms(1,2) by (simp add: findHostByMAC_Some)
  then obtain offer where offer: "processDiscover denv req sourceNet server = Inr offer"
    "YourClientIP offer = ParseIP (h_IP h)"
    by (simp add: processDiscover_def AddOptions_eq Let_def)
  let ?raddr = "dotted (To4 (YourClientIP offer)) @ '':'' @ port"
  have addr: "host_part ?raddr = h_IP h"
    using assms(3-5) host_part_dotted [of ip port] offer(2) by (simp add: To4_ParseIP_dotted)
  have host: "host_for senv (h_IP h) = h" using assms(6) by (simp add: host_for_def)
  have "fst (Files senv ?raddr laddr ''/boot.cfg'') = Data (RenderConfig bc
      (boot_params senv h (host_part laddr) (HTTPPrefix ''https'' (host_part laddr) (conf_port senv))))"
    unfolding Files_def Let_def addr host using assms(7,8) by (simp add: uefi_serveBootCfg_def)
  moreover have "fst (Ks tb kenv key db ?raddr (Some local))
      = KsText (kickstart_text h (fst (UnmarshalOptions (g_Options (h_Group h)))) password local)"
    unfolding Ks_def Let_def addr using assms(9-13) by (simp add: chosen_ks_def run_default)
  ultimately show ?thesis
    using offer(1) by (intro exI [of _ offer] exI [of _ ?raddr]) (simp add: boot_params_def Let_def)
qed

subsection \<open>URLs\<close>

lemma public_urls:
  "\<exists>rt. rt \<in> set (newAPIRouter has_log) \<and> rt_method rt = GET \<and> \<not> rt_guarded rt \<and> rt_handler rt = H_Ks
     \<and> route_url rt = ''/ks.cfg''"
  "\<exists>rt. rt \<in> set (newAPIRouter has_log) \<and> rt_method rt = GET \<and> \<not> rt_guarded rt \<and> rt_handler rt = H_PostConfig
     \<and> route_url rt = ''/v1/postconfig''"
  "\<exists>rt. rt \<in> set (newAPIRouter has_log) \<and> rt \<in> set newBootRouter \<and> rt_method rt = GET \<and> \<not> rt_guarded rt
     \<and> rt_handler rt = H_Files \<and> route_url rt = ''/esx/*filepath''"
proof -
  have urls: "route_url (Handle_route engine GET ''ks.cfg'' H_Ks) = ''/ks.cfg''"
    "route_url (Handle_route engine GET ''/v1/postconfig'' H_PostConfig) = ''/v1/postconfig''"
    "route_url (Handle_route engine GET ''/esx/*filepath'' H_Files) = ''/esx/*filepath''"
    by code_simp+
  note facts = newAPIRouter_def newBootRouter_def Let_def
  show "\<exists>rt. rt \<in> set (newAPIRouter has_log) \<and> rt_method rt = GET \<and> \<not> rt_guarded rt \<and> rt_handler rt = H_Ks
     \<and> route_url rt = ''/ks.cfg''"
    using urls(1) by (intro exI [of _ "Handle_route engine GET ''ks.cfg'' H_Ks"])
      (simp add: facts, simp add: Handle_route_def engine_def)
  show "\<exists>rt. rt \<in> set (newAPIRouter has_log) \<and> rt_method rt = GET \<and> \<not> rt_guarded rt \<and> rt_handler rt = H_PostConfig
     \<and> route_url rt = ''/v1/postconfig''"
    using urls(2) by (intro exI [of _ "Handle_route engine GET ''/v1/postconfig'' H_PostConfig"])
      (simp add: facts, simp add: Handle_route_def engine_def)
  show "\<exists>rt. rt \<in> set (newAPIRouter has_log) \<and> rt \<in> set newBootRouter \<and> rt_method rt = GET \<and> \<not> rt_guarded rt
     \<and> rt_handler rt = H_Files \<and> route_url rt = ''/esx/*filepath''"
    using urls(3) by (intro exI [of _ "Handle_route engine GET ''/esx/*filepath'' H_Files"])
      (simp add: facts, simp add: Handle_route_def engine_def)
qed

lemma found_between: "\<exists>x. a @ b @ (w @ h) @ v @ t = x @ h @ v @ t"
  by (rule exI [of _ "a @ b @ w"]) simp

lemma found_within: "\<exists>pre. k = pre @ d @ n \<Longrightarrow> \<exists>x. d = x @ h @ v @ r @ m \<Longrightarrow> \<exists>b a. k = b @ h @ v @ r @ a"
  by (metis append.assoc)

text \<open>
  Where a URL leads: the two engines listen on their own ports, the API for HTTPS on the configured
  one, the boot engine for HTTP on port 80, and a URL without a port means the default port of its scheme.
  Of the patterns, a star takes the rest of the path; a route for clients needs no credentials.
\<close>

fun takes :: "string \<Rightarrow> string \<Rightarrow> bool" where
  "takes [] path = (path = [])"
| "takes (c # pat) path = (if c = CHR ''*'' then True else case path of [] \<Rightarrow> False | d # ds \<Rightarrow> c = d \<and> takes pat ds)"

definition engine_at :: "int \<Rightarrow> bool \<Rightarrow> string \<Rightarrow> int \<Rightarrow> route list" where
  "engine_at conf has_log scheme port =
     (if scheme = ''https'' \<and> port = conf then newAPIRouter has_log
      else if scheme = ''http'' \<and> port = 80 then newBootRouter else [])"

definition answered :: "route list \<Rightarrow> string \<Rightarrow> handler \<Rightarrow> bool" where
  "answered rs path h \<longleftrightarrow> (\<exists>rt \<in> set rs. rt_method rt = GET \<and> \<not> rt_guarded rt \<and> takes (route_url rt) path \<and> rt_handler rt = h)"

inductive leads :: "int \<Rightarrow> bool \<Rightarrow> string \<Rightarrow> string \<Rightarrow> handler \<Rightarrow> bool" for conf has_log server where
  with_port: "answered (engine_at conf has_log scheme port) path h \<Longrightarrow>
    leads conf has_log server (scheme @ ''://'' @ server @ '':'' @ Itoa port @ path) h"
| default_port: "answered (engine_at conf has_log scheme (if scheme = ''https'' then 443 else 80)) path h \<Longrightarrow>
    leads conf has_log server (scheme @ ''://'' @ server @ path) h"

lemma answered_engine: "answered (engine_at conf has_log scheme port) path h \<Longrightarrow>
    scheme = ''https'' \<and> port = conf \<or> scheme = ''http'' \<and> port = 80"
  by (auto simp: answered_def engine_at_def split: if_splits)

lemma answered_paths:
  "answered (newAPIRouter has_log) ''/ks.cfg'' H_Ks"
  "answered (newAPIRouter has_log) ''/v1/postconfig'' H_PostConfig"
  "answered (newAPIRouter has_log) (''/esx/'' @ file) H_Files"
  "answered newBootRouter (''/esx/'' @ file) H_Files"
  using public_urls [of has_log] unfolding answered_def by fastforce+

text \<open>An HTTPS URL with the configured port leads into the API; one without a port does exactly if that is
  the default port.\<close>

lemma leads_port: "answered (newAPIRouter has_log) path h \<Longrightarrow>
    leads conf has_log server (''https://'' @ server @ '':'' @ Itoa conf @ path) h"
  using with_port [of conf has_log "''https''" conf path h server] by (simp add: engine_at_def)

lemma leads_default:
  assumes "answered (newAPIRouter has_log) (CHR ''/'' # path) h"
  shows "leads conf has_log server (''https://'' @ server @ CHR ''/'' # path) h \<longleftrightarrow> conf = 443"
proof
  assume "conf = 443"
  then show "leads conf has_log server (''https://'' @ server @ CHR ''/'' # path) h"
    using assms default_port [of conf has_log "''https''" "CHR ''/'' # path" h server] by (simp add: engine_at_def)
next
  assume "leads conf has_log server (''https://'' @ server @ CHR ''/'' # path) h"
  then show "conf = 443"
    by (cases rule: leads.cases) (auto dest!: answered_engine)
qed

lemma leads_boot: "leads conf has_log server (''http://'' @ server @ ''/esx/'' @ file) H_Files"
  using default_port [of conf has_log "''http''" "''/esx/'' @ file" H_Files server] answered_paths(4)
  by (simp add: engine_at_def)

lemma report_told:
  "\<exists>before after. kickstart_text item options password (c # via)
     = before @ (''https://'' @ (c # via) @ ''/v1/postconfig'') @ '' 2>/dev/null || true'' @ after"
proof -
  have wget: "''wget --no-check-certificate -O /dev/null https://'' = ''wget --no-check-certificate -O /dev/null '' @ ''https://''"
    and line: "unlines [''/v1/postconfig 2>/dev/null || true''] = ''/v1/postconfig 2>/dev/null || true'' @ nl"
    and rest: "''/v1/postconfig 2>/dev/null || true'' = ''/v1/postconfig'' @ '' 2>/dev/null || true''"
    by (simp_all add: unlines_def)
  have "\<exists>before. text_done (c # via) = before @ ''https://'' @ (c # via) @ ''/v1/postconfig 2>/dev/null || true'' @ nl"
    unfolding text_done_def if_P [OF list.distinct(2)] wget line by (rule found_between)
  moreover have "\<exists>pre. kickstart_text item options password (c # via) = pre @ text_done (c # via) @ nl"
    unfolding kickstart_text_def Let_def by (metis append.assoc)
  ultimately show ?thesis
    unfolding rest using found_within [of _ _ _ _ _ "''/v1/postconfig'' @ '' 2>/dev/null || true''"] append.assoc by metis
qed


subsection \<open>The chain at work\<close>

definition chain_serve :: "host \<Rightarrow> serve_env" where
  "chain_serve h = \<lparr>host_by_ip = (\<lambda>_. Inr h), image_by_id = (\<lambda>_. Inl ErrRecordNotFound),
     group_by_ref = (\<lambda>_. Inl ErrRecordNotFound), stat_ok = (\<lambda>_. True), read_file = (\<lambda>_. Some ''prefix=''),
     unicode_upper = (\<lambda>s. s), conf_port = 443\<rparr>"

definition chain_dhcp :: "host \<Rightarrow> dhcp_env" where
  "chain_dhcp h = \<lparr>find_by_mac = (\<lambda>_. Inr h), load_host = (\<lambda>_. Inr h), unicode_lower = (\<lambda>s. s), map_order = (\<lambda>k. k)\<rparr>"

theorem boot_chain_witness:
  "\<exists>offer raddr p key. processDiscover (chain_dhcp (ks_host p)) example_discover [] [10, 0, 0, 1] = Inr offer
    \<and> raddr = dotted (To4 (YourClientIP offer)) @ '':'' @ ''4021''
    \<and> (\<exists>bootcfg. fst (Files (chain_serve (ks_host p)) raddr ''10.0.0.1:80'' ''/boot.cfg'') = Data bootcfg)
    \<and> fst (Ks ks_hosts example_ks key [ks_host p] raddr (Some ''10.0.0.1:443''))
      = KsText (kickstart_text (ks_host p) (fst (UnmarshalOptions [])) ''VMware1!'' ''10.0.0.1:443'')"
proof -
  let ?key = "hex_EncodeToString (replicate 32 7)"
  have "newGCM ?key = Inr (replicate 32 7)" by (rule newGCM_hex) (simp add: keySize_def)
  then obtain p where "Encrypt ''VMware1!'' ?key (Some (replicate 12 9)) = Inr p" by (simp add: Encrypt_def Let_def)
  then have p: "Decrypt p ?key = Inr ''VMware1!''" by (rule Decrypt_Encrypt) (simp add: NonceSize_def)
  let ?h = "ks_host p"
  have h: "h_IP ?h = ''10.0.0.7''" "h_Reimage ?h" "h_Ks ?h = []" "g_Ks (h_Group ?h) = []" "g_Options (h_Group ?h) = []"
    "g_Password (h_Group ?h) = p"
    by (simp_all add: ks_host_def zero_host_def zero_group_def)
  have ip: "''10.0.0.7'' = dotted [10, 0, 0, 7]" by code_simp
  obtain path where path: "Config (stat_ok (chain_serve ?h)) (i_Path (image_for (chain_serve ?h) ?h)) = Inr path"
    by (simp add: Config_def configPaths_def chain_serve_def)
  show ?thesis
    using boot_chain [of "chain_dhcp ?h" example_discover ?h "[10, 0, 0, 7]" "''4021''" "chain_serve ?h" path "''prefix=''"
        example_ks "[?h]" "[?h\<lparr>h_Reimage := False\<rparr>]" ?key "''VMware1!''" "[]" "[10, 0, 0, 1]" "''10.0.0.1:80''" ks_hosts
        "''10.0.0.1:443''"] path ks_host_found [of p] p h ip
    by (fastforce simp: chain_dhcp_def chain_serve_def ks_remote)
qed

end
