(* ===== verification/Spec2Isabelle.thy ===== *)
theory Spec2Isabelle
  imports Via_Prelude Go_Strings Go_Net Go_Time Go_Regexp Go_Crypto Netutil Model_Types Dhcp_Option Dhcp Dhcp_Properties
    Session_Store Throttle Api_Base Auth Boot Boot_Serve Secrets Crud Users Host_Groups Go_Prefix Hosts Go_Template Go_Base64 Kickstart
    Install Go_Sha256 Images Websockets Router Certificates Startup Go_Json Group_Options Transitions Lifecycle Api_Doc Appliance Boot_Chain
begin

section \<open>go-via: a model of the appliance that installs ESXi hosts over the network\<close>

text \<open>
  go-via answers the DHCP requests of bare hosts, serves them the ESXi boot loader over TFTP or
  HTTP, hands out a kickstart with their root password, and hears from them when they are done. An
  operator manages hosts, groups, images and accounts through an authenticated HTTP API. The
  development models the Go code of \<^verbatim>\<open>src/internal\<close> and \<^verbatim>\<open>src/cmd/go-via\<close>.

  How the parts interact. The database is the shared state: the DHCP server (\<^verbatim>\<open>dhcp\<close>) finds a host
  by its hardware address and answers only while its re-image flag is set; the boot transports
  (\<^verbatim>\<open>tftp\<close>, \<^verbatim>\<open>server/uefi.go\<close>) find it by its address, render \<^verbatim>\<open>boot.cfg\<close> (\<^verbatim>\<open>boot\<close>) and move its
  progress; the kickstart handler (\<^verbatim>\<open>api/ks.go\<close>) clears the flag, decrypts the password of the
  group (\<^verbatim>\<open>secrets\<close>) and executes a template; the report handlers (\<^verbatim>\<open>api/postconfig.go\<close>) start a
  worker that completes the row. The API handlers (\<^verbatim>\<open>api\<close>) change the rows; the routes
  (\<^verbatim>\<open>server/router.go\<close>) put them behind the middleware, which relies on the session store and the
  throttle (\<^verbatim>\<open>auth\<close>). The log goes to connected browsers (\<^verbatim>\<open>websockets\<close>).
\<close>

subsection \<open>Theories\<close>

text \<open>
  The language and its standard library, as far as the program uses them:

  \<^item> \<^verbatim>\<open>Via_Prelude\<close> bytes, characters and list lemmas; \<^verbatim>\<open>Go_Strings\<close> numbers, splitting, trimming, paths,
    hexadecimal; \<^verbatim>\<open>Go_Net\<close> and \<^verbatim>\<open>Go_Prefix\<close> addresses, masks, prefixes and hardware addresses;
    \<^verbatim>\<open>Go_Time\<close> clock readings; \<^verbatim>\<open>Go_Regexp\<close> the expressions of \<^verbatim>\<open>boot\<close>; \<^verbatim>\<open>Go_Template\<close> the subset of
    \<^verbatim>\<open>text/template\<close> the kickstarts are written in; \<^verbatim>\<open>Go_Json\<close> JSON text; \<^verbatim>\<open>Go_Base64\<close>, \<^verbatim>\<open>Go_Crypto\<close>
    (AES-GCM) and \<^verbatim>\<open>Go_Sha256\<close>. The equations are executable and were compared with known answers.
    \<^verbatim>\<open>Transitions\<close> is about step relations: runs, and the interface of a simulation.

  The program, one theory for each part, with the file it models:

  \<^item> \<^verbatim>\<open>Netutil\<close> (\<^verbatim>\<open>netutil\<close>), \<^verbatim>\<open>Model_Types\<close> and \<^verbatim>\<open>Dhcp_Option\<close> (\<^verbatim>\<open>model\<close>), \<^verbatim>\<open>Dhcp\<close> and
    \<^verbatim>\<open>Dhcp_Properties\<close> (\<^verbatim>\<open>dhcp/dhcpd.go\<close>);
  \<^item> \<^verbatim>\<open>Session_Store\<close>, \<^verbatim>\<open>Throttle\<close> (\<^verbatim>\<open>auth\<close>), \<^verbatim>\<open>Api_Base\<close> (\<^verbatim>\<open>api/error.go\<close>), \<^verbatim>\<open>Auth\<close> (\<^verbatim>\<open>api/login.go\<close>,
    \<^verbatim>\<open>api/middleware.go\<close>), \<^verbatim>\<open>Router\<close> (\<^verbatim>\<open>server/router.go\<close>);
  \<^item> \<^verbatim>\<open>Boot\<close> (\<^verbatim>\<open>boot\<close>), \<^verbatim>\<open>Boot_Serve\<close> (\<^verbatim>\<open>tftp/tftp.go\<close>, \<^verbatim>\<open>server/uefi.go\<close>), \<^verbatim>\<open>Secrets\<close> (\<^verbatim>\<open>secrets\<close>),
    \<^verbatim>\<open>Group_Options\<close> and \<^verbatim>\<open>Kickstart\<close> (\<^verbatim>\<open>api/ks.go\<close>), \<^verbatim>\<open>Install\<close> (\<^verbatim>\<open>api/postconfig.go\<close>, and the interleaving of all handlers
    of an installation);
  \<^item> \<^verbatim>\<open>Crud\<close> (\<^verbatim>\<open>api/crud.go\<close>, \<^verbatim>\<open>api/device_classes.go\<close>), \<^verbatim>\<open>Users\<close>, \<^verbatim>\<open>Host_Groups\<close>, \<^verbatim>\<open>Hosts\<close>, \<^verbatim>\<open>Images\<close> (the
    files of these names under \<^verbatim>\<open>api\<close>);
  \<^item> \<^verbatim>\<open>Websockets\<close> (\<^verbatim>\<open>websockets\<close>), \<^verbatim>\<open>Certificates\<close> (\<^verbatim>\<open>crypto\<close>), \<^verbatim>\<open>Startup\<close> (\<^verbatim>\<open>cmd/go-via/main.go\<close>,
    \<^verbatim>\<open>config\<close>, \<^verbatim>\<open>store\<close>, \<^verbatim>\<open>tftp.Serve\<close>, the start of \<^verbatim>\<open>dhcp.Init\<close>), \<^verbatim>\<open>Api_Doc\<close> (\<^verbatim>\<open>docs/docs.go\<close>, the API document).

  What spans components: \<^verbatim>\<open>Lifecycle\<close> is the automaton a host goes through, with the proof that \<^verbatim>\<open>Install\<close>
  refines it, and \<^verbatim>\<open>Appliance\<close> puts the routers, the middleware, every handler that changes hosts,
  accounts or sessions, the TFTP server and the workers on one state. \<^verbatim>\<open>Boot_Chain\<close> puts the stations
  of an installation together, from the DHCP offer to the kickstart.

  A Go struct is a record, an enumeration a datatype, an error a value of a sum or option type, and
  a handler a function from the state and the request to its reply and the new state. Where the
  code replies twice or goes on after an error, so does the model. Integers keep their width where
  it shows. A function keeps its name; a clash is resolved by a prefix.
\<close>

subsection \<open>Interfaces\<close>

text \<open>
  What a part relies on is an interface, and an interpretation shows that the provider keeps it:
  sessions as a token store (\<^verbatim>\<open>Session_Store\<close>), encodings as a codec (\<^verbatim>\<open>Go_Strings\<close> and the theories
  that provide one), literal line patterns for the rewriting of \<^verbatim>\<open>boot.cfg\<close> (\<^verbatim>\<open>Go_Regexp\<close>, \<^verbatim>\<open>Boot\<close>),
  simulations (\<^verbatim>\<open>Transitions\<close>), of the automaton of a host by the handlers of an installation (\<^verbatim>\<open>Lifecycle\<close>)
  and by the whole appliance (\<^verbatim>\<open>Appliance\<close>).
  Code that is not part of the repository enters as an argument with its documented laws as a
  predicate: the database as a record of operations with \<^verbatim>\<open>table_laws\<close> (\<^verbatim>\<open>Crud\<close>) and \<^verbatim>\<open>ks_laws\<close>
  (\<^verbatim>\<open>Kickstart\<close>), the lookup of a route with \<^verbatim>\<open>router_law\<close>, the library's \<^verbatim>\<open>FirstOrCreate\<close> with
  \<^verbatim>\<open>first_or_create_law\<close>, the X.509 functions with \<^verbatim>\<open>x509_laws\<close> (what a signed template parses to: times at the
  precision of the encoding, and the key identifier the library gives an authority without one); bcrypt, the merge of structs, the
  classes of non-ASCII characters and the results of system calls without laws. Each law is shown
  to hold of a concrete instance, on which the theorems are applied.
\<close>

subsection \<open>What the theorems show\<close>

text \<open>
  \<^item> Booting: DHCP confirms exactly the reserved address of a flagged host, with exactly the options it
    asked for and those always sent, with the values of a table of their own; the two transports render the same \<^verbatim>\<open>boot.cfg\<close>, line by line; the default kickstart is
    what its settings call for; serving it ends re-imaging, and once no worker holds an older, flagged copy
    of the row, no interleaving of boots, kickstarts, reports and workers starts it again; every installation
    whose steps come in their order completes.
  \<^item> Access: every accepted cookie goes back to a login; destroyed sessions stay dead; guessing is bounded
    in any window by the throttle's limit for a client that waits for its replies, and by less than the limit
    and the number of attempts at once for one that does not; all but six public handlers run only for an authenticated user.
  \<^item> Rows: what create, update and delete do to the table on every branch; the address of a new host is
    in its network; passwords of groups round-trip through AES-GCM; images are stored only with a
    right hash.
  \<^item> The whole: for each host every run of the appliance is a run of a small automaton; a host changes in
    more than its flag and its progress, or is flagged again, only by an authenticated request of an
    operator, and only then does DHCP answer it again. The address and the URLs a host is told lead it
    to its own files and kickstart, on the ports the two engines listen on; where a URL names no port, exactly
    if the API has the default one.
  \<^item> The API document: it lists the statuses the handlers reply with, but for the exceptions that are named.
  \<^item> Surroundings: the log stream keeps its bounds and its order and returns exactly when it should; PEM
    files are written whole; the server's certificate is made once, signed by the authority made with it, and
    every later start serves HTTPS with it or not at all.
  \<^item> Faults the model exposes are theorems too: files outside the images over TFTP, a crash on an empty
    option, a path the client chooses removed with an image, updates lost to a worker, a deleted host that comes back,
    a report ahead of the kickstart that flags the host again, a certificate without its key that no start repairs,
    options that cannot be set the documented way, and others.
\<close>

subsection \<open>Bounds and termination\<close>

text \<open>
  All functions are total but two loops without a bound: the select loop of a connection is a partial
  function whose result is \<open>None\<close> when it never returns, and \<^verbatim>\<open>Websockets\<close> shows exactly when that
  is; the interleavings of \<^verbatim>\<open>Install\<close>, \<^verbatim>\<open>Websockets\<close>, \<^verbatim>\<open>Auth\<close> and \<^verbatim>\<open>Appliance\<close> are step relations,
  in \<^verbatim>\<open>Auth\<close> also that of attempts which overlap between the check and the failure. The read loop of
  DHCP is a function of what its reads give. There is no fuel. JSON text nests at most 10000 deep, the
  decoder's own bound.
\<close>

subsection \<open>Not modelled\<close>

text \<open>
  Logging; time stamp columns; sockets, the packet codec and the HTTP engine; the JSON encoding of
  whole rows (a parameter of the callback); filling in the template of the API document; the
  embedded frontend. A handler is one step in \<^verbatim>\<open>Appliance\<close>, only the workers are apart from the
  request that starts them. There the handlers of groups, images and device classes may do anything
  to what is loaded with a host, and nothing to its columns. The start-up's goroutines are listed as
  actions of the main program and modelled in their own theories.
\<close>

subsection \<open>Left to do\<close>

text \<open>
  The JSON of whole rows against the models of the API document; the log's connections as a further
  simulation of the appliance; the queries by secondary keys as laws of the table rather than
  parameters.
\<close>

end
